(* ===== verification/Prelude.thy ===== *)
theory Prelude
  imports Main "HOL-Library.List_Lexorder" "HOL-Library.Char_ord"
begin

text \<open>
  Shared ground of the development: Go's byte strings and the few functions of the packages
  \<open>strings\<close> and \<open>slices\<close> the service uses, association lists standing for Go maps, and the
  generic lemmas the components share.

  A Go string is a sequence of bytes, here \<open>string\<close> (a list of \<open>char\<close>, each one byte).
  \<open>strings.ToLower\<close> and \<open>strings.TrimSpace\<close> are modelled on ASCII: the bytes of a multi-byte
  character are kept as they are. Strings are compared byte by byte, as Go does; the order is
  the lexicographic one of \<open>List_Lexorder\<close> over \<open>Char_ord\<close>.
\<close>

named_theorems str_simps \<open>facts about the string functions\<close>
named_theorems map_simps \<open>lookup facts about the association lists that stand for Go maps\<close>

section \<open>Strings\<close>

definition lower_char :: "char \<Rightarrow> char" where
  "lower_char c = (if CHR ''A'' \<le> c \<and> c \<le> CHR ''Z'' then char_of (of_char c + 32 :: nat) else c)"

definition to_lower :: "string \<Rightarrow> string" where
  "to_lower s = map lower_char s"

definition is_space :: "char \<Rightarrow> bool" where
  "is_space c \<longleftrightarrow> c \<in> {CHR 0x09, CHR 0x0A, CHR 0x0B, CHR 0x0C, CHR 0x0D, CHR '' ''}"

definition trim_left :: "(char \<Rightarrow> bool) \<Rightarrow> string \<Rightarrow> string" where
  "trim_left p s = dropWhile p s"

definition trim_both :: "(char \<Rightarrow> bool) \<Rightarrow> string \<Rightarrow> string" where
  "trim_both p s = rev (dropWhile p (rev (dropWhile p s)))"

definition trim_space :: "string \<Rightarrow> string" where
  "trim_space s = trim_both is_space s"

definition has_prefix :: "string \<Rightarrow> string \<Rightarrow> bool" where
  "has_prefix s p \<longleftrightarrow> take (length p) s = p"

definition trim_prefix :: "string \<Rightarrow> string \<Rightarrow> string" where
  "trim_prefix s p = (if has_prefix s p then drop (length p) s else s)"

definition cut_prefix :: "string \<Rightarrow> string \<Rightarrow> string option" where
  "cut_prefix s p = (if has_prefix s p then Some (drop (length p) s) else None)"

text \<open>\<open>strings.Cut\<close> with a one-byte separator: \<open>None\<close> is the third result \<open>false\<close>.\<close>

definition cut :: "char \<Rightarrow> string \<Rightarrow> (string \<times> string) option" where
  "cut c s = (if c \<in> set s
     then Some (takeWhile (\<lambda>x. x \<noteq> c) s, tl (dropWhile (\<lambda>x. x \<noteq> c) s)) else None)"

fun contains_str :: "string \<Rightarrow> string \<Rightarrow> bool" where
  "contains_str [] p \<longleftrightarrow> p = []"
| "contains_str (c # cs) p \<longleftrightarrow> has_prefix (c # cs) p \<or> contains_str cs p"

lemma has_prefix_append [simp, str_simps]: "has_prefix (p @ s) p"
  by (simp add: has_prefix_def)

lemma has_prefix_iff: "has_prefix s p \<longleftrightarrow> (\<exists>t. s = p @ t)"
  unfolding has_prefix_def by (metis append_eq_conv_conj)

lemma has_prefix_Nil [simp]: "has_prefix s []"
  by (simp add: has_prefix_def)

lemma has_prefix_Cons [simp]: "has_prefix (a # s) (b # p) \<longleftrightarrow> a = b \<and> has_prefix s p"
  by (auto simp: has_prefix_def)

lemma has_prefix_Nil_Cons [simp]: "\<not> has_prefix [] (b # p)"
  by (simp add: has_prefix_def)

lemma trim_prefix_append [simp, str_simps]: "trim_prefix (p @ s) p = s"
  by (simp add: trim_prefix_def)

lemma cut_None_iff: "cut c s = None \<longleftrightarrow> c \<notin> set s"
  by (simp add: cut_def)

lemma cut_None [simp, str_simps]: "c \<notin> set s \<Longrightarrow> cut c s = None"
  by (simp add: cut_def)

lemma cut_append [simp, str_simps]: "c \<notin> set a \<Longrightarrow> cut c (a @ c # b) = Some (a, b)"
proof -
  assume "c \<notin> set a"
  then have "takeWhile (\<lambda>x. x \<noteq> c) (a @ c # b) = a" "dropWhile (\<lambda>x. x \<noteq> c) (a @ c # b) = c # b"
    by (induction a) auto
  then show ?thesis by (simp add: cut_def)
qed

lemma cut_SomeD: "cut c s = Some (a, b) \<Longrightarrow> s = a @ c # b \<and> c \<notin> set a"
proof -
  assume "cut c s = Some (a, b)"
  then have c: "c \<in> set s" and ab: "a = takeWhile (\<lambda>x. x \<noteq> c) s" "b = tl (dropWhile (\<lambda>x. x \<noteq> c) s)"
    by (auto simp: cut_def split: if_splits)
  from c obtain u v where uv: "s = u @ c # v" "c \<notin> set u"
    by (meson split_list_first)
  then have "cut c s = Some (u, v)" by simp
  with \<open>cut c s = Some (a, b)\<close> uv show ?thesis by simp
qed

text \<open>\<open>strings.Split\<close> at a one-byte separator.\<close>

function split_on :: "char \<Rightarrow> string \<Rightarrow> string list" where
  "split_on c s = (case cut c s of None \<Rightarrow> [s] | Some (a, b) \<Rightarrow> a # split_on c b)"
  by pat_completeness auto
termination
  by (relation "measure (\<lambda>(c, s). length s)") (auto dest!: sym [of "Some _"] cut_SomeD)

declare split_on.simps [simp del]

fun join_with :: "char \<Rightarrow> string list \<Rightarrow> string" where
  "join_with c [] = []"
| "join_with c [s] = s"
| "join_with c (s # t # ts) = s @ c # join_with c (t # ts)"

lemma split_on_no_sep: "c \<notin> set s \<Longrightarrow> split_on c s = [s]"
  by (subst split_on.simps) simp

lemma split_on_append: "c \<notin> set a \<Longrightarrow> split_on c (a @ c # b) = a # split_on c b"
  by (subst split_on.simps) simp

lemma split_join: "xs \<noteq> [] \<Longrightarrow> (\<And>x. x \<in> set xs \<Longrightarrow> c \<notin> set x) \<Longrightarrow> split_on c (join_with c xs) = xs"
  by (induction c xs rule: join_with.induct) (auto simp: split_on_no_sep split_on_append)

lemma contains_str_iff: "contains_str s p \<longleftrightarrow> (\<exists>u v. s = u @ p @ v)"
proof (induction s)
  case Nil
  then show ?case by auto
next
  case (Cons c cs)
  have "(\<exists>u v. c # cs = u @ p @ v) \<longleftrightarrow> (\<exists>v. c # cs = p @ v) \<or> (\<exists>u v. cs = u @ p @ v)"
    by (metis append_Cons append_Nil list.exhaust list.inject)
  with Cons show ?case by (auto simp: has_prefix_iff)
qed

lemma contains_str_char: "contains_str s [c] \<longleftrightarrow> c \<in> set s"
  by (auto simp: contains_str_iff in_set_conv_decomp)

subsection \<open>Lower case and trimming\<close>

lemma of_char_lower: "of_char (lower_char c) =
    (if 65 \<le> (of_char c :: nat) \<and> (of_char c :: nat) \<le> 90 then of_char c + 32 else (of_char c :: nat))"
proof -
  have "(CHR ''A'' \<le> c \<and> c \<le> CHR ''Z'') = (65 \<le> (of_char c :: nat) \<and> (of_char c :: nat) \<le> 90)"
    by (simp add: less_eq_char_def)
  then show ?thesis by (simp add: lower_char_def)
qed

lemma lower_char_idem [simp, str_simps]: "lower_char (lower_char c) = lower_char c"
proof -
  have "(of_char (lower_char (lower_char c)) :: nat) = of_char (lower_char c)"
    by (simp add: of_char_lower)
  then show ?thesis by simp
qed

lemma lower_char_fixed: "of_char c < (65::nat) \<Longrightarrow> lower_char c = c"
  by (auto simp: lower_char_def less_eq_char_def)

lemma is_space_of_char: "is_space c \<longleftrightarrow> (of_char c :: nat) \<in> {9, 10, 11, 12, 13, 32}"
  unfolding is_space_def insert_iff of_char_eq_iff [where 'a = nat, symmetric] by simp

lemma is_space_lower [simp]: "is_space (lower_char c) \<longleftrightarrow> is_space c"
  by (simp add: is_space_of_char of_char_lower)

lemma to_lower_simps [simp, str_simps]:
  "to_lower [] = []" "to_lower (c # s) = lower_char c # to_lower s"
  "to_lower (s @ t) = to_lower s @ to_lower t" "length (to_lower s) = length s"
  "to_lower (to_lower s) = to_lower s" "to_lower s = [] \<longleftrightarrow> s = []"
  by (simp_all add: to_lower_def)

lemma dropWhile_map_lower: "dropWhile is_space (map lower_char s) = map lower_char (dropWhile is_space s)"
  by (induction s) auto

lemma trim_space_to_lower: "trim_space (to_lower s) = to_lower (trim_space s)"
  by (simp add: trim_space_def trim_both_def to_lower_def dropWhile_map_lower rev_map)

lemma trim_both_decomp: "\<exists>a b. s = a @ trim_both p s @ b \<and> list_all p a \<and> list_all p b"
proof -
  let ?t = "dropWhile p s"
  have "s = takeWhile p s @ ?t" by simp
  moreover have "?t = rev (dropWhile p (rev ?t)) @ rev (takeWhile p (rev ?t))"
    by (metis rev_append rev_rev_ident takeWhile_dropWhile_id)
  ultimately have "s = takeWhile p s @ trim_both p s @ rev (takeWhile p (rev ?t))"
    by (simp add: trim_both_def)
  moreover have "list_all p (takeWhile p s)" "list_all p (rev (takeWhile p (rev ?t)))"
    by (auto simp: list_all_iff dest: set_takeWhileD)
  ultimately show ?thesis by blast
qed

text \<open>A string with no white space at either end is left alone.\<close>

lemma trim_both_id: "s = [] \<or> (\<not> p (hd s) \<and> \<not> p (last s)) \<Longrightarrow> trim_both p s = s"
proof (cases "s = []")
  case True
  then show ?thesis by (simp add: trim_both_def)
next
  case False
  assume "s = [] \<or> (\<not> p (hd s) \<and> \<not> p (last s))"
  with False have h: "\<not> p (hd s)" "\<not> p (last s)" by auto
  from False h have "dropWhile p s = s" by (cases s) auto
  moreover from False h have "dropWhile p (rev s) = rev s"
    by (metis dropWhile_eq_self_iff hd_rev rev_is_Nil_conv)
  ultimately show ?thesis by (simp add: trim_both_def)
qed

lemma trim_both_ends: "trim_both p s \<noteq> [] \<Longrightarrow> \<not> p (hd (trim_both p s)) \<and> \<not> p (last (trim_both p s))"
proof -
  assume ne: "trim_both p s \<noteq> []"
  let ?t = "dropWhile p s"
  have u: "trim_both p s = rev (dropWhile p (rev ?t))" by (simp add: trim_both_def)
  with ne have "dropWhile p (rev ?t) \<noteq> []" by simp
  then have l: "\<not> p (last (trim_both p s))"
    by (metis hd_dropWhile hd_rev last_rev rev_is_Nil_conv u rev_rev_ident)
  obtain z where z: "?t = trim_both p s @ z"
    by (metis u rev_append rev_rev_ident takeWhile_dropWhile_id)
  with ne have "?t \<noteq> []" "hd (trim_both p s) = hd ?t" by auto
  then have "\<not> p (hd (trim_both p s))" by (metis hd_dropWhile)
  with l show ?thesis by simp
qed

lemma trim_both_idem [simp]: "trim_both p (trim_both p s) = trim_both p s"
  using trim_both_ends [of p s] by (intro trim_both_id) auto

lemma trim_space_idem [simp, str_simps]: "trim_space (trim_space s) = trim_space s"
  by (simp add: trim_space_def)

lemma trim_space_id: "(\<And>c. c \<in> set s \<Longrightarrow> \<not> is_space c) \<Longrightarrow> trim_space s = s"
  unfolding trim_space_def by (rule trim_both_id) auto

section \<open>Lists\<close>

text \<open>The loop \<open>for x in xs: if seen[x] continue; seen[x] = true; out = append(out, x)\<close>.\<close>

fun uniq_from :: "'a list \<Rightarrow> 'a list \<Rightarrow> 'a list" where
  "uniq_from seen [] = []"
| "uniq_from seen (x # xs) =
     (if x \<in> set seen then uniq_from seen xs else x # uniq_from (x # seen) xs)"

abbreviation uniq :: "'a list \<Rightarrow> 'a list" where
  "uniq xs \<equiv> uniq_from [] xs"

lemma set_uniq_from: "set (uniq_from seen xs) = set xs - set seen"
  by (induction seen xs rule: uniq_from.induct) auto

lemma set_uniq [simp]: "set (uniq xs) = set xs"
  by (simp add: set_uniq_from)

lemma distinct_uniq_from [simp]: "distinct (uniq_from seen xs)"
  by (induction seen xs rule: uniq_from.induct) (auto simp: set_uniq_from)

lemma uniq_from_cong: "set a = set b \<Longrightarrow> uniq_from a xs = uniq_from b xs"
proof (induction xs arbitrary: a b)
  case (Cons x xs)
  then have "set (x # a) = set (x # b)" by simp
  from Cons.IH [OF this] Cons.IH [OF Cons.prems] Cons.prems show ?case by simp
qed simp

text \<open>\<open>if !seen[x] { seen[x] = true; out = append(out, x) }\<close>, where \<open>seen\<close> holds what \<open>out\<close> holds.\<close>

definition add_new :: "'a \<Rightarrow> 'a list \<Rightarrow> 'a list" where
  "add_new x acc = (if x \<in> set acc then acc else acc @ [x])"

lemma set_add_new [simp]: "set (add_new x acc) = insert x (set acc)"
  by (auto simp: add_new_def)

lemma distinct_add_new [simp]: "distinct acc \<Longrightarrow> distinct (add_new x acc)"
  by (simp add: add_new_def)

lemma set_fold_add_new [simp]: "set (fold add_new xs acc) = set xs \<union> set acc"
  by (induction xs arbitrary: acc) auto

lemma distinct_fold_add_new [simp]: "distinct acc \<Longrightarrow> distinct (fold add_new xs acc)"
  by (induction xs arbitrary: acc) auto

text \<open>\<open>limit > 0 && len(out) > limit\<close> then \<open>out[:limit]\<close>.\<close>

definition limited :: "int \<Rightarrow> 'a list \<Rightarrow> 'a list" where
  "limited limit xs = (if limit > 0 \<and> int (length xs) > limit then take (nat limit) xs else xs)"

lemma limited_le [simp]: "limit \<le> 0 \<Longrightarrow> limited limit xs = xs"
  by (simp add: limited_def)

lemma length_limited: "limit > 0 \<Longrightarrow> int (length (limited limit xs)) \<le> limit"
  by (auto simp: limited_def)

lemma set_limited: "set (limited limit xs) \<subseteq> set xs"
  by (auto simp: limited_def dest: in_set_takeD)

lemma distinct_limited: "distinct xs \<Longrightarrow> distinct (limited limit xs)"
  by (simp add: limited_def)

section \<open>Worklist searches\<close>

text \<open>
  What the searches of the service share: the nodes reachable from a set that is closed under
  steps are the set itself, and a node's successors may be added to the start nodes.
\<close>

lemma Image_closed: "R `` V \<subseteq> V \<Longrightarrow> R\<^sup>* `` V = V"
proof -
  assume cl: "R `` V \<subseteq> V"
  have "y \<in> V" if "(x, y) \<in> R\<^sup>*" "x \<in> V" for x y
    using that cl by (induction rule: rtrancl_induct) auto
  then show ?thesis by auto
qed

lemma Image_rtrancl_add: "x \<in> A \<Longrightarrow> R\<^sup>* `` (A \<union> R `` {x}) = R\<^sup>* `` A"
  by (auto intro: converse_rtrancl_into_rtrancl)

section \<open>Go maps as association lists\<close>

text \<open>
  A Go map is a list of key/value pairs with distinct keys; the order of the list is the
  order in which \<open>range\<close> happens to visit it, so facts about results must not depend on it.
\<close>

type_synonym ('k, 'v) gomap = "('k \<times> 'v) list"

abbreviation lookup :: "('k, 'v) gomap \<Rightarrow> 'k \<Rightarrow> 'v option" where
  "lookup m k \<equiv> map_of m k"

fun put :: "'k \<Rightarrow> 'v \<Rightarrow> ('k, 'v) gomap \<Rightarrow> ('k, 'v) gomap" where
  "put k v [] = [(k, v)]"
| "put k v ((k', v') # m) = (if k = k' then (k, v) # m else (k', v') # put k v m)"

definition del :: "'k \<Rightarrow> ('k, 'v) gomap \<Rightarrow> ('k, 'v) gomap" where
  "del k m = filter (\<lambda>(k', v'). k' \<noteq> k) m"

definition map_vals :: "('k \<Rightarrow> 'v \<Rightarrow> 'w) \<Rightarrow> ('k, 'v) gomap \<Rightarrow> ('k, 'w) gomap" where
  "map_vals f m = map (\<lambda>(k, v). (k, f k v)) m"

definition lookup_default :: "'v \<Rightarrow> ('k, 'v) gomap \<Rightarrow> 'k \<Rightarrow> 'v" where
  "lookup_default d m k = (case map_of m k of None \<Rightarrow> d | Some v \<Rightarrow> v)"

abbreviation gomap_ok :: "('k, 'v) gomap \<Rightarrow> bool" where
  "gomap_ok m \<equiv> distinct (map fst m)"

lemma lookup_put [simp, map_simps]: "map_of (put k v m) = (map_of m)(k \<mapsto> v)"
  by (induction k v m rule: put.induct) auto

lemma lookup_del [simp, map_simps]: "map_of (del k m) = (map_of m)(k := None)"
  by (induction m) (auto simp: del_def)

lemma lookup_map_vals [simp, map_simps]: "map_of (map_vals f m) k = map_option (f k) (map_of m k)"
  by (induction m) (auto simp: map_vals_def)

lemma keys_put: "fst ` set (put k v m) = insert k (fst ` set m)"
  by (induction k v m rule: put.induct) auto

lemma gomap_ok_put [simp]: "gomap_ok m \<Longrightarrow> gomap_ok (put k v m)"
  by (induction k v m rule: put.induct) (auto simp: keys_put)

lemma gomap_ok_filter [simp]: "gomap_ok m \<Longrightarrow> gomap_ok (filter P m)"
  by (rule distinct_map_filter)

lemma gomap_ok_del [simp]: "gomap_ok m \<Longrightarrow> gomap_ok (del k m)"
  by (simp add: del_def)

lemma keys_map_vals [simp]: "map fst (map_vals f m) = map fst m"
  by (induction m) (auto simp: map_vals_def)

lemma in_gomap_iff: "gomap_ok m \<Longrightarrow> (k, v) \<in> set m \<longleftrightarrow> map_of m k = Some v"
  by (simp add: map_of_eq_Some_iff)

text \<open>Sorting what a map holds by its key gives a list that does not depend on the order \<open>range\<close> visits it in.\<close>

lemma sort_key_gomap_unique:
  assumes "gomap_ok m" and "gomap_ok m'" and "map_of m = map_of m'"
  shows "sort_key fst m = sort_key fst (m' :: ('k :: linorder, 'v) gomap)"
proof -
  let ?a = "sort_key fst m" and ?b = "sort_key fst m'"
  have "set m = set m'" using assms(3) by (auto simp: in_gomap_iff [OF assms(1)] in_gomap_iff [OF assms(2)])
  then have eq: "set ?a = set ?b" by simp
  have "distinct (map fst ?a)" "distinct (map fst ?b)"
    using assms(1,2) by (simp_all add: distinct_map)
  then have "map fst ?a = map fst ?b"
    using eq by (intro sorted_distinct_set_unique) auto
  moreover have "inj_on fst (set ?a \<union> set ?b)"
    using assms(1) eq by (simp add: distinct_map)
  ultimately show ?thesis by (rule map_inj_on)
qed

section \<open>Fallible results\<close>

text \<open>\<open>x, err := f(); if err != nil { return err }\<close> as a case split on a sum.\<close>

definition bindE :: "'e + 'a \<Rightarrow> ('a \<Rightarrow> 'e + 'b) \<Rightarrow> 'e + 'b" where
  "bindE r f = (case r of Inl e \<Rightarrow> Inl e | Inr x \<Rightarrow> f x)"

lemma bindE_simps [simp]: "bindE (Inl e) f = Inl e" "bindE (Inr x) f = f x"
  by (simp_all add: bindE_def)

lemma bindE_Inr: "bindE r f = Inr y \<longleftrightarrow> (\<exists>x. r = Inr x \<and> f x = Inr y)"
  by (cases r) auto

lemma bindE_Inl: "bindE r f = Inl e \<longleftrightarrow> r = Inl e \<or> (\<exists>x. r = Inr x \<and> f x = Inl e)"
  by (cases r) auto

end
