(* ===== verification/Tokens.thy ===== *)
theory Tokens
  imports Prelude
begin

text \<open>
  \<open>internal/common/types.go\<close>: the data the service stores and the spelling of ids and tokens.
  A token is \<open>user:<email>\<close>, \<open>group:<id>\<close>, \<open>group:<id>#<relation>\<close> or \<open>pattern:<glob>\<close>.

  Times are integers (nanoseconds), a nil \<open>*time.Time\<close> or \<open>*uuid.UUID\<close> is \<open>None\<close>, a UUID is a
  natural number (0 is \<open>uuid.Nil\<close>); where the code calls \<open>uuid.New()\<close> or \<open>time.Now()\<close> the model
  takes the value as an argument.

  The lemmas: normalising is idempotent, splitting and joining a group and its relation are
  inverse, tokens of groups without a \<open>#\<close> determine group and relation, parsing and building
  a token are inverse.
\<close>

type_synonym uuid = nat
type_synonym time = int

section \<open>Constants\<close>

abbreviation GroupPrefix :: string where "GroupPrefix \<equiv> ''group:''"
abbreviation UserPrefix :: string where "UserPrefix \<equiv> ''user:''"
abbreviation PatternPrefix :: string where "PatternPrefix \<equiv> ''pattern:''"
abbreviation RelationMember :: string where "RelationMember \<equiv> ''member''"
abbreviation RelationSeparator :: char where "RelationSeparator \<equiv> CHR ''#''"
abbreviation SourceTypeCSV :: string where "SourceTypeCSV \<equiv> ''csv''"
abbreviation SourceTypeLDIF :: string where "SourceTypeLDIF \<equiv> ''ldif''"
abbreviation SourceTypeKeycloak :: string where "SourceTypeKeycloak \<equiv> ''keycloak''"
abbreviation SourceTypeLocal :: string where "SourceTypeLocal \<equiv> ''local''"
abbreviation SyncStatusOK :: string where "SyncStatusOK \<equiv> ''ok''"
abbreviation SyncStatusError :: string where "SyncStatusError \<equiv> ''error''"

section \<open>Data\<close>

record Group =
  g_id :: string
  g_token :: string
  g_display :: string
  g_desc :: string
  g_source :: "uuid option"
  g_source_name :: string
  g_relations :: "string list"
  g_created :: time
  g_updated :: time

record Source =
  s_id :: uuid
  s_name :: string
  s_type :: string
  s_schedule :: string
  s_dn_regexp :: string
  s_rel_regexp :: string
  s_file_path :: string
  s_last_synced :: "time option"
  s_last_status :: string
  s_created :: time
  s_updated :: time
  s_reserved :: "string list"

record SyncLog =
  l_id :: uuid
  l_source :: uuid
  l_started :: time
  l_finished :: "time option"
  l_added :: nat
  l_removed :: nat
  l_error :: string
  l_notes :: "string list"

record Membership =
  ms_member :: string
  ms_relation :: string
  ms_expires :: "time option"
  ms_expired :: bool
  ms_created :: time

record Manager =
  m_token :: string
  m_created_by :: string
  m_created :: time

datatype ChangeAction =
    GroupCreated | GroupUpdated | GroupDeleted | MemberAdded | MemberRemoved
  | ManagerAdded | ManagerRemoved | GroupAdopted | RelationChanged

record Change =
  c_id :: uuid
  c_group :: string
  c_at :: time
  c_actor :: string
  c_behalf :: string
  c_action :: ChangeAction
  c_member :: string
  c_relation :: string
  c_expires :: "time option"
  c_detail :: string

record TuplePair =
  p_group :: string
  p_relation :: string
  p_type :: string
  p_member :: string

text \<open>
  What \<open>errors.Is\<close> and \<open>errors.As\<close> tell about an error: the sentinel it wraps. Messages are
  dropped, except where the code looks into them (\<open>ErrText\<close>, an error with no sentinel).
\<close>

datatype error =
    ErrInvalidID
  | ErrRecordNotFound
  | ErrNotFound
  | ErrAlreadyExists
  | ErrOwnedBySource
  | ErrReserved
  | ErrForbidden
  | ErrCycle
  | ErrInvalidToken
  | ErrInvalidRelation
  | ErrInvalidExpiry
  | ErrReservationConflict
  | ImportError error
  | ErrText string

section \<open>Ids and tokens\<close>

definition NormalizeID :: "string \<Rightarrow> string" where
  "NormalizeID i = to_lower (trim_space i)"

definition ParseToken :: "string \<Rightarrow> string \<times> string" where
  "ParseToken token =
     (case cut_prefix token GroupPrefix of Some after \<Rightarrow> (''group'', after)
      | None \<Rightarrow> (case cut_prefix token UserPrefix of Some after \<Rightarrow> (''user'', after)
      | None \<Rightarrow> (case cut_prefix token PatternPrefix of Some after \<Rightarrow> (''pattern'', after)
      | None \<Rightarrow> ([], []))))"

definition BuildToken :: "string \<Rightarrow> string \<Rightarrow> string" where
  "BuildToken typ i = typ @ '':'' @ i"

definition SplitGroupRelation :: "string \<Rightarrow> string \<times> string" where
  "SplitGroupRelation i =
     (case cut RelationSeparator i of Some (g, rel) \<Rightarrow> (g, rel) | None \<Rightarrow> (i, RelationMember))"

definition JoinGroupRelation :: "string \<Rightarrow> string \<Rightarrow> string" where
  "JoinGroupRelation g relation =
     (if relation = [] \<or> relation = RelationMember then g
      else g @ RelationSeparator # relation)"

definition NormalizeRelation :: "string \<Rightarrow> string" where
  "NormalizeRelation relation = (if relation = [] then RelationMember else relation)"

definition MemberGroup :: "string \<Rightarrow> string \<times> string" where
  "MemberGroup i = (let (g, relation) = SplitGroupRelation i in (g, NormalizeRelation relation))"

definition GroupToken :: "string \<Rightarrow> string \<Rightarrow> string" where
  "GroupToken groupID relation = GroupPrefix @ JoinGroupRelation groupID relation"

section \<open>Normalisation\<close>

lemma NormalizeID_idem [simp]: "NormalizeID (NormalizeID i) = NormalizeID i"
  by (simp add: NormalizeID_def trim_space_to_lower)

lemma NormalizeRelation_simps [simp]:
  "NormalizeRelation [] = RelationMember"
  "r \<noteq> [] \<Longrightarrow> NormalizeRelation r = r"
  "NormalizeRelation (NormalizeRelation r) = NormalizeRelation r"
  "NormalizeRelation r \<noteq> []"
  by (simp_all add: NormalizeRelation_def)

section \<open>Splitting and joining\<close>

lemma JoinGroupRelation_normal [simp]: "JoinGroupRelation g (NormalizeRelation r) = JoinGroupRelation g r"
  by (simp add: JoinGroupRelation_def NormalizeRelation_def)

lemma Split_Join:
  assumes "RelationSeparator \<notin> set g"
  shows "SplitGroupRelation (JoinGroupRelation g r) = (g, NormalizeRelation r)"
proof (cases "r = [] \<or> r = RelationMember")
  case True
  then show ?thesis
    using assms by (auto simp: JoinGroupRelation_def SplitGroupRelation_def NormalizeRelation_def)
next
  case False
  then show ?thesis
    using assms by (simp add: JoinGroupRelation_def SplitGroupRelation_def)
qed

lemma MemberGroup_Join:
  "RelationSeparator \<notin> set g \<Longrightarrow> MemberGroup (JoinGroupRelation g r) = (g, NormalizeRelation r)"
  by (simp add: MemberGroup_def Split_Join)

lemma SplitGroupRelation_no_sep: "RelationSeparator \<notin> set (fst (SplitGroupRelation i))"
proof (cases "cut RelationSeparator i")
  case None
  then show ?thesis by (simp add: SplitGroupRelation_def cut_None_iff)
next
  case (Some ab)
  then show ?thesis by (cases ab) (auto simp: SplitGroupRelation_def dest: cut_SomeD)
qed

lemma MemberGroup_no_sep: "MemberGroup i = (g, r) \<Longrightarrow> RelationSeparator \<notin> set g"
  using SplitGroupRelation_no_sep [of i] by (simp add: MemberGroup_def split: prod.splits)

lemma MemberGroup_relation_ne: "MemberGroup i = (g, r) \<Longrightarrow> r \<noteq> []"
  by (auto simp: MemberGroup_def split: prod.splits)

text \<open>Entering a canonical member i and reading it back changes nothing.\<close>

lemma MemberGroup_canonical:
  "MemberGroup i = (g, r) \<Longrightarrow> MemberGroup (JoinGroupRelation g r) = (g, r)"
  by (frule MemberGroup_no_sep, frule MemberGroup_relation_ne) (simp add: MemberGroup_Join)

section \<open>Tokens\<close>

lemma GroupToken_inject:
  assumes "RelationSeparator \<notin> set g" "RelationSeparator \<notin> set g'"
  shows "GroupToken g r = GroupToken g' r' \<longleftrightarrow> g = g' \<and> NormalizeRelation r = NormalizeRelation r'"
proof
  assume "GroupToken g r = GroupToken g' r'"
  then have "JoinGroupRelation g r = JoinGroupRelation g' r'"
    by (simp add: GroupToken_def)
  then have "SplitGroupRelation (JoinGroupRelation g r) = SplitGroupRelation (JoinGroupRelation g' r')"
    by simp
  then show "g = g' \<and> NormalizeRelation r = NormalizeRelation r'"
    using assms by (simp add: Split_Join)
next
  assume "g = g' \<and> NormalizeRelation r = NormalizeRelation r'"
  then show "GroupToken g r = GroupToken g' r'"
    by (metis GroupToken_def JoinGroupRelation_normal)
qed

lemma GroupToken_member [simp]: "GroupToken g RelationMember = GroupPrefix @ g"
  by (simp add: GroupToken_def JoinGroupRelation_def)

lemma token_kinds_differ [simp]:
  "UserPrefix @ x \<noteq> GroupPrefix @ y" "GroupPrefix @ y \<noteq> UserPrefix @ x"
  "UserPrefix @ x \<noteq> PatternPrefix @ y" "PatternPrefix @ y \<noteq> UserPrefix @ x"
  "GroupPrefix @ x \<noteq> PatternPrefix @ y" "PatternPrefix @ y \<noteq> GroupPrefix @ x"
  by simp_all

lemma ParseToken_Build:
  "typ \<in> {''group'', ''user'', ''pattern''} \<Longrightarrow> ParseToken (BuildToken typ i) = (typ, i)"
  by (auto simp: ParseToken_def BuildToken_def cut_prefix_def)

lemma Build_ParseToken:
  assumes "ParseToken token = (typ, i)" "typ \<noteq> []"
  shows "typ \<in> {''group'', ''user'', ''pattern''} \<and> BuildToken typ i = token"
proof -
  have "has_prefix token p \<Longrightarrow> p @ drop (length p) token = token" for p
    by (auto simp: has_prefix_iff)
  from this [of GroupPrefix] this [of UserPrefix] this [of PatternPrefix] show ?thesis
    using assms by (auto simp: ParseToken_def BuildToken_def cut_prefix_def split: if_splits)
qed

end
