(* ===== verification/Regex.thy ===== *)
theory Regex
  imports Prelude
begin

text \<open>
  The part of Go's package \<open>regexp\<close> the service uses: classes of bytes, \<open>.\<close> (any character
  but a newline, since no expression sets the flag \<open>s\<close>), concatenation, alternatives, \<open>*\<close>, \<open>+\<close>, \<open>?\<close> and \<open>{0,n}\<close>, matched against the whole string (every expression
  of the service that is modelled here is anchored by \<open>^\<close> and \<open>$\<close>). The matcher takes
  derivatives; \<open>rx_match_iff\<close> says that it decides the language of the expression.
\<close>

datatype rx =
    Nothing
  | Empty
  | Class string
  | AnyChar
  | Seq rx rx
  | Alt rx rx
  | Star rx
  | UpTo nat rx

abbreviation Lit :: "char \<Rightarrow> rx" where "Lit c \<equiv> Class [c]"
abbreviation Opt :: "rx \<Rightarrow> rx" where "Opt r \<equiv> Alt Empty r"
abbreviation Plus :: "rx \<Rightarrow> rx" where "Plus r \<equiv> Seq r (Star r)"

text \<open>The language: which strings an expression matches.\<close>

definition conc :: "string set \<Rightarrow> string set \<Rightarrow> string set" where
  "conc A B = {u @ v | u v. u \<in> A \<and> v \<in> B}"

inductive_set star :: "string set \<Rightarrow> string set" for A where
  star_Nil [intro, simp]: "[] \<in> star A"
| star_step [intro]: "u \<in> A \<Longrightarrow> v \<in> star A \<Longrightarrow> u @ v \<in> star A"

fun upto_lang :: "nat \<Rightarrow> string set \<Rightarrow> string set" where
  "upto_lang 0 A = {[]}"
| "upto_lang (Suc n) A = {[]} \<union> conc A (upto_lang n A)"

fun lang :: "rx \<Rightarrow> string set" where
  "lang Nothing = {}"
| "lang Empty = {[]}"
| "lang (Class cs) = {[c] | c. c \<in> set cs}"
| "lang AnyChar = {[c] | c. c \<noteq> CHR 0x0A}"
| "lang (Seq r s) = conc (lang r) (lang s)"
| "lang (Alt r s) = lang r \<union> lang s"
| "lang (Star r) = star (lang r)"
| "lang (UpTo n r) = upto_lang n (lang r)"

text \<open>The matcher.\<close>

fun seq :: "rx \<Rightarrow> rx \<Rightarrow> rx" where
  "seq Nothing s = Nothing"
| "seq Empty s = s"
| "seq r s = Seq r s"

fun alt :: "rx \<Rightarrow> rx \<Rightarrow> rx" where
  "alt Nothing s = s"
| "alt r s = (if s = Nothing \<or> r = s then r else Alt r s)"

fun nullable :: "rx \<Rightarrow> bool" where
  "nullable Nothing = False"
| "nullable Empty = True"
| "nullable (Class cs) = False"
| "nullable AnyChar = False"
| "nullable (Seq r s) = (nullable r \<and> nullable s)"
| "nullable (Alt r s) = (nullable r \<or> nullable s)"
| "nullable (Star r) = True"
| "nullable (UpTo n r) = True"

fun deriv :: "char \<Rightarrow> rx \<Rightarrow> rx" where
  "deriv c Nothing = Nothing"
| "deriv c Empty = Nothing"
| "deriv c (Class cs) = (if c \<in> set cs then Empty else Nothing)"
| "deriv c AnyChar = (if c = CHR 0x0A then Nothing else Empty)"
| "deriv c (Seq r s) =
     (if nullable r then alt (seq (deriv c r) s) (deriv c s) else seq (deriv c r) s)"
| "deriv c (Alt r s) = alt (deriv c r) (deriv c s)"
| "deriv c (Star r) = seq (deriv c r) (Star r)"
| "deriv c (UpTo n r) = (if n = 0 then Nothing else seq (deriv c r) (UpTo (n - 1) r))"

fun rx_match :: "rx \<Rightarrow> string \<Rightarrow> bool" where
  "rx_match r [] = nullable r"
| "rx_match r (c # s) = rx_match (deriv c r) s"

section \<open>The matcher decides the language\<close>

lemma conc_simps [simp]: "conc {} B = {}" "conc {[]} B = B" "[] \<in> conc A B \<longleftrightarrow> [] \<in> A \<and> [] \<in> B"
  by (auto simp: conc_def)

lemma conc_memI: "u \<in> A \<Longrightarrow> v \<in> B \<Longrightarrow> u @ v \<in> conc A B"
  by (auto simp: conc_def)

lemma conc_memE: "w \<in> conc A B \<Longrightarrow> (\<And>u v. w = u @ v \<Longrightarrow> u \<in> A \<Longrightarrow> v \<in> B \<Longrightarrow> P) \<Longrightarrow> P"
  by (auto simp: conc_def)

lemma conc_mono: "B \<subseteq> C \<Longrightarrow> conc A B \<subseteq> conc A C"
  unfolding conc_def by blast

lemma Cons_in_conc: "c # w \<in> conc A B \<longleftrightarrow>
    (\<exists>u v. w = u @ v \<and> c # u \<in> A \<and> v \<in> B) \<or> ([] \<in> A \<and> c # w \<in> B)" (is "_ \<longleftrightarrow> ?R")
proof
  assume "c # w \<in> conc A B"
  then obtain u v where uv: "c # w = u @ v" "u \<in> A" "v \<in> B" by (rule conc_memE)
  then show ?R by (cases u) auto
next
  assume ?R
  then show "c # w \<in> conc A B"
  proof (elim disjE exE conjE)
    fix u v assume "w = u @ v" "c # u \<in> A" "v \<in> B"
    then show ?thesis using conc_memI [of "c # u" A v B] by simp
  next
    assume "[] \<in> A" "c # w \<in> B"
    then show ?thesis using conc_memI [of "[]" A "c # w" B] by simp
  qed
qed

lemma lang_seq [simp]: "lang (seq r s) = conc (lang r) (lang s)"
  by (cases r) simp_all

lemma lang_alt [simp]: "lang (alt r s) = lang r \<union> lang s"
  by (cases r) auto

lemma nullable_iff: "nullable r \<longleftrightarrow> [] \<in> lang r"
proof (induction r)
  case (UpTo n r)
  then show ?case by (cases n) auto
qed auto

lemma star_ConsD: "w \<in> star A \<Longrightarrow> w = c # x \<Longrightarrow> \<exists>u v. x = u @ v \<and> c # u \<in> A \<and> v \<in> star A"
proof (induction arbitrary: x rule: star.induct)
  case (star_step u v)
  then show ?case by (cases u) auto
qed simp

lemma Cons_in_star: "c # x \<in> star A \<longleftrightarrow> (\<exists>u v. x = u @ v \<and> c # u \<in> A \<and> v \<in> star A)"
proof
  assume "\<exists>u v. x = u @ v \<and> c # u \<in> A \<and> v \<in> star A"
  then obtain u v where "x = u @ v" "c # u \<in> A" "v \<in> star A" by blast
  then have "(c # u) @ v \<in> star A" by (intro star_step)
  with \<open>x = u @ v\<close> show "c # x \<in> star A" by simp
qed (auto dest: star_ConsD)

lemma upto_mono: "upto_lang n A \<subseteq> upto_lang (Suc n) A"
proof (induction n)
  case (Suc n)
  then have "conc A (upto_lang n A) \<subseteq> conc A (upto_lang (Suc n) A)" by (rule conc_mono)
  then show ?case unfolding upto_lang.simps(2) [of "Suc n"] upto_lang.simps(2) [of n] by blast
qed simp

lemma Cons_in_upto: "c # x \<in> upto_lang n A \<longleftrightarrow>
    n \<noteq> 0 \<and> (\<exists>u v. x = u @ v \<and> c # u \<in> A \<and> v \<in> upto_lang (n - 1) A)"
proof (induction n)
  case (Suc n)
  have "c # x \<in> upto_lang n A \<Longrightarrow> \<exists>u v. x = u @ v \<and> c # u \<in> A \<and> v \<in> upto_lang n A"
    using Suc upto_mono [of "n - 1" A] by (cases n) auto
  then show ?case by (auto simp: Cons_in_conc)
qed simp

lemma lang_deriv: "x \<in> lang (deriv c r) \<longleftrightarrow> c # x \<in> lang r"
proof (induction r arbitrary: x)
  case (Seq r s)
  have "x \<in> conc (lang (deriv c r)) (lang s) \<longleftrightarrow>
      (\<exists>u v. x = u @ v \<and> c # u \<in> lang r \<and> v \<in> lang s)"
    by (auto simp: conc_def Seq.IH)
  then show ?case by (auto simp: Cons_in_conc nullable_iff Seq.IH)
next
  case (Star r)
  then show ?case by (auto simp: Cons_in_star conc_def)
next
  case (UpTo n r)
  then show ?case by (auto simp: Cons_in_upto conc_def)
qed auto

lemma rx_match_iff: "rx_match r s \<longleftrightarrow> s \<in> lang r"
  by (induction s arbitrary: r) (auto simp: nullable_iff lang_deriv)

declare rx_match.simps(2) [simp del]

section \<open>Languages of the shapes the service uses\<close>

lemma star_Class: "s \<in> star (lang (Class cs)) \<longleftrightarrow> set s \<subseteq> set cs"
  by (induction s) (auto simp: Cons_in_star)

lemma upto_Class: "s \<in> upto_lang n (lang (Class cs)) \<longleftrightarrow> set s \<subseteq> set cs \<and> length s \<le> n"
proof (induction s arbitrary: n)
  case Nil
  then show ?case by (cases n) auto
next
  case (Cons c s)
  then show ?case by (auto simp: Cons_in_upto)
qed

lemma star_AnyChar: "s \<in> star (lang AnyChar) \<longleftrightarrow> CHR 0x0A \<notin> set s"
  by (induction s) (auto simp: Cons_in_star)

lemma Class_conc: "s \<in> conc (lang (Class cs)) B \<longleftrightarrow> s \<noteq> [] \<and> hd s \<in> set cs \<and> tl s \<in> B"
  by (cases s) (auto simp: Cons_in_conc)

lemma conc_Class: "s \<in> conc A (lang (Class cs)) \<longleftrightarrow> s \<noteq> [] \<and> last s \<in> set cs \<and> butlast s \<in> A"
  by (cases s rule: rev_cases) (auto simp: conc_def)

lemma head_upto_match: "rx_match (Seq (Class as) (UpTo n (Class bs))) s \<longleftrightarrow>
    s \<noteq> [] \<and> hd s \<in> set as \<and> set (tl s) \<subseteq> set bs \<and> length s \<le> Suc n"
  unfolding rx_match_iff lang.simps(5,8) upto_Class Class_conc by auto

lemma head_star_match: "rx_match (Seq (Class as) (Star (Class bs))) s \<longleftrightarrow>
    s \<noteq> [] \<and> hd s \<in> set as \<and> set (tl s) \<subseteq> set bs"
  unfolding rx_match_iff lang.simps(5,7) star_Class Class_conc by auto

text \<open>\<open>p(c p)*\<close> where \<open>p\<close> never matches a string with \<open>c\<close>: every piece between the \<open>c\<close> matches.\<close>

lemma star_sep_step:
  assumes "\<And>u. u \<in> P \<Longrightarrow> c \<notin> set u"
  shows "s \<in> conc P (star (conc {[c]} P)) \<longleftrightarrow> list_all (\<lambda>u. u \<in> P) (split_on c s)"
  using assms
proof (induction c s rule: split_on.induct)
  case (1 c s)
  show ?case
  proof (cases "cut c s")
    case None
    then have no: "c \<notin> set s" by (simp add: cut_None_iff)
    have "v = []" if "s = u @ v" "v \<in> star (conc {[c]} P)" for u v
      using that no by (cases v) (auto simp: Cons_in_star Cons_in_conc)
    then have "s \<in> conc P (star (conc {[c]} P)) \<longleftrightarrow> s \<in> P"
      by (metis append_Nil2 conc_memE conc_memI star_Nil)
    with None show ?thesis by (subst split_on.simps) simp
  next
    case (Some ab)
    then obtain a b where ab: "cut c s = Some (a, b)" by (cases ab) auto
    then have s: "s = a @ c # b" "c \<notin> set a" by (auto dest: cut_SomeD)
    have "s \<in> conc P (star (conc {[c]} P)) \<longleftrightarrow> a \<in> P \<and> b \<in> conc P (star (conc {[c]} P))"
    proof
      assume "s \<in> conc P (star (conc {[c]} P))"
      then obtain u v where uv: "s = u @ v" "u \<in> P" "v \<in> star (conc {[c]} P)" by (rule conc_memE)
      from "1.prems" [OF uv(2)] have cu: "c \<notin> set u" .
      with s uv have "v \<noteq> []" by auto
      then obtain v' where v': "v = c # v'"
        using uv(3) by (cases v) (auto simp: Cons_in_star Cons_in_conc)
      have "cut c s = Some (u, v')" using uv(1) v' cu by simp
      with ab have "u = a" "v' = b" by simp_all
      moreover have "v' \<in> conc P (star (conc {[c]} P))"
        using uv(3) v' by (auto simp: Cons_in_star Cons_in_conc intro: conc_memI)
      ultimately show "a \<in> P \<and> b \<in> conc P (star (conc {[c]} P))" using uv by simp
    next
      assume h: "a \<in> P \<and> b \<in> conc P (star (conc {[c]} P))"
      then obtain u v where uv: "b = u @ v" "u \<in> P" "v \<in> star (conc {[c]} P)" by (auto elim: conc_memE)
      then have "c # b \<in> star (conc {[c]} P)" by (auto simp: Cons_in_star Cons_in_conc)
      with h s show "s \<in> conc P (star (conc {[c]} P))" by (auto intro: conc_memI)
    qed
    with "1.IH" [OF ab refl "1.prems"] ab show ?thesis by (subst split_on.simps) simp
  qed
qed

lemma sep_match:
  assumes "\<And>u. u \<in> lang r \<Longrightarrow> c \<notin> set u"
  shows "rx_match (Seq r (Star (Seq (Lit c) r))) s \<longleftrightarrow> list_all (rx_match r) (split_on c s)"
  using star_sep_step [OF assms] by (simp add: rx_match_iff list_all_iff)

end
