(* ===== verification/Glob.thy ===== *)
theory Glob
  imports Tokens Regex
begin

text \<open>
  \<open>internal/common/pattern.go\<close>: globs in pattern members and in the names a source reserves.
  \<open>MatchGlob\<close> builds a regular expression as the code does and matches it; \<open>glob_matches\<close> is
  what a glob promises, and \<open>MatchGlob_iff\<close> says the two agree. Note what Go's \<open>.\<close> adds: the
  run of characters a \<open>*\<close> stands for holds no newline.
\<close>

definition glob_item :: "char \<Rightarrow> rx" where
  "glob_item c = (if c = CHR ''*'' then Star AnyChar else Lit c)"

definition glob_rx :: "string \<Rightarrow> rx" where
  "glob_rx p = foldr (\<lambda>c r. Seq (glob_item c) r) p Empty"

definition MatchGlob :: "string \<Rightarrow> string \<Rightarrow> bool" where
  "MatchGlob pattern s =
     (let p = to_lower (trim_space pattern); e = to_lower (trim_space s)
      in if p = [] \<or> e = [] then False else rx_match (glob_rx p) e)"

definition MatchEmailPattern :: "string \<Rightarrow> string \<Rightarrow> bool" where
  "MatchEmailPattern pattern email = MatchGlob pattern email"

section \<open>What a glob promises\<close>

inductive glob_matches :: "string \<Rightarrow> string \<Rightarrow> bool" where
  glob_end: "glob_matches [] []"
| glob_lit: "c \<noteq> CHR ''*'' \<Longrightarrow> glob_matches p s \<Longrightarrow> glob_matches (c # p) (c # s)"
| glob_run: "CHR 0x0A \<notin> set r \<Longrightarrow> glob_matches p s \<Longrightarrow> glob_matches (CHR ''*'' # p) (r @ s)"

inductive_simps glob_matches_Nil: "glob_matches [] s"
inductive_simps glob_matches_Cons: "glob_matches (c # p) s"

lemma glob_rx_lang: "s \<in> lang (glob_rx p) \<longleftrightarrow> glob_matches p s"
proof (induction p arbitrary: s)
  case Nil
  then show ?case by (simp add: glob_rx_def glob_matches_Nil)
next
  case (Cons c p)
  have IH: "s \<in> lang (foldr (\<lambda>c r. Seq (glob_item c) r) p Empty) \<longleftrightarrow> glob_matches p s" for s
    using Cons by (simp add: glob_rx_def)
  show ?case
  proof (cases "c = CHR ''*''")
    case True
    have "s \<in> lang (glob_rx (c # p)) \<longleftrightarrow>
        s \<in> conc (star (lang AnyChar)) (lang (foldr (\<lambda>c r. Seq (glob_item c) r) p Empty))"
      by (simp add: glob_rx_def glob_item_def True)
    also have "\<dots> \<longleftrightarrow> (\<exists>u v. s = u @ v \<and> CHR 0x0A \<notin> set u \<and> glob_matches p v)"
      unfolding conc_def star_AnyChar IH by auto
    finally show ?thesis by (auto simp: True glob_matches_Cons)
  next
    case False
    have "s \<in> lang (glob_rx (c # p)) \<longleftrightarrow>
        s \<in> conc (lang (Class [c])) (lang (foldr (\<lambda>c r. Seq (glob_item c) r) p Empty))"
      by (simp add: glob_rx_def glob_item_def False)
    also have "\<dots> \<longleftrightarrow> s \<noteq> [] \<and> hd s = c \<and> glob_matches p (tl s)"
      unfolding Class_conc IH by simp
    finally show ?thesis using False by (cases s) (auto simp: glob_matches_Cons)
  qed
qed

lemma MatchGlob_iff: "MatchGlob pattern s \<longleftrightarrow>
    NormalizeID pattern \<noteq> [] \<and> NormalizeID s \<noteq> [] \<and> glob_matches (NormalizeID pattern) (NormalizeID s)"
  by (simp add: MatchGlob_def Let_def NormalizeID_def rx_match_iff glob_rx_lang)

text \<open>Case and surrounding white space make no difference on either side.\<close>

lemma MatchGlob_normal: "MatchGlob (NormalizeID p) (NormalizeID s) = MatchGlob p s"
  by (simp add: MatchGlob_iff)

lemma glob_literal: "CHR ''*'' \<notin> set p \<Longrightarrow> glob_matches p s \<longleftrightarrow> s = p"
  by (induction p arbitrary: s) (auto simp: glob_matches_Nil glob_matches_Cons)

text \<open>A pattern without \<open>*\<close> names exactly one id, however it is spelled.\<close>

lemma MatchGlob_literal:
  "CHR ''*'' \<notin> set (NormalizeID p) \<Longrightarrow>
   MatchGlob p s \<longleftrightarrow> NormalizeID p = NormalizeID s \<and> NormalizeID p \<noteq> []"
  by (auto simp: MatchGlob_iff glob_literal)

text \<open>\<open>*\<close> followed by a literal: exactly the strings that end in it, with no newline before.\<close>

lemma MatchGlob_suffix:
  assumes "NormalizeID p = CHR ''*'' # suf" "CHR ''*'' \<notin> set suf"
  shows "MatchGlob p s \<longleftrightarrow>
    NormalizeID s \<noteq> [] \<and> (\<exists>run. NormalizeID s = run @ suf \<and> CHR 0x0A \<notin> set run)"
  using assms by (auto simp: MatchGlob_iff glob_matches_Cons glob_literal)

end
