(* ===== verification/Relations.thy ===== *)
theory Relations
  imports Tokens Regex "HOL-Library.Sublist"
begin

text \<open>
  \<open>internal/common/relations.go\<close>: the relations a group can carry. The lemmas: a set of
  relations built from the configuration always holds \<open>member\<close>, every name in it is token-safe,
  \<open>Check\<close> accepts exactly the names in the set (normalised) and \<open>List\<close> lists the set once each.
\<close>

definition lower_letters :: string where "lower_letters = ''abcdefghijklmnopqrstuvwxyz''"
definition lower_alnum :: string where "lower_alnum = lower_letters @ ''0123456789''"

lemmas char_class_defs = lower_letters_def lower_alnum_def

lemma lower_letters_alnum: "c \<in> set lower_letters \<Longrightarrow> c \<in> set lower_alnum"
  by (simp add: lower_alnum_def)

definition relationName :: rx where
  "relationName = Seq (Class lower_letters) (Star (Class (lower_alnum @ ''_-'')))"

record Relations =
  allowed :: "string list"

fun NewRelations_loop :: "Relations \<Rightarrow> string list \<Rightarrow> error + Relations" where
  "NewRelations_loop r [] = Inr r"
| "NewRelations_loop r (n # ns) =
     (let n = trim_space n in
      if n = [] then NewRelations_loop r ns
      else if \<not> rx_match relationName n then Inl (ErrText ''invalid relation name'')
      else NewRelations_loop (r\<lparr>allowed := List.insert n (allowed r)\<rparr>) ns)"

definition NewRelations :: "string list \<Rightarrow> error + Relations" where
  "NewRelations names = NewRelations_loop \<lparr>allowed = [RelationMember]\<rparr> names"

definition Check :: "Relations \<Rightarrow> string \<Rightarrow> error + string" where
  "Check r relation =
     (let relation = NormalizeRelation (trim_space relation) in
      if relation \<notin> set (allowed r) then Inl (ErrText ''unknown relation'') else Inr relation)"

definition ListRelations :: "Relations \<Rightarrow> string list" where
  "ListRelations r = RelationMember # sort (filter (\<lambda>n. n \<noteq> RelationMember) (allowed r))"

section \<open>Relation names\<close>

lemma relationName_match: "rx_match relationName n \<longleftrightarrow>
    n \<noteq> [] \<and> hd n \<in> set lower_letters \<and> set (tl n) \<subseteq> set (lower_alnum @ ''_-'')"
  unfolding relationName_def by (rule head_star_match)

lemma lower_alnum_fixed: "c \<in> set lower_alnum \<Longrightarrow> lower_char c = c"
  unfolding lower_char_def by (auto simp: char_class_defs)

definition relations_ok :: "Relations \<Rightarrow> bool" where
  "relations_ok r \<longleftrightarrow> RelationMember \<in> set (allowed r) \<and> distinct (allowed r)
     \<and> (\<forall>n \<in> set (allowed r). rx_match relationName n)"

lemma member_is_relationName [simp]: "rx_match relationName RelationMember"
  unfolding relationName_match by (simp add: char_class_defs)

lemma NewRelations_loop_ok:
  "relations_ok r \<Longrightarrow> NewRelations_loop r ns = Inr r' \<Longrightarrow>
   relations_ok r' \<and> set (allowed r') = set (allowed r) \<union> (set (map trim_space ns) - {[]})"
proof (induction r ns rule: NewRelations_loop.induct)
  case (2 r n ns)
  show ?case
  proof (cases "trim_space n = []")
    case True
    with 2 show ?thesis by auto
  next
    case False
    with "2.prems" have m: "rx_match relationName (trim_space n)" by (auto simp: Let_def split: if_splits)
    then have ok: "relations_ok (r\<lparr>allowed := List.insert (trim_space n) (allowed r)\<rparr>)"
      using "2.prems" by (auto simp: relations_ok_def)
    with False m "2.prems" "2.IH"(2) [OF refl False] show ?thesis by auto
  qed
qed simp

lemma NewRelations_ok:
  "NewRelations names = Inr r \<Longrightarrow>
   relations_ok r \<and> set (allowed r) = insert RelationMember (set (map trim_space names) - {[]})"
  unfolding NewRelations_def
  by (drule NewRelations_loop_ok [rotated]) (auto simp: relations_ok_def)

lemma Check_Inr: "Check r relation = Inr rel \<longleftrightarrow>
    rel = NormalizeRelation (trim_space relation) \<and> rel \<in> set (allowed r)"
  by (auto simp: Check_def Let_def)

lemma Check_member [simp]: "relations_ok r \<Longrightarrow> Check r [] = Inr RelationMember"
  by (simp add: Check_Inr relations_ok_def trim_space_def trim_both_def)

lemma ListRelations_props:
  assumes "relations_ok r"
  shows "hd (ListRelations r) = RelationMember" "distinct (ListRelations r)"
    "set (ListRelations r) = set (allowed r)" "sorted (tl (ListRelations r))"
  using assms by (auto simp: ListRelations_def relations_ok_def)

text \<open>A relation that passed \<open>Check\<close> never contains a separator of tokens or lists.\<close>

lemma relationName_chars:
  assumes "rx_match relationName n"
  shows "set n \<subseteq> set (lower_alnum @ ''_-'')"
proof -
  from assms have n: "n = hd n # tl n" "hd n \<in> set lower_letters" "set (tl n) \<subseteq> set (lower_alnum @ ''_-'')"
    unfolding relationName_match by auto
  have "set (hd n # tl n) \<subseteq> set (lower_alnum @ ''_-'')"
    using n(2,3) lower_letters_alnum by (simp add: subset_iff)
  with n(1) show ?thesis by simp
qed

lemma relationName_safe:
  assumes "rx_match relationName n"
  shows "RelationSeparator \<notin> set n" "CHR '':'' \<notin> set n" "CHR '','' \<notin> set n" "n \<noteq> []"
proof -
  have "x \<notin> set n" if "x \<notin> set (lower_alnum @ ''_-'')" for x
    using relationName_chars [OF assms] that by blast
  from this [of RelationSeparator] this [of "CHR '':''"] this [of "CHR '',''"]
  show "RelationSeparator \<notin> set n" "CHR '':'' \<notin> set n" "CHR '','' \<notin> set n"
    by (simp_all add: char_class_defs)
  show "n \<noteq> []" using assms unfolding relationName_match by blast
qed

end
