(* ===== verification/Validate.thy ===== *)
theory Validate
  imports Glob Relations
begin

text \<open>
  \<open>internal/common/validate.go\<close>: the one shape the service accepts for each kind of id. The
  expressions are transcribed as terms of \<open>rx\<close>; the lemmas read them back as plain conditions
  on the string and show what they protect: an accepted id is in the stored spelling
  already (\<open>NormalizeID\<close> leaves it alone) and holds no separator of a token or a list.
\<close>

section \<open>Expressions\<close>

definition groupIDRe :: rx where
  "groupIDRe = Seq (Class lower_alnum) (UpTo 127 (Class (lower_alnum @ ''._-'')))"

definition reservedNameRe :: rx where
  "reservedNameRe = Seq (Class (lower_alnum @ ''*'')) (UpTo 127 (Class (lower_alnum @ ''._*-'')))"

definition labelExpr :: rx where
  "labelExpr = Seq (Class lower_alnum) (Opt (Seq (UpTo 61 (Class (lower_alnum @ ''-''))) (Class lower_alnum)))"

definition domainExpr :: rx where
  "domainExpr = Seq labelExpr (Star (Seq (Lit CHR ''.'') labelExpr))"

abbreviation domainRe :: rx where "domainRe \<equiv> domainExpr"

definition atom_chars :: string where
  "atom_chars = lower_alnum @ ''!#$%&*+/=?^_`{|}~-'' @ [CHR 0x27]"

definition localExpr :: rx where
  "localExpr = Seq (Plus (Class atom_chars)) (Star (Seq (Lit CHR ''.'') (Plus (Class atom_chars))))"

definition emailRe :: rx where
  "emailRe = Seq localExpr (Seq (Lit CHR ''@'') domainExpr)"

definition maxEmailLength :: nat where "maxEmailLength = 254"

section \<open>Validators\<close>

definition ValidateGroupID :: "string \<Rightarrow> error + unit" where
  "ValidateGroupID i = (if \<not> rx_match groupIDRe i then Inl ErrInvalidID else Inr ())"

definition ValidateReservedName :: "string \<Rightarrow> error + unit" where
  "ValidateReservedName glob =
     (if \<not> rx_match reservedNameRe glob \<or> trim_both (\<lambda>c. c \<in> set ''*.-_'') glob = []
      then Inl ErrInvalidID else Inr ())"

definition ValidateEmail :: "string \<Rightarrow> error + unit" where
  "ValidateEmail email =
     (if length email > maxEmailLength \<or> \<not> rx_match emailRe email then Inl ErrInvalidID else Inr ())"

definition ValidatePattern :: "string \<Rightarrow> error + unit" where
  "ValidatePattern pattern =
     (case cut_prefix pattern ''*@'' of
        Some domain \<Rightarrow> if rx_match domainRe domain then Inr () else Inl ErrInvalidID
      | None \<Rightarrow> if CHR ''*'' \<notin> set pattern \<and> ValidateEmail pattern = Inr () then Inr ()
                else Inl ErrInvalidID)"

definition ValidateMember :: "string \<Rightarrow> string \<Rightarrow> error + unit" where
  "ValidateMember memberType i =
     (if memberType = ''user'' then ValidateEmail i
      else if memberType = ''group'' then
        (let (g, rel) = (case cut RelationSeparator i of Some (g, r) \<Rightarrow> (g, Some r) | None \<Rightarrow> (i, None))
         in bindE (ValidateGroupID g) (\<lambda>_.
              case rel of Some r \<Rightarrow> if \<not> rx_match relationName r then Inl ErrInvalidID else Inr ()
              | None \<Rightarrow> Inr ()))
      else if memberType = ''pattern'' then ValidatePattern i
      else Inl ErrInvalidID)"

definition ValidateTuple :: "TuplePair \<Rightarrow> error + unit" where
  "ValidateTuple t = bindE (ValidateGroupID (p_group t)) (\<lambda>_. ValidateMember (p_type t) (p_member t))"

section \<open>The expressions as plain conditions\<close>

lemma ValidateGroupID_iff: "ValidateGroupID i = Inr () \<longleftrightarrow>
    i \<noteq> [] \<and> hd i \<in> set lower_alnum \<and> set (tl i) \<subseteq> set (lower_alnum @ ''._-'') \<and> length i \<le> 128"
proof -
  have "Suc 127 = 128" by simp
  then show ?thesis
    unfolding ValidateGroupID_def groupIDRe_def head_upto_match by auto
qed

definition label_ok :: "string \<Rightarrow> bool" where
  "label_ok l \<longleftrightarrow> l \<noteq> [] \<and> hd l \<in> set lower_alnum \<and> last l \<in> set lower_alnum
     \<and> set l \<subseteq> set (lower_alnum @ ''-'') \<and> length l \<le> 63"

lemma label_match: "rx_match labelExpr l \<longleftrightarrow> label_ok l"
proof (cases l)
  case Nil
  then show ?thesis by (simp add: labelExpr_def label_ok_def)
next
  case (Cons a t)
  have "rx_match labelExpr l \<longleftrightarrow> a \<in> set lower_alnum \<and>
      (t = [] \<or> t \<noteq> [] \<and> last t \<in> set lower_alnum \<and> butlast t \<in> upto_lang 61 (lang (Class (lower_alnum @ ''-''))))"
    unfolding rx_match_iff labelExpr_def lang.simps(2,5,6,8) Un_iff Class_conc conc_Class Cons by simp
  also have "\<dots> \<longleftrightarrow> label_ok l"
  proof (cases t rule: rev_cases)
    case Nil
    then show ?thesis using Cons by (auto simp: label_ok_def)
  next
    case (snoc u b)
    then show ?thesis using Cons unfolding upto_Class label_ok_def by auto
  qed
  finally show ?thesis .
qed

lemma domain_match: "rx_match domainExpr d \<longleftrightarrow> list_all label_ok (split_on CHR ''.'' d)"
proof -
  have "CHR ''.'' \<notin> set u" if "u \<in> lang labelExpr" for u
  proof -
    have "CHR ''.'' \<notin> set (lower_alnum @ ''-'')" by (simp add: char_class_defs)
    then show ?thesis using that label_match [of u] unfolding rx_match_iff label_ok_def by blast
  qed
  then have "rx_match domainExpr d \<longleftrightarrow> list_all (rx_match labelExpr) (split_on CHR ''.'' d)"
    unfolding domainExpr_def by (rule sep_match)
  then show ?thesis unfolding label_match [abs_def] .
qed

definition atom_ok :: "string \<Rightarrow> bool" where
  "atom_ok a \<longleftrightarrow> a \<noteq> [] \<and> set a \<subseteq> set atom_chars"

lemma atom_match: "rx_match (Plus (Class atom_chars)) a \<longleftrightarrow> atom_ok a"
  unfolding head_star_match atom_ok_def by (cases a) auto

lemma local_match: "rx_match localExpr a \<longleftrightarrow> list_all atom_ok (split_on CHR ''.'' a)"
proof -
  have "CHR ''.'' \<notin> set u" if "u \<in> lang (Plus (Class atom_chars))" for u
  proof -
    have "CHR ''.'' \<notin> set atom_chars" by (simp add: atom_chars_def char_class_defs)
    then show ?thesis using that atom_match [of u] unfolding rx_match_iff atom_ok_def by blast
  qed
  then have "rx_match localExpr a \<longleftrightarrow> list_all (rx_match (Plus (Class atom_chars))) (split_on CHR ''.'' a)"
    unfolding localExpr_def by (rule sep_match)
  then show ?thesis unfolding atom_match [abs_def] .
qed

lemma local_no_at: "rx_match localExpr a \<Longrightarrow> CHR ''@'' \<notin> set a"
proof (induction "CHR ''.''" a rule: split_on.induct)
  case (1 a)
  have at: "CHR ''@'' \<notin> set atom_chars" by (simp add: atom_chars_def char_class_defs)
  show ?case
  proof (cases "cut CHR ''.'' a")
    case None
    then have "atom_ok a" using 1(2) by (simp add: local_match cut_None_iff split_on_no_sep)
    with at show ?thesis by (auto simp: atom_ok_def)
  next
    case (Some uv)
    then obtain u v where uv: "cut CHR ''.'' a = Some (u, v)" by (cases uv) auto
    then have a: "a = u @ CHR ''.'' # v" "CHR ''.'' \<notin> set u" by (auto dest: cut_SomeD)
    then have "atom_ok u" "rx_match localExpr v" using 1(2) by (simp_all add: local_match split_on_append)
    with 1(1) [OF uv refl] at a show ?thesis by (auto simp: atom_ok_def)
  qed
qed

text \<open>An address is a local part and a domain around its only \<open>@\<close>.\<close>

lemma email_match: "rx_match emailRe s \<longleftrightarrow>
    (case cut CHR ''@'' s of None \<Rightarrow> False
     | Some (a, d) \<Rightarrow> list_all atom_ok (split_on CHR ''.'' a) \<and> list_all label_ok (split_on CHR ''.'' d))"
proof -
  have "rx_match emailRe s \<longleftrightarrow> (\<exists>a d. s = a @ CHR ''@'' # d \<and> rx_match localExpr a \<and> rx_match domainExpr d)"
  proof -
    have "s \<in> conc A (conc (lang (Lit CHR ''@'')) B) \<longleftrightarrow> (\<exists>a d. s = a @ CHR ''@'' # d \<and> a \<in> A \<and> d \<in> B)" for A B
      by (force simp: conc_def)
    then show ?thesis unfolding rx_match_iff emailRe_def lang.simps(5) .
  qed
  also have "\<dots> \<longleftrightarrow> (\<exists>a d. cut CHR ''@'' s = Some (a, d) \<and> rx_match localExpr a \<and> rx_match domainExpr d)"
    by (metis cut_SomeD cut_append local_no_at)
  finally show ?thesis by (simp add: local_match domain_match split: option.split)
qed

section \<open>What validation protects\<close>

text \<open>The bytes an accepted id can hold at all.\<close>

definition id_chars :: string where
  "id_chars = atom_chars @ ''.@''"

lemma id_chars_plain: "list_all (\<lambda>c. lower_char c = c \<and> \<not> is_space c \<and> c \<noteq> CHR '','' \<and> c \<noteq> CHR '':'') id_chars"
  unfolding id_chars_def atom_chars_def char_class_defs lower_char_def is_space_def by simp

definition stored_spelling :: "string \<Rightarrow> bool" where
  "stored_spelling i \<longleftrightarrow> NormalizeID i = i \<and> i \<noteq> [] \<and> CHR '','' \<notin> set i \<and> CHR '':'' \<notin> set i \<and> (\<forall>c \<in> set i. \<not> is_space c)"

lemma stored_spellingI: "set i \<subseteq> set id_chars \<Longrightarrow> i \<noteq> [] \<Longrightarrow> stored_spelling i"
proof -
  assume sub: "set i \<subseteq> set id_chars" and ne: "i \<noteq> []"
  then have c: "lower_char c = c \<and> \<not> is_space c \<and> c \<noteq> CHR '','' \<and> c \<noteq> CHR '':''" if "c \<in> set i" for c
    using id_chars_plain that by (auto simp: list_all_iff)
  then have "trim_space i = i" by (intro trim_space_id) blast
  moreover have "to_lower i = i" using c by (simp add: to_lower_def map_idI)
  ultimately show ?thesis using c ne by (auto simp: stored_spelling_def NormalizeID_def)
qed

lemma alnum_id_chars: "set lower_alnum \<subseteq> set id_chars"
  by (auto simp: id_chars_def atom_chars_def)

lemma ValidateGroupID_chars:
  assumes "ValidateGroupID i = Inr ()"
  shows "set i \<subseteq> set (lower_alnum @ ''._-'') \<and> i \<noteq> []"
proof (cases i)
  case (Cons c t)
  with assms have "c \<in> set lower_alnum" "set t \<subseteq> set (lower_alnum @ ''._-'')"
    unfolding ValidateGroupID_iff by simp_all
  then have "set (c # t) \<subseteq> set (lower_alnum @ ''._-'')" by (simp add: subset_iff)
  with Cons show ?thesis by simp
qed (use assms in \<open>simp add: ValidateGroupID_iff\<close>)

lemma ValidateGroupID_stored: "ValidateGroupID i = Inr () \<Longrightarrow> stored_spelling i \<and> RelationSeparator \<notin> set i"
proof -
  assume "ValidateGroupID i = Inr ()"
  then have i: "set i \<subseteq> set (lower_alnum @ ''._-'')" "i \<noteq> []" using ValidateGroupID_chars by blast+
  moreover have "set (lower_alnum @ ''._-'') \<subseteq> set id_chars"
    using alnum_id_chars by (auto simp: id_chars_def atom_chars_def)
  moreover have "RelationSeparator \<notin> set (lower_alnum @ ''._-'')" by (simp add: char_class_defs)
  ultimately show ?thesis by (blast intro: stored_spellingI)
qed

lemma label_chars: "label_ok l \<Longrightarrow> set l \<subseteq> set id_chars"
proof -
  assume "label_ok l"
  moreover have "set (lower_alnum @ ''-'') \<subseteq> set id_chars"
    using alnum_id_chars by (auto simp: id_chars_def atom_chars_def)
  ultimately show ?thesis by (auto simp: label_ok_def)
qed

lemma set_split_on: "set s \<subseteq> insert c (\<Union> (set ` set (split_on c s)))"
proof (induction c s rule: split_on.induct)
  case (1 c s)
  show ?case
  proof (cases "cut c s")
    case (Some ab)
    then obtain a b where ab: "cut c s = Some (a, b)" by (cases ab) auto
    then have "s = a @ c # b" "c \<notin> set a" by (auto dest: cut_SomeD)
    with 1 [OF ab refl] show ?thesis by (auto simp: split_on_append)
  qed (auto simp: cut_None_iff split_on_no_sep)
qed

lemma pieces_chars:
  assumes "list_all P (split_on CHR ''.'' s)" "\<And>x. P x \<Longrightarrow> set x \<subseteq> set id_chars"
  shows "set s \<subseteq> set id_chars"
proof -
  have "CHR ''.'' \<in> set id_chars" by (simp add: id_chars_def)
  then show ?thesis using set_split_on [of s "CHR ''.''"] assms by (fastforce simp: list_all_iff)
qed

lemma domain_chars: "rx_match domainExpr d \<Longrightarrow> set d \<subseteq> set id_chars"
  unfolding domain_match by (erule pieces_chars) (rule label_chars)

lemma ValidateEmail_chars:
  assumes "ValidateEmail e = Inr ()"
  shows "set e \<subseteq> set id_chars" "e \<noteq> []"
proof -
  from assms have "rx_match emailRe e" by (simp add: ValidateEmail_def split: if_splits)
  then obtain a d where ad: "cut CHR ''@'' e = Some (a, d)"
    and l: "list_all atom_ok (split_on CHR ''.'' a)" and r: "list_all label_ok (split_on CHR ''.'' d)"
    by (auto simp: email_match split: option.splits)
  have "set a \<subseteq> set id_chars"
    using l by (rule pieces_chars) (auto simp: atom_ok_def id_chars_def)
  moreover have "set d \<subseteq> set id_chars" using r by (rule pieces_chars) (rule label_chars)
  moreover have "e = a @ CHR ''@'' # d" using ad by (auto dest: cut_SomeD)
  moreover have "CHR ''@'' \<in> set id_chars" by (simp add: id_chars_def)
  ultimately show "set e \<subseteq> set id_chars" "e \<noteq> []" by auto
qed

lemma ValidatePattern_chars:
  assumes "ValidatePattern p = Inr ()"
  shows "set p \<subseteq> set id_chars" "p \<noteq> []"
proof -
  have st: "CHR ''*'' \<in> set id_chars" "CHR ''@'' \<in> set id_chars" by (simp_all add: id_chars_def atom_chars_def)
  have "set p \<subseteq> set id_chars \<and> p \<noteq> []"
  proof (cases "cut_prefix p ''*@''")
    case None
    with assms show ?thesis using ValidateEmail_chars [of p] by (auto simp: ValidatePattern_def split: if_splits)
  next
    case (Some d)
    then have "p = ''*@'' @ d" by (auto simp: cut_prefix_def has_prefix_iff split: if_splits)
    with Some assms st show ?thesis using domain_chars [of d] by (auto simp: ValidatePattern_def split: if_splits)
  qed
  then show "set p \<subseteq> set id_chars" "p \<noteq> []" by auto
qed

lemma ValidateMember_chars:
  assumes "ValidateMember t i = Inr ()"
  shows "set i \<subseteq> set id_chars \<and> i \<noteq> []"
proof -
  have gr: "set (lower_alnum @ ''._-'') \<subseteq> set id_chars" "set (lower_alnum @ ''_-'') \<subseteq> set id_chars"
    "RelationSeparator \<in> set id_chars"
    using alnum_id_chars by (auto simp: id_chars_def atom_chars_def)
  consider "t = ''user''" | "t = ''pattern''" | "t = ''group''"
    using assms by (auto simp: ValidateMember_def split: if_splits)
  then show ?thesis
  proof cases
    case 1
    then show ?thesis using assms ValidateEmail_chars [of i] by (auto simp: ValidateMember_def)
  next
    case 2
    then show ?thesis using assms ValidatePattern_chars [of i] by (auto simp: ValidateMember_def)
  next
    case 3
    show ?thesis
    proof (cases "cut RelationSeparator i")
      case None
      then have "ValidateGroupID i = Inr ()" using assms 3 by (simp add: ValidateMember_def bindE_Inr)
      then show ?thesis using gr ValidateGroupID_chars [of i] by blast
    next
      case (Some gr')
      then obtain g r where s: "cut RelationSeparator i = Some (g, r)" by (cases gr') auto
      then have i: "i = g @ RelationSeparator # r" by (auto dest: cut_SomeD)
      from s 3 assms have "ValidateGroupID g = Inr ()" "rx_match relationName r"
        by (auto simp: ValidateMember_def bindE_Inr split: if_splits)
      then have "set g \<subseteq> set id_chars" "set r \<subseteq> set id_chars"
        using gr ValidateGroupID_chars [of g] relationName_chars [of r] by blast+
      with i gr show ?thesis by simp
    qed
  qed
qed

lemma ValidateMember_stored: "ValidateMember t i = Inr () \<Longrightarrow> stored_spelling i"
  using ValidateMember_chars [of t i] by (auto intro: stored_spellingI)

lemma ValidateTuple_stored:
  "ValidateTuple t = Inr () \<Longrightarrow>
   stored_spelling (p_group t) \<and> RelationSeparator \<notin> set (p_group t) \<and> stored_spelling (p_member t)"
  by (auto simp: ValidateTuple_def bindE_Inr dest: ValidateGroupID_stored ValidateMember_stored)

text \<open>An accepted pattern names one domain or one address; nothing broader is let in.\<close>

lemma ValidatePattern_shape:
  "ValidatePattern p = Inr () \<longleftrightarrow>
     (\<exists>d. p = ''*@'' @ d \<and> list_all label_ok (split_on CHR ''.'' d))
     \<or> \<not> has_prefix p ''*@'' \<and> CHR ''*'' \<notin> set p \<and> ValidateEmail p = Inr ()"
  by (auto simp: ValidatePattern_def cut_prefix_def domain_match has_prefix_iff split: if_splits)

lemma label_no_star: "label_ok l \<Longrightarrow> CHR ''*'' \<notin> set l"
proof -
  have "CHR ''*'' \<notin> set (lower_alnum @ ''-'')" by (simp add: char_class_defs)
  then show "label_ok l \<Longrightarrow> CHR ''*'' \<notin> set l" unfolding label_ok_def by blast
qed

lemma domain_no_star:
  assumes "list_all label_ok (split_on CHR ''.'' d)" shows "CHR ''*'' \<notin> set d"
proof -
  have "CHR ''*'' \<notin> insert CHR ''.'' (\<Union> (set ` set (split_on CHR ''.'' d)))"
    using assms label_no_star by (auto simp: list_all_iff)
  then show ?thesis using set_split_on [of d "CHR ''.''"] by blast
qed

end
