(* ===== verification/MemoryStore.thy ===== *)
theory MemoryStore
  imports Validate
begin

text \<open>
  \<open>internal/storage/memory.go\<close>: the in-memory store, operation by operation in the order of the
  file; the two transitive resolutions, \<open>GetAllMembers\<close> and \<open>GetUserTokens\<close>, are in the theory
  Membership.

  The state is the struct \<open>MemoryStore\<close>; its maps are association lists (see Prelude). Each
  operation is one step: the code holds the store's lock for the whole of it. It reads the
  clock once (\<open>now\<close>; the code reads it again per tuple) and draws ids from \<open>ids\<close>, the
  successive results of \<open>uuid.New\<close>. A failing operation returns \<open>Inl\<close> and has changed nothing.
\<close>

section \<open>State\<close>

record MemTuple =
  t_id :: uuid
  t_obj :: string
  t_rel :: string
  t_stype :: string
  t_sid :: string
  t_srel :: string
  t_source :: "uuid option"
  t_created :: time
  t_expires :: "time option"

definition live_at :: "time \<Rightarrow> time option \<Rightarrow> bool" where
  "live_at now e = (case e of None \<Rightarrow> True | Some x \<Rightarrow> x > now)"

definition live :: "time \<Rightarrow> MemTuple \<Rightarrow> bool" where
  "live now t = live_at now (t_expires t)"

record MemoryStore =
  groups :: "(string, Group) gomap"
  sources :: "(uuid, Source) gomap"
  tuples :: "MemTuple list"
  syncLogs :: "SyncLog list"
  managers :: "(string, Manager list) gomap"
  changes :: "Change list"

definition NewMemoryStore :: MemoryStore where
  "NewMemoryStore = \<lparr>groups = [], sources = [], tuples = [], syncLogs = [], managers = [], changes = []\<rparr>"

section \<open>Helpers at the end of the file\<close>

definition subject :: "string \<Rightarrow> string \<Rightarrow> string \<times> string" where
  "subject memberType memberID =
     (if memberType \<noteq> ''group'' then (memberID, []) else MemberGroup memberID)"

definition memberToken :: "string \<Rightarrow> string \<Rightarrow> string \<Rightarrow> string" where
  "memberToken subjType subjID subjRel =
     (if subjType = ''group'' then GroupToken subjID subjRel else BuildToken subjType subjID)"

definition filterFor :: "string \<Rightarrow> string" where
  "filterFor relation = (if relation = RelationMember then [] else relation)"

definition relationMatches :: "string \<Rightarrow> string \<Rightarrow> bool" where
  "relationMatches tupleRelation flt \<longleftrightarrow> flt = [] \<or> tupleRelation = flt"

section \<open>Groups\<close>

text \<open>The verb \<open>%q\<close> on an id without characters to escape.\<close>

definition quoted :: "string \<Rightarrow> string" where
  "quoted x = CHR 0x22 # x @ [CHR 0x22]"

definition mem_GroupRelations :: "time \<Rightarrow> MemoryStore \<Rightarrow> (string, string list) gomap" where
  "mem_GroupRelations now s =
     (let seen = filter (\<lambda>t. \<not> (t_rel t = RelationMember \<or> \<not> live now t)) (tuples s)
      in map (\<lambda>i. (i, sort (uniq (map t_rel (filter (\<lambda>t. t_obj t = i) seen))))) (uniq (map t_obj seen)))"

definition mem_GroupOwners :: "MemoryStore \<Rightarrow> string list \<Rightarrow> (string, uuid option) gomap" where
  "mem_GroupOwners s is =
     fold (\<lambda>i out. case lookup (groups s) i of Some g \<Rightarrow> put i (g_source g) out | None \<Rightarrow> out) is []"

definition mem_CreateGroup :: "time \<Rightarrow> Group \<Rightarrow> MemoryStore \<Rightarrow> error + (MemoryStore \<times> Group)" where
  "mem_CreateGroup now g s =
     (if lookup (groups s) (g_id g) \<noteq> None
      then Inl (ErrText (''group '' @ quoted (g_id g) @ '' already exists''))
      else let g' = g\<lparr>g_created := now, g_updated := now, g_token := GroupPrefix @ g_id g\<rparr>
           in Inr (s\<lparr>groups := put (g_id g) g' (groups s)\<rparr>, g'))"

definition mem_GetGroup :: "MemoryStore \<Rightarrow> string \<Rightarrow> error + Group" where
  "mem_GetGroup s i = (case lookup (groups s) i of None \<Rightarrow> Inl ErrRecordNotFound | Some g \<Rightarrow> Inr g)"

definition group_hit :: "string \<Rightarrow> Group \<Rightarrow> bool" where
  "group_hit needle g \<longleftrightarrow> needle = [] \<or> contains_str (to_lower (g_id g)) needle
     \<or> contains_str (to_lower (g_display g)) needle \<or> contains_str (to_lower (g_desc g)) needle"

definition group_in_source :: "MemTuple list \<Rightarrow> uuid option \<Rightarrow> Group \<Rightarrow> bool" where
  "group_in_source ts sourceID g =
     (case sourceID of None \<Rightarrow> True
      | Some sid \<Rightarrow> g_source g = Some sid \<or> (\<exists>t \<in> set ts. t_obj t = g_id g \<and> t_source t = Some sid))"

definition mem_ListGroups :: "MemoryStore \<Rightarrow> string \<Rightarrow> uuid option \<Rightarrow> int \<Rightarrow> Group list" where
  "mem_ListGroups s query sourceID limit =
     (let needle = to_lower (trim_space query);
          out = filter (\<lambda>g. group_hit needle g \<and> group_in_source (tuples s) sourceID g) (map snd (groups s))
      in limited limit (sort_key g_id out))"

definition mem_UpdateGroup :: "time \<Rightarrow> string \<Rightarrow> string \<Rightarrow> string \<Rightarrow> MemoryStore \<Rightarrow> error + MemoryStore" where
  "mem_UpdateGroup now i displayName description s =
     (case lookup (groups s) i of None \<Rightarrow> Inl ErrRecordNotFound
      | Some g \<Rightarrow> Inr (s\<lparr>groups := put i (g\<lparr>g_display := displayName, g_desc := description, g_updated := now\<rparr>) (groups s)\<rparr>))"

text \<open>Whether a manager entry names group \<open>i\<close>, or a relation of it.\<close>

definition names_group :: "string \<Rightarrow> string \<Rightarrow> bool" where
  "names_group i token \<longleftrightarrow>
     has_prefix token GroupPrefix \<and> fst (SplitGroupRelation (trim_prefix token GroupPrefix)) = i"

definition in_or_of_group :: "string \<Rightarrow> MemTuple \<Rightarrow> bool" where
  "in_or_of_group i t \<longleftrightarrow> t_obj t = i \<or> (t_stype t = ''group'' \<and> t_sid t = i)"

definition mem_DeleteGroup :: "string \<Rightarrow> MemoryStore \<Rightarrow> MemoryStore" where
  "mem_DeleteGroup i s =
     s\<lparr>groups := del i (groups s),
       managers := map_vals (\<lambda>gid ms. filter (\<lambda>m. \<not> names_group i (m_token m)) ms) (del i (managers s)),
       tuples := filter (\<lambda>t. \<not> in_or_of_group i t) (tuples s)\<rparr>"

section \<open>Members\<close>

definition is_entry :: "string \<Rightarrow> string \<Rightarrow> string \<Rightarrow> string \<Rightarrow> string \<Rightarrow> MemTuple \<Rightarrow> bool" where
  "is_entry groupID relation memberType sid srel t \<longleftrightarrow>
     t_obj t = groupID \<and> t_rel t = relation \<and> t_stype t = memberType \<and> t_sid t = sid \<and> t_srel t = srel"

fun update_first :: "('a \<Rightarrow> bool) \<Rightarrow> ('a \<Rightarrow> 'a) \<Rightarrow> 'a list \<Rightarrow> 'a list" where
  "update_first p f [] = []"
| "update_first p f (x # xs) = (if p x then f x # xs else x # update_first p f xs)"

fun find_index :: "('a \<Rightarrow> bool) \<Rightarrow> 'a list \<Rightarrow> nat option" where
  "find_index p [] = None"
| "find_index p (x # xs) = (if p x then Some 0 else map_option Suc (find_index p xs))"

definition mem_AddMember :: "time \<Rightarrow> uuid \<Rightarrow> string \<Rightarrow> string \<Rightarrow> string \<Rightarrow> string \<Rightarrow> uuid option \<Rightarrow> time option
    \<Rightarrow> MemoryStore \<Rightarrow> MemoryStore" where
  "mem_AddMember now new groupID relation memberType memberID sourceID expiresAt s =
     (let relation = NormalizeRelation relation;
          (sid, srel) = subject memberType memberID;
          same = is_entry groupID relation memberType sid srel
      in if \<exists>t \<in> set (tuples s). same t
         then s\<lparr>tuples := update_first same (\<lambda>t. t\<lparr>t_expires := expiresAt\<rparr>) (tuples s)\<rparr>
         else s\<lparr>tuples := tuples s @
           [\<lparr>t_id = new, t_obj = groupID, t_rel = relation, t_stype = memberType, t_sid = sid, t_srel = srel,
             t_source = sourceID, t_created = now, t_expires = expiresAt\<rparr>]\<rparr>)"

definition mem_RemoveMember :: "string \<Rightarrow> string \<Rightarrow> string \<Rightarrow> string \<Rightarrow> MemoryStore \<Rightarrow> MemoryStore" where
  "mem_RemoveMember groupID relation memberType memberID s =
     (let relation = NormalizeRelation relation;
          (sid, srel) = subject memberType memberID
      in s\<lparr>tuples := filter (\<lambda>t. \<not> is_entry groupID relation memberType sid srel t) (tuples s)\<rparr>)"

text \<open>\<open>laterExpiry\<close> of \<open>postgres.go\<close>, which both stores use: no end is the longest validity.\<close>

definition laterExpiry :: "time option \<Rightarrow> time option \<Rightarrow> time option" where
  "laterExpiry a b =
     (case a of None \<Rightarrow> None | Some x \<Rightarrow> (case b of None \<Rightarrow> None | Some y \<Rightarrow> if x > y then a else b))"

definition mem_ChangeRelation :: "string \<Rightarrow> string \<Rightarrow> string \<Rightarrow> string \<Rightarrow> string \<Rightarrow> MemoryStore
    \<Rightarrow> error + MemoryStore" where
  "mem_ChangeRelation groupID memberType memberID from to s =
     (let from = NormalizeRelation from; to = NormalizeRelation to;
          (sid, srel) = subject memberType memberID;
          find = (\<lambda>relation. find_index (is_entry groupID relation memberType sid srel) (tuples s))
      in case find from of None \<Rightarrow> Inl ErrRecordNotFound
         | Some old \<Rightarrow>
             if from = to then Inr s
             else (case find to of
                 None \<Rightarrow> Inr (s\<lparr>tuples := (tuples s)[old := (tuples s ! old)\<lparr>t_rel := to\<rparr>]\<rparr>)
               | Some target \<Rightarrow>
                   let ts = (tuples s)[target := (tuples s ! target)\<lparr>t_expires :=
                              laterExpiry (t_expires (tuples s ! old)) (t_expires (tuples s ! target))\<rparr>]
                   in Inr (s\<lparr>tuples := take old ts @ drop (Suc old) ts\<rparr>)))"

definition mem_GetDirectMembers :: "time \<Rightarrow> MemoryStore \<Rightarrow> string \<Rightarrow> string \<Rightarrow> string list" where
  "mem_GetDirectMembers now s groupID relation =
     (let flt = filterFor (NormalizeRelation relation)
      in uniq (map (\<lambda>t. memberToken (t_stype t) (t_sid t) (t_srel t))
           (filter (\<lambda>t. \<not> (t_obj t \<noteq> groupID \<or> t_stype t = ''pattern'' \<or> \<not> live now t
              \<or> \<not> relationMatches (t_rel t) flt)) (tuples s))))"

definition mem_ListMemberships :: "time \<Rightarrow> MemoryStore \<Rightarrow> string \<Rightarrow> Membership list" where
  "mem_ListMemberships now s groupID =
     sort_key (\<lambda>m. ms_member m @ ''#'' @ ms_relation m)
       (map (\<lambda>t. \<lparr>ms_member = memberToken (t_stype t) (t_sid t) (t_srel t), ms_relation = t_rel t,
                  ms_expires = t_expires t, ms_expired = \<not> live now t, ms_created = t_created t\<rparr>)
         (filter (\<lambda>t. t_obj t = groupID) (tuples s)))"

definition mem_SearchUsers :: "time \<Rightarrow> MemoryStore \<Rightarrow> string \<Rightarrow> int \<Rightarrow> string list" where
  "mem_SearchUsers now s query limit =
     (let needle = to_lower (trim_space query)
      in limited limit (sort (uniq (map t_sid (filter (\<lambda>t.
           \<not> (t_stype t \<noteq> ''user'' \<or> \<not> live now t)
           \<and> \<not> (needle \<noteq> [] \<and> \<not> contains_str (to_lower (t_sid t)) needle)) (tuples s))))))"

section \<open>Sources\<close>

definition mem_CreateSource :: "time \<Rightarrow> Source \<Rightarrow> MemoryStore \<Rightarrow> MemoryStore" where
  "mem_CreateSource now src s =
     s\<lparr>sources := put (s_id src) (src\<lparr>s_created := now, s_updated := now\<rparr>) (sources s)\<rparr>"

definition mem_GetSource :: "MemoryStore \<Rightarrow> uuid \<Rightarrow> error + Source" where
  "mem_GetSource s i = (case lookup (sources s) i of None \<Rightarrow> Inl ErrRecordNotFound | Some src \<Rightarrow> Inr src)"

definition mem_ListSources :: "MemoryStore \<Rightarrow> Source list" where
  "mem_ListSources s = sort_key s_name (map snd (sources s))"

definition mem_UpdateSource :: "time \<Rightarrow> Source \<Rightarrow> MemoryStore \<Rightarrow> error + MemoryStore" where
  "mem_UpdateSource now upd s =
     (case lookup (sources s) (s_id upd) of None \<Rightarrow> Inl ErrRecordNotFound
      | Some src \<Rightarrow> Inr (s\<lparr>sources := put (s_id upd)
          (src\<lparr>s_name := s_name upd, s_schedule := s_schedule upd, s_dn_regexp := s_dn_regexp upd,
               s_rel_regexp := s_rel_regexp upd, s_file_path := s_file_path upd,
               s_reserved := s_reserved upd, s_updated := now\<rparr>) (sources s)\<rparr>))"

definition mem_DeleteSource :: "uuid \<Rightarrow> MemoryStore \<Rightarrow> MemoryStore" where
  "mem_DeleteSource i s =
     s\<lparr>tuples := filter (\<lambda>t. t_source t \<noteq> Some i) (tuples s),
       groups := map_vals (\<lambda>_ g. if g_source g = Some i then g\<lparr>g_source := None\<rparr> else g) (groups s),
       sources := del i (sources s)\<rparr>"

definition mem_UpdateSourceSyncStatus :: "time \<Rightarrow> uuid \<Rightarrow> string \<Rightarrow> time \<Rightarrow> MemoryStore \<Rightarrow> error + MemoryStore" where
  "mem_UpdateSourceSyncStatus now i status syncedAt s =
     (case lookup (sources s) i of None \<Rightarrow> Inl ErrRecordNotFound
      | Some src \<Rightarrow> Inr (s\<lparr>sources := put i
          (src\<lparr>s_last_status := status, s_last_synced := Some syncedAt, s_updated := now\<rparr>) (sources s)\<rparr>))"

section \<open>Sync logs\<close>

definition mem_CreateSyncLog :: "SyncLog \<Rightarrow> MemoryStore \<Rightarrow> MemoryStore" where
  "mem_CreateSyncLog l s = s\<lparr>syncLogs := syncLogs s @ [l]\<rparr>"

definition mem_UpdateSyncLog :: "SyncLog \<Rightarrow> MemoryStore \<Rightarrow> error + MemoryStore" where
  "mem_UpdateSyncLog l s =
     (if \<exists>x \<in> set (syncLogs s). l_id x = l_id l
      then Inr (s\<lparr>syncLogs := update_first (\<lambda>x. l_id x = l_id l) (\<lambda>_. l) (syncLogs s)\<rparr>)
      else Inl (ErrText ''sync log not found''))"

definition mem_ListSyncLogs :: "MemoryStore \<Rightarrow> uuid \<Rightarrow> int \<Rightarrow> SyncLog list" where
  "mem_ListSyncLogs s sourceID limit =
     limited limit (sort_key (\<lambda>l. - l_started l) (filter (\<lambda>l. l_source l = sourceID) (syncLogs s)))"

section \<open>ReplaceTuples\<close>

record TupleKey =
  k_group :: string
  k_rel :: string
  k_type :: string
  k_sid :: string
  k_srel :: string

definition tuple_key :: "MemTuple \<Rightarrow> TupleKey" where
  "tuple_key t = \<lparr>k_group = t_obj t, k_rel = t_rel t, k_type = t_stype t, k_sid = t_sid t, k_srel = t_srel t\<rparr>"

definition pair_key :: "TuplePair \<Rightarrow> TupleKey" where
  "pair_key p = (let (sid, srel) = subject (p_type p) (p_member p)
     in \<lparr>k_group = p_group p, k_rel = NormalizeRelation (p_relation p), k_type = p_type p,
         k_sid = sid, k_srel = srel\<rparr>)"

text \<open>The missing group is created; the description of one that exists follows the import.\<close>

definition sync_group :: "time \<Rightarrow> uuid \<Rightarrow> (string, string) gomap \<Rightarrow> string \<Rightarrow> (string, Group) gomap
    \<Rightarrow> (string, Group) gomap" where
  "sync_group now sourceID descriptions gid gs =
     (case lookup gs gid of
        None \<Rightarrow> put gid \<lparr>g_id = gid, g_token = GroupPrefix @ gid, g_display = gid,
                    g_desc = lookup_default [] descriptions gid, g_source = Some sourceID,
                    g_source_name = [], g_relations = [], g_created = now, g_updated = now\<rparr> gs
      | Some g \<Rightarrow> (case lookup descriptions gid of
            None \<Rightarrow> gs
          | Some desc \<Rightarrow> if g_desc g \<noteq> desc then put gid (g\<lparr>g_desc := desc, g_updated := now\<rparr>) gs else gs))"

text \<open>
  The loop over the incoming tuples: \<open>newSet\<close> are the keys seen so far, \<open>added\<close> the tuples
  appended for the source (their number indexes the ids drawn).
\<close>

fun replace_loop :: "time \<Rightarrow> (nat \<Rightarrow> uuid) \<Rightarrow> uuid \<Rightarrow> (string, string) gomap \<Rightarrow> TupleKey list \<Rightarrow> TuplePair list
    \<Rightarrow> TupleKey list \<Rightarrow> (string, Group) gomap \<Rightarrow> MemTuple list
    \<Rightarrow> TupleKey list \<times> (string, Group) gomap \<times> MemTuple list" where
  "replace_loop now ids sourceID descriptions existing [] newSet gs added = (newSet, gs, added)"
| "replace_loop now ids sourceID descriptions existing (p # ps) newSet gs added =
     (let k = pair_key p in
      if k \<in> set newSet then replace_loop now ids sourceID descriptions existing ps newSet gs added
      else
        let gs = sync_group now sourceID descriptions (p_group p) gs;
            added = (if k \<in> set existing then added
                     else added @ [\<lparr>t_id = ids (length added), t_obj = k_group k, t_rel = k_rel k,
                                    t_stype = k_type k, t_sid = k_sid k, t_srel = k_srel k,
                                    t_source = Some sourceID, t_created = now, t_expires = None\<rparr>])
        in replace_loop now ids sourceID descriptions existing ps (k # newSet) gs added)"

definition group_used :: "MemTuple list \<Rightarrow> (string, Manager list) gomap \<Rightarrow> string \<Rightarrow> bool" where
  "group_used ts mgrs i \<longleftrightarrow>
     (\<exists>t \<in> set ts. in_or_of_group i t) \<or> (\<exists>gm \<in> set mgrs. \<exists>m \<in> set (snd gm). names_group i (m_token m))"

definition mem_ReplaceTuples :: "time \<Rightarrow> (nat \<Rightarrow> uuid) \<Rightarrow> uuid \<Rightarrow> TuplePair list \<Rightarrow> (string, string) gomap
    \<Rightarrow> MemoryStore \<Rightarrow> MemoryStore \<times> nat \<times> nat" where
  "mem_ReplaceTuples now ids sourceID newTuples descriptions s =
     (let existing = map tuple_key (filter (\<lambda>t. t_source t = Some sourceID) (tuples s));
          (newSet, gs, added) = replace_loop now ids sourceID descriptions existing newTuples [] (groups s) [];
          ts = tuples s @ added;
          gone = (\<lambda>t. t_source t = Some sourceID \<and> tuple_key t \<notin> set newSet);
          kept = filter (\<lambda>t. \<not> gone t) ts;
          gs' = filter (\<lambda>(i, g). \<not> (g_source g = Some sourceID
                  \<and> length (lookup_default [] (managers s) i) = 0
                  \<and> \<not> group_used kept (managers s) i)) gs
      in (s\<lparr>groups := gs', tuples := kept\<rparr>, length added, length (filter gone ts)))"

section \<open>Moving between sources\<close>

definition mem_MoveToSource :: "uuid option \<Rightarrow> uuid \<Rightarrow> MemoryStore \<Rightarrow> MemoryStore \<times> string list" where
  "mem_MoveToSource from to s =
     (s\<lparr>groups := map_vals (\<lambda>_ g. if g_source g = from then g\<lparr>g_source := Some to\<rparr> else g) (groups s),
        tuples := map (\<lambda>t. if t_source t = from then t\<lparr>t_source := Some to\<rparr> else t) (tuples s)\<rparr>,
      sort (map g_id (filter (\<lambda>g. g_source g = from) (map snd (groups s)))))"

section \<open>Managers and edges\<close>

definition mem_ListManagers :: "MemoryStore \<Rightarrow> string \<Rightarrow> Manager list" where
  "mem_ListManagers s groupID = sort_key m_token (lookup_default [] (managers s) groupID)"

definition mem_AddManager :: "time \<Rightarrow> string \<Rightarrow> Manager \<Rightarrow> MemoryStore \<Rightarrow> MemoryStore" where
  "mem_AddManager now groupID m s =
     (let ms = lookup_default [] (managers s) groupID in
      if \<exists>e \<in> set ms. m_token e = m_token m then s
      else s\<lparr>managers := put groupID (ms @ [m\<lparr>m_created := now\<rparr>]) (managers s)\<rparr>)"

definition mem_RemoveManager :: "string \<Rightarrow> string \<Rightarrow> MemoryStore \<Rightarrow> MemoryStore" where
  "mem_RemoveManager groupID token s =
     s\<lparr>managers := put groupID (filter (\<lambda>m. m_token m \<noteq> token) (lookup_default [] (managers s) groupID))
        (managers s)\<rparr>"

text \<open>An edge \<open>[parent, child]\<close>; edges are sorted by parent, then child.\<close>

datatype Edge = Edge (e_parent: string) (e_child: string)

instantiation Edge :: linorder
begin

definition less_eq_Edge :: "Edge \<Rightarrow> Edge \<Rightarrow> bool" where
  "less_eq_Edge a b \<longleftrightarrow> e_parent a < e_parent b \<or> (e_parent a = e_parent b \<and> e_child a \<le> e_child b)"

definition less_Edge :: "Edge \<Rightarrow> Edge \<Rightarrow> bool" where
  "less_Edge a b \<longleftrightarrow> e_parent a < e_parent b \<or> (e_parent a = e_parent b \<and> e_child a < e_child b)"

instance
  by standard (auto simp: less_eq_Edge_def less_Edge_def Edge.expand)

end

definition mem_GroupEdges :: "time \<Rightarrow> MemoryStore \<Rightarrow> Edge list" where
  "mem_GroupEdges now s =
     sort (uniq (map (\<lambda>t. Edge (t_obj t) (t_sid t)) (filter (\<lambda>t. t_stype t = ''group'' \<and> live now t) (tuples s))))"

definition mem_ManagedGroups :: "MemoryStore \<Rightarrow> string list \<Rightarrow> string list" where
  "mem_ManagedGroups s tokens =
     sort (map fst (filter (\<lambda>(gid, ms). \<exists>m \<in> set ms. m_token m \<in> set tokens) (managers s)))"

section \<open>History\<close>

definition mem_AddChange :: "time \<Rightarrow> uuid \<Rightarrow> Change \<Rightarrow> MemoryStore \<Rightarrow> MemoryStore" where
  "mem_AddChange now new c s =
     s\<lparr>changes := changes s @
        [c\<lparr>c_id := (if c_id c = 0 then new else c_id c), c_at := (if c_at c = 0 then now else c_at c)\<rparr>]\<rparr>"

definition mem_ListChanges :: "MemoryStore \<Rightarrow> string \<Rightarrow> int \<Rightarrow> Change list" where
  "mem_ListChanges s groupID limit = limited limit (filter (\<lambda>c. c_group c = groupID) (rev (changes s)))"

end
