(* ===== verification/Membership.thy ===== *)
theory Membership
  imports MemoryStore
begin

text \<open>
  The two transitive resolutions of \<open>internal/storage/memory.go\<close>: \<open>GetAllMembers\<close>, everyone a
  group counts, and \<open>GetUserTokens\<close>, every token a person holds. Both are worklist searches over
  the live tuples, transcribed with their queues; their termination is proved here.

  The specification is \<open>holds\<close> (what a person holds in a group, by rules) and \<open>counts\<close> (which
  entries count for a group and a relation). The searches compute exactly these, and the two
  agree with each other: somebody is listed as a member of a group exactly if the group's
  token is among theirs, patterns aside.
\<close>

type_synonym step = "string \<times> string"

section \<open>GetAllMembers\<close>

definition member_hits :: "time \<Rightarrow> MemTuple list \<Rightarrow> step \<Rightarrow> MemTuple list" where
  "member_hits now ts current =
     filter (\<lambda>t. \<not> (t_obj t \<noteq> fst current \<or> t_stype t = ''pattern'' \<or> \<not> live now t
                 \<or> \<not> relationMatches (t_rel t) (filterFor (snd current)))) ts"

abbreviation tuple_token :: "MemTuple \<Rightarrow> string" where
  "tuple_token t \<equiv> memberToken (t_stype t) (t_sid t) (t_srel t)"

abbreviation tuple_subject :: "MemTuple \<Rightarrow> step" where
  "tuple_subject t \<equiv> (t_sid t, t_srel t)"

function all_members_loop :: "time \<Rightarrow> MemTuple list \<Rightarrow> step list \<Rightarrow> string list \<Rightarrow> step list \<Rightarrow> string list" where
  "all_members_loop now ts visited tokens [] = tokens"
| "all_members_loop now ts visited tokens (current # queue) =
     (if current \<in> set visited then all_members_loop now ts visited tokens queue
      else let hits = member_hits now ts current in
        all_members_loop now ts (current # visited) (fold add_new (map tuple_token hits) tokens)
          (queue @ map tuple_subject (filter (\<lambda>t. t_stype t = ''group'') hits)))"
  by pat_completeness auto
termination
proof (relation "measures
    [\<lambda>(now, ts, visited, tokens, queue). card ((set queue \<union> tuple_subject ` set ts) - set visited),
     \<lambda>(now, ts, visited, tokens, queue). length queue]", goal_cases)
  case 1
  then show ?case by simp
next
  case (2 now ts visited tokens current queue)
  then have "(set (current # queue) \<union> tuple_subject ` set ts) - set visited =
      (set queue \<union> tuple_subject ` set ts) - set visited" by auto
  then show ?case by simp
next
  case (3 now ts visited tokens current queue hits)
  let ?q = "queue @ map tuple_subject (filter (\<lambda>t. t_stype t = ''group'') hits)"
  have "(set ?q \<union> tuple_subject ` set ts) - set (current # visited)
      \<subset> (set (current # queue) \<union> tuple_subject ` set ts) - set visited"
    using 3 by (auto simp: member_hits_def)
  then have "card ((set ?q \<union> tuple_subject ` set ts) - set (current # visited))
      < card ((set (current # queue) \<union> tuple_subject ` set ts) - set visited)"
    by (intro psubset_card_mono) auto
  then show ?case by simp
qed

definition mem_GetAllMembers :: "time \<Rightarrow> MemoryStore \<Rightarrow> string \<Rightarrow> string \<Rightarrow> string list" where
  "mem_GetAllMembers now s groupID relation =
     all_members_loop now (tuples s) [] [] [(groupID, NormalizeRelation relation)]"

section \<open>GetUserTokens\<close>

definition user_hits :: "time \<Rightarrow> MemTuple list \<Rightarrow> string \<Rightarrow> MemTuple list" where
  "user_hits now ts email =
     filter (\<lambda>t. live now t \<and> ((t_stype t = ''user'' \<and> t_sid t = email) \<or>
                (t_stype t = ''pattern'' \<and> MatchEmailPattern (t_sid t) email))) ts"

definition parent_hits :: "time \<Rightarrow> MemTuple list \<Rightarrow> step \<Rightarrow> MemTuple list" where
  "parent_hits now ts current =
     filter (\<lambda>t. t_stype t = ''group'' \<and> t_sid t = fst current \<and> live now t
                 \<and> (t_srel t = RelationMember \<or> t_srel t = snd current)) ts"

abbreviation tuple_pair :: "MemTuple \<Rightarrow> step" where
  "tuple_pair t \<equiv> (t_obj t, t_rel t)"

text \<open>The closure \<open>add\<close>: \<open>held\<close> is the set of what \<open>order\<close> holds.\<close>

definition add_pair :: "step \<Rightarrow> step list \<times> step list \<Rightarrow> step list \<times> step list" where
  "add_pair p st = (let (order, queue) = st in
     if p \<in> set order then (order, queue) else (order @ [p], queue @ [p]))"

lemma fold_add_pair: "fold add_pair ps (order, queue) = (order @ uniq_from order ps, queue @ uniq_from order ps)"
proof (induction ps arbitrary: order queue)
  case (Cons p ps)
  have "uniq_from (order @ [p]) ps = uniq_from (p # order) ps" by (rule uniq_from_cong) auto
  with Cons show ?case by (simp add: add_pair_def)
qed simp

function held_loop :: "time \<Rightarrow> MemTuple list \<Rightarrow> step list \<Rightarrow> step list \<Rightarrow> step list" where
  "held_loop now ts order [] = order"
| "held_loop now ts order (current # queue) =
     (let st = fold add_pair (map tuple_pair (parent_hits now ts current)) (order, queue)
      in held_loop now ts (fst st) (snd st))"
  by pat_completeness auto
termination
proof (relation "measures
    [\<lambda>(now, ts, order, queue). card (tuple_pair ` set ts - set order),
     \<lambda>(now, ts, order, queue). length queue]", goal_cases)
  case 1
  then show ?case by simp
next
  case (2 now ts order current queue st)
  let ?ps = "map tuple_pair (parent_hits now ts current)"
  let ?new = "uniq_from order ?ps"
  have st: "st = (order @ ?new, queue @ ?new)" using 2 by (simp add: fold_add_pair)
  show ?case
  proof (cases "?new = []")
    case False
    then obtain x where x: "x \<in> set ?new" by (cases ?new) auto
    then have "x \<in> tuple_pair ` set ts - set order" by (auto simp: set_uniq_from parent_hits_def)
    with x have "tuple_pair ` set ts - set (order @ ?new) \<subset> tuple_pair ` set ts - set order" by auto
    then have "card (tuple_pair ` set ts - set (order @ ?new)) < card (tuple_pair ` set ts - set order)"
      by (intro psubset_card_mono) auto
    then show ?thesis by (simp add: st)
  qed (simp add: st)
qed

definition held_pairs :: "time \<Rightarrow> MemoryStore \<Rightarrow> string \<Rightarrow> step list" where
  "held_pairs now s email =
     (let (order, queue) = fold add_pair (map tuple_pair (user_hits now (tuples s) email)) ([], [])
      in held_loop now (tuples s) order queue)"

definition mem_GetUserTokens :: "time \<Rightarrow> MemoryStore \<Rightarrow> string \<Rightarrow> string list" where
  "mem_GetUserTokens now s email =
     (let order = held_pairs now s email
      in [UserPrefix @ email] @ map (\<lambda>g. GroupPrefix @ g) (uniq (map fst order))
         @ map (\<lambda>p. GroupToken (fst p) (snd p)) (filter (\<lambda>p. snd p \<noteq> RelationMember) order))"

section \<open>What the searches compute\<close>

text \<open>One step down: from a group and a relation to what a counted group entry means.\<close>

definition sub_steps :: "time \<Rightarrow> MemTuple list \<Rightarrow> (step \<times> step) set" where
  "sub_steps now ts = {(a, tuple_subject t) | a t. t \<in> set (member_hits now ts a) \<and> t_stype t = ''group''}"

text \<open>One step up: from what is held in a group to what an entry of that group grants.\<close>

definition up_steps :: "time \<Rightarrow> MemTuple list \<Rightarrow> (step \<times> step) set" where
  "up_steps now ts = {(a, tuple_pair t) | a t. t \<in> set (parent_hits now ts a)}"

lemma sub_steps_Image: "sub_steps now ts `` {a} = tuple_subject ` {t \<in> set (member_hits now ts a). t_stype t = ''group''}"
  unfolding sub_steps_def Image_def by blast

lemma up_steps_Image: "up_steps now ts `` {a} = tuple_pair ` set (parent_hits now ts a)"
  unfolding up_steps_def Image_def by blast

lemma all_members_loop_set:
  assumes "sub_steps now ts `` set visited \<subseteq> set visited \<union> set queue"
    and "set tokens = (\<Union>a \<in> set visited. tuple_token ` set (member_hits now ts a))"
  shows "set (all_members_loop now ts visited tokens queue) =
    (\<Union>a \<in> (sub_steps now ts)\<^sup>* `` (set visited \<union> set queue). tuple_token ` set (member_hits now ts a))"
  using assms
proof (induction now ts visited tokens queue rule: all_members_loop.induct)
  case (1 now ts visited tokens)
  then have "(sub_steps now ts)\<^sup>* `` set visited = set visited" by (intro Image_closed) simp
  with 1 show ?case by simp
next
  case (2 now ts visited tokens current queue)
  let ?R = "sub_steps now ts" and ?hits = "member_hits now ts current"
  let ?q = "queue @ map tuple_subject (filter (\<lambda>t. t_stype t = ''group'') ?hits)"
  show ?case
  proof (cases "current \<in> set visited")
    case True
    then have e: "set visited \<union> set (current # queue) = set visited \<union> set queue" by auto
    with 2(3) have "?R `` set visited \<subseteq> set visited \<union> set queue" by simp
    from 2(1) [OF True this 2(4)] True e show ?thesis by simp
  next
    case False
    have succ: "?R `` {current} = tuple_subject ` {t \<in> set ?hits. t_stype t = ''group''}"
      by (rule sub_steps_Image)
    have q: "set ?q = set queue \<union> ?R `` {current}" by (simp add: succ)
    have cl: "?R `` set (current # visited) \<subseteq> set (current # visited) \<union> set ?q"
      using 2(3) unfolding q by auto
    have tk: "set (fold add_new (map tuple_token ?hits) tokens) =
        (\<Union>a \<in> set (current # visited). tuple_token ` set (member_hits now ts a))"
      using 2(4) by simp
    have "set (current # visited) \<union> set ?q = (set visited \<union> set (current # queue)) \<union> ?R `` {current}"
      unfolding q by auto
    then have "?R\<^sup>* `` (set (current # visited) \<union> set ?q)
        = ?R\<^sup>* `` ((set visited \<union> set (current # queue)) \<union> ?R `` {current})"
      by (simp only:)
    also have "\<dots> = ?R\<^sup>* `` (set visited \<union> set (current # queue))"
      by (rule Image_rtrancl_add) simp
    finally have "?R\<^sup>* `` (set (current # visited) \<union> set ?q) = ?R\<^sup>* `` (set visited \<union> set (current # queue))" .
    with 2(2) [OF False refl cl tk] False show ?thesis by (simp add: Let_def)
  qed
qed

lemma held_loop_set:
  assumes "set queue \<subseteq> set order" and "up_steps now ts `` (set order - set queue) \<subseteq> set order"
  shows "set (held_loop now ts order queue) = (up_steps now ts)\<^sup>* `` set order"
  using assms
proof (induction now ts order queue rule: held_loop.induct)
  case (1 now ts order)
  then show ?case using Image_closed [of "up_steps now ts" "set order"] by simp
next
  case (2 now ts order current queue)
  let ?U = "up_steps now ts" and ?ps = "map tuple_pair (parent_hits now ts current)"
  let ?new = "uniq_from order ?ps"
  have succ: "?U `` {current} = set ?ps" by (simp add: up_steps_Image)
  have new: "set ?new = set ?ps - set order" by (rule set_uniq_from)
  have st: "fold add_pair ?ps (order, queue) = (order @ ?new, queue @ ?new)" by (rule fold_add_pair)
  have sub: "set (queue @ ?new) \<subseteq> set (order @ ?new)" using 2(2) by auto
  let ?X = "set order - set (current # queue)"
  have "set (order @ ?new) - set (queue @ ?new) \<subseteq> insert current ?X" by auto
  then have "?U `` (set (order @ ?new) - set (queue @ ?new)) \<subseteq> ?U `` insert current ?X"
    by (rule Image_mono [OF subset_refl])
  also have "\<dots> = ?U `` {current} \<union> ?U `` ?X" by auto
  also have "\<dots> \<subseteq> set (order @ ?new)" using 2(3) succ new by auto
  finally have cl: "?U `` (set (order @ ?new) - set (queue @ ?new)) \<subseteq> set (order @ ?new)" .
  have "set (held_loop now ts (order @ ?new) (queue @ ?new)) = ?U\<^sup>* `` set (order @ ?new)"
    using 2(1) [OF st [symmetric]] sub cl by simp
  also have "set (order @ ?new) = set order \<union> ?U `` {current}" using succ new by auto
  also have "?U\<^sup>* `` \<dots> = ?U\<^sup>* `` set order" using 2(2) by (intro Image_rtrancl_add) simp
  finally show ?case by (simp add: st)
qed

lemma held_loop_distinct: "distinct order \<Longrightarrow> distinct (held_loop now ts order queue)"
proof (induction now ts order queue rule: held_loop.induct)
  case (2 now ts order current queue)
  have "distinct (order @ uniq_from order ps)" for ps using 2(2) by (auto simp: set_uniq_from)
  with 2(1) show ?case by (simp add: fold_add_pair)
qed simp

section \<open>Specification\<close>

text \<open>What the person holds: the rules of the comment above \<open>GetUserTokens\<close>.\<close>

inductive holds :: "time \<Rightarrow> MemTuple list \<Rightarrow> string \<Rightarrow> string \<Rightarrow> string \<Rightarrow> bool" for now ts email where
  direct: "t \<in> set (user_hits now ts email) \<Longrightarrow> holds now ts email (t_obj t) (t_rel t)"
| via: "holds now ts email g r \<Longrightarrow> t \<in> set (parent_hits now ts (g, r)) \<Longrightarrow>
    holds now ts email (t_obj t) (t_rel t)"

text \<open>Which entries count for relation \<open>r\<close> of group \<open>g\<close>: its own, and those of the groups entered in it.\<close>

inductive counts :: "time \<Rightarrow> MemTuple list \<Rightarrow> string \<Rightarrow> string \<Rightarrow> MemTuple \<Rightarrow> bool" for now ts where
  own: "t \<in> set (member_hits now ts (g, r)) \<Longrightarrow> counts now ts g r t"
| sub: "u \<in> set (member_hits now ts (g, r)) \<Longrightarrow> t_stype u = ''group'' \<Longrightarrow>
    counts now ts (t_sid u) (t_srel u) t \<Longrightarrow> counts now ts g r t"

lemma holds_iff: "holds now ts email g r \<longleftrightarrow>
    (g, r) \<in> (up_steps now ts)\<^sup>* `` (tuple_pair ` set (user_hits now ts email))"
proof
  assume "holds now ts email g r"
  then show "(g, r) \<in> (up_steps now ts)\<^sup>* `` (tuple_pair ` set (user_hits now ts email))"
  proof induction
    case (via g r t)
    then have "((g, r), tuple_pair t) \<in> up_steps now ts" by (auto simp: up_steps_def)
    with via(3) show ?case by (auto intro: rtrancl_into_rtrancl)
  qed auto
next
  assume "(g, r) \<in> (up_steps now ts)\<^sup>* `` (tuple_pair ` set (user_hits now ts email))"
  then obtain p where p: "p \<in> tuple_pair ` set (user_hits now ts email)" "(p, (g, r)) \<in> (up_steps now ts)\<^sup>*"
    by auto
  have "holds now ts email (fst q) (snd q)" if "(p, q) \<in> (up_steps now ts)\<^sup>*" for q
    using that p(1) by (induction rule: rtrancl_induct) (auto simp: up_steps_def intro: holds.intros)
  from this [OF p(2)] show "holds now ts email g r" by simp
qed

lemma counts_iff: "counts now ts g r t \<longleftrightarrow>
    (\<exists>a. ((g, r), a) \<in> (sub_steps now ts)\<^sup>* \<and> t \<in> set (member_hits now ts a))"
proof
  assume "counts now ts g r t"
  then show "\<exists>a. ((g, r), a) \<in> (sub_steps now ts)\<^sup>* \<and> t \<in> set (member_hits now ts a)"
  proof induction
    case (sub u g r t)
    then have "((g, r), tuple_subject u) \<in> sub_steps now ts" by (auto simp: sub_steps_def)
    with sub(4) show ?case by (meson converse_rtrancl_into_rtrancl)
  qed auto
next
  assume "\<exists>a. ((g, r), a) \<in> (sub_steps now ts)\<^sup>* \<and> t \<in> set (member_hits now ts a)"
  then obtain a where a: "((g, r), a) \<in> (sub_steps now ts)\<^sup>*" "t \<in> set (member_hits now ts a)" by blast
  have "counts now ts (fst b) (snd b) t" if "(b, a) \<in> (sub_steps now ts)\<^sup>*" for b
    using that
  proof (induction rule: converse_rtrancl_induct)
    case base
    then show ?case using a(2) by (intro counts.own) simp
  next
    case (step x y)
    then obtain u where u: "u \<in> set (member_hits now ts x)" "t_stype u = ''group''" "y = tuple_subject u"
      by (auto simp: sub_steps_def)
    have "counts now ts (fst x) (snd x) t"
    proof (rule counts.sub)
      show "u \<in> set (member_hits now ts (fst x, snd x))" using u(1) by simp
      show "counts now ts (t_sid u) (t_srel u) t" using step(3) u(3) by simp
    qed (rule u(2))
    then show ?case .
  qed
  from this [OF a(1)] show "counts now ts g r t" by simp
qed

section \<open>Correctness of the searches\<close>

lemma set_held_pairs: "set (held_pairs now s email) = {(g, r). holds now (tuples s) email g r}"
proof -
  let ?ps = "map tuple_pair (user_hits now (tuples s) email)"
  have "set (held_pairs now s email) = (up_steps now (tuples s))\<^sup>* `` set (uniq ?ps)"
    using held_loop_set [of "uniq ?ps" "uniq ?ps"] by (simp add: held_pairs_def fold_add_pair)
  then show ?thesis by (auto simp: holds_iff)
qed

lemma distinct_held_pairs: "distinct (held_pairs now s email)"
  by (simp add: held_pairs_def fold_add_pair held_loop_distinct)

text \<open>\<open>GetUserTokens\<close>: the person's own token, one per group, one per further relation.\<close>

lemma set_GetUserTokens: "set (mem_GetUserTokens now s email) =
    {UserPrefix @ email} \<union> {GroupPrefix @ g | g r. holds now (tuples s) email g r}
    \<union> {GroupToken g r | g r. holds now (tuples s) email g r \<and> r \<noteq> RelationMember}"
proof -
  let ?H = "{(g, r). holds now (tuples s) email g r}"
  have "set (mem_GetUserTokens now s email) = {UserPrefix @ email} \<union> (\<lambda>g. GroupPrefix @ g) ` fst ` ?H
      \<union> (\<lambda>p. GroupToken (fst p) (snd p)) ` {p \<in> ?H. snd p \<noteq> RelationMember}"
    by (simp add: mem_GetUserTokens_def Let_def set_held_pairs Un_assoc)
  moreover have "(\<lambda>g. GroupPrefix @ g) ` fst ` ?H = {GroupPrefix @ g | g r. holds now (tuples s) email g r}"
    by (auto simp: image_iff)
  moreover have "(\<lambda>p. GroupToken (fst p) (snd p)) ` {p \<in> ?H. snd p \<noteq> RelationMember}
      = {GroupToken g r | g r. holds now (tuples s) email g r \<and> r \<noteq> RelationMember}"
    by (auto simp: image_iff) blast+
  ultimately show ?thesis by simp
qed

text \<open>\<open>GetAllMembers\<close>: exactly the tokens of the entries that count.\<close>

lemma set_GetAllMembers: "set (mem_GetAllMembers now s g r) =
    {tuple_token t | t. counts now (tuples s) g (NormalizeRelation r) t}"
  using all_members_loop_set [of now "tuples s" "[]" "[(g, NormalizeRelation r)]" "[]"]
  by (auto simp: mem_GetAllMembers_def counts_iff)

section \<open>Well-formed tuples\<close>

text \<open>
  What the validators and \<open>subject\<close> leave in the store: a group id holds no \<open>#\<close>, a relation is
  never empty, a group subject says whom it means and other subjects do not.
\<close>

definition wf_tuple :: "MemTuple \<Rightarrow> bool" where
  "wf_tuple t \<longleftrightarrow> RelationSeparator \<notin> set (t_obj t) \<and> t_rel t \<noteq> []
     \<and> t_stype t \<in> {''user'', ''group'', ''pattern''}
     \<and> (if t_stype t = ''group'' then RelationSeparator \<notin> set (t_sid t) \<and> t_srel t \<noteq> [] else t_srel t = [])"

definition wf_tuples :: "MemTuple list \<Rightarrow> bool" where
  "wf_tuples ts \<longleftrightarrow> (\<forall>t \<in> set ts. wf_tuple t)"

lemma wf_tuplesD: "wf_tuples ts \<Longrightarrow> t \<in> set ts \<Longrightarrow> wf_tuple t"
  by (simp add: wf_tuples_def)

text \<open>Whether relation \<open>r\<close> is answered by somebody holding \<open>r'\<close>: every relation implies membership.\<close>

definition implies :: "string \<Rightarrow> string \<Rightarrow> bool" where
  "implies r' r \<longleftrightarrow> r = RelationMember \<or> r' = r"

lemma relationMatches_filterFor: "r \<noteq> [] \<Longrightarrow> relationMatches r' (filterFor r) \<longleftrightarrow> implies r' r"
  by (auto simp: relationMatches_def filterFor_def implies_def)

lemma member_hits_iff: "r \<noteq> [] \<Longrightarrow> t \<in> set (member_hits now ts (g, r)) \<longleftrightarrow>
    t \<in> set ts \<and> t_obj t = g \<and> t_stype t \<noteq> ''pattern'' \<and> live now t \<and> implies (t_rel t) r"
  by (auto simp: member_hits_def relationMatches_filterFor)

lemma parent_hits_iff: "t \<in> set (parent_hits now ts (g, r)) \<longleftrightarrow>
    t \<in> set ts \<and> t_stype t = ''group'' \<and> t_sid t = g \<and> live now t \<and> implies r (t_srel t)"
  by (auto simp: parent_hits_def implies_def)

lemma counts_tuple: "counts now ts g r t \<Longrightarrow> t \<in> set ts \<and> live now t \<and> t_stype t \<noteq> ''pattern''"
  by (induction rule: counts.induct) (auto simp: member_hits_def)

text \<open>Down and up are inverse: an entry for a user that counts in a group is held there.\<close>

lemma counts_holds:
  assumes "wf_tuples ts" and "counts now ts g r t" and "r \<noteq> []" and "t_stype t = ''user''"
  shows "\<exists>r'. holds now ts (t_sid t) g r' \<and> implies r' r"
  using assms(2,3,4)
proof (induction rule: counts.induct)
  case (own t g r)
  then have "t \<in> set (user_hits now ts (t_sid t))" "t_obj t = g" "implies (t_rel t) r"
    by (auto simp: user_hits_def member_hits_iff)
  then show ?case using holds.direct [of t now ts "t_sid t"] by auto
next
  case (sub u g r t)
  then have u: "u \<in> set ts" "t_obj u = g" "live now u" "implies (t_rel u) r"
    by (auto simp: member_hits_iff)
  with assms(1) sub(2) have "t_srel u \<noteq> []" by (auto simp: wf_tuple_def dest: wf_tuplesD)
  with sub obtain r' where r': "holds now ts (t_sid t) (t_sid u) r'" "implies r' (t_srel u)" by blast
  then have "u \<in> set (parent_hits now ts (t_sid u, r'))" using u sub(2) by (simp add: parent_hits_iff)
  with r'(1) have "holds now ts (t_sid t) (t_obj u) (t_rel u)" by (rule holds.via)
  with u show ?case by blast
qed

definition no_pattern :: "time \<Rightarrow> MemTuple list \<Rightarrow> string \<Rightarrow> bool" where
  "no_pattern now ts email \<longleftrightarrow>
     (\<forall>t \<in> set ts. \<not> (live now t \<and> t_stype t = ''pattern'' \<and> MatchEmailPattern (t_sid t) email))"

lemma holds_counts:
  assumes "wf_tuples ts" and "holds now ts email g r'" and "no_pattern now ts email"
    and "implies r' r" and "r \<noteq> []"
  shows "\<exists>t. counts now ts g r t \<and> t_stype t = ''user'' \<and> t_sid t = email"
  using assms(2,4,5)
proof (induction arbitrary: r rule: holds.induct)
  case (direct t)
  then have t: "t \<in> set ts" "live now t" "t_stype t = ''user''" "t_sid t = email"
    using assms(3) by (auto simp: user_hits_def no_pattern_def)
  with direct have "t \<in> set (member_hits now ts (t_obj t, r))" by (simp add: member_hits_iff)
  with t show ?case by (blast intro: counts.own)
next
  case (via g r' t)
  then have t: "t \<in> set ts" "t_stype t = ''group''" "t_sid t = g" "live now t" "implies r' (t_srel t)"
    by (auto simp: parent_hits_iff)
  with assms(1) have "t_srel t \<noteq> []" by (auto simp: wf_tuple_def dest: wf_tuplesD)
  with via(3) t obtain u where u: "counts now ts g (t_srel t) u" "t_stype u = ''user''" "t_sid u = email"
    by blast
  have "t \<in> set (member_hits now ts (t_obj t, r))" using t via(4,5) by (simp add: member_hits_iff)
  then have "counts now ts (t_obj t) r u" by (rule counts.sub [OF _ t(2)]) (simp add: t(3) u(1))
  with u show ?case by blast
qed

lemma holds_tuple: "holds now ts email g r \<Longrightarrow> \<exists>t \<in> set ts. g = t_obj t \<and> r = t_rel t"
  by (erule holds.cases) (auto simp: user_hits_def parent_hits_def)

lemma holds_wf: "wf_tuples ts \<Longrightarrow> holds now ts email g r \<Longrightarrow> RelationSeparator \<notin> set g \<and> r \<noteq> []"
  by (drule holds_tuple) (auto simp: wf_tuple_def dest!: wf_tuplesD)

lemma user_token_iff: "wf_tuple t \<Longrightarrow> tuple_token t = UserPrefix @ e \<longleftrightarrow> t_stype t = ''user'' \<and> t_sid t = e"
  by (auto simp: memberToken_def BuildToken_def wf_tuple_def GroupToken_def)

text \<open>A group token, plain or with a relation, is among somebody's tokens iff they hold it.\<close>

lemma GroupToken_in_tokens:
  assumes "wf_tuples (tuples s)" and "RelationSeparator \<notin> set g"
  shows "GroupToken g r \<in> set (mem_GetUserTokens now s email) \<longleftrightarrow>
    (\<exists>r'. holds now (tuples s) email g r' \<and> implies r' (NormalizeRelation r))" (is "?L \<longleftrightarrow> ?R")
proof -
  have inj: "GroupToken g r = GroupToken g' r' \<longleftrightarrow> g = g' \<and> NormalizeRelation r = r'"
    if "holds now (tuples s) email g' r'" for g' r'
    using holds_wf [OF assms(1) that] assms(2) by (simp add: GroupToken_inject)
  have injm: "GroupToken g r = GroupPrefix @ g' \<longleftrightarrow> g = g' \<and> NormalizeRelation r = RelationMember"
    if "holds now (tuples s) email g' r'" for g' r'
    using holds_wf [OF assms(1) that] assms(2) GroupToken_inject [of g g' r RelationMember] by simp
  have "GroupToken g r \<noteq> UserPrefix @ email" by (simp add: GroupToken_def)
  then have "?L \<longleftrightarrow> (\<exists>r'. holds now (tuples s) email g r' \<and> NormalizeRelation r = RelationMember)
      \<or> (\<exists>r'. holds now (tuples s) email g r' \<and> r' \<noteq> RelationMember \<and> NormalizeRelation r = r')"
    unfolding set_GetUserTokens using inj injm by blast
  then show ?thesis by (auto simp: implies_def)
qed

lemma user_in_members_iff:
  assumes "wf_tuples (tuples s)"
  shows "UserPrefix @ e \<in> set (mem_GetAllMembers now s g r) \<longleftrightarrow>
    (\<exists>t. counts now (tuples s) g (NormalizeRelation r) t \<and> t_stype t = ''user'' \<and> t_sid t = e)"
proof -
  have eq: "UserPrefix @ e = tuple_token t \<longleftrightarrow> t_stype t = ''user'' \<and> t_sid t = e"
    if "counts now (tuples s) g r' t" for r' t
    using user_token_iff [OF wf_tuplesD [OF assms]] counts_tuple [OF that] by metis
  show ?thesis unfolding set_GetAllMembers mem_Collect_eq using eq by blast
qed

text \<open>Whoever is listed as a member holds the token.\<close>

lemma member_has_token:
  assumes "wf_tuples (tuples s)" "RelationSeparator \<notin> set g"
    and "UserPrefix @ e \<in> set (mem_GetAllMembers now s g r)"
  shows "GroupToken g r \<in> set (mem_GetUserTokens now s e)"
proof -
  from assms obtain t where t: "counts now (tuples s) g (NormalizeRelation r) t" "t_stype t = ''user''" "t_sid t = e"
    using iffD1 [OF user_in_members_iff [OF assms(1)] assms(3)] by blast
  then show ?thesis
    using counts_holds [OF assms(1) t(1)] assms by (auto simp: GroupToken_in_tokens)
qed

text \<open>And the other way round, for whoever no pattern rule matches.\<close>

lemma token_is_member:
  assumes "wf_tuples (tuples s)" "RelationSeparator \<notin> set g" "no_pattern now (tuples s) e"
    and "GroupToken g r \<in> set (mem_GetUserTokens now s e)"
  shows "UserPrefix @ e \<in> set (mem_GetAllMembers now s g r)"
proof -
  from assms obtain r' where "holds now (tuples s) e g r'" "implies r' (NormalizeRelation r)"
    by (auto simp: GroupToken_in_tokens)
  from holds_counts [OF assms(1) this(1) assms(3) this(2)] show ?thesis
    unfolding user_in_members_iff [OF assms(1)] by simp
qed

section \<open>Time\<close>

text \<open>As time passes over an unchanged store, memberships only end.\<close>

lemma live_antimono: "now \<le> later \<Longrightarrow> live later t \<Longrightarrow> live now t"
  by (auto simp: live_def live_at_def split: option.splits)

lemma holds_antimono: "holds later ts email g r \<Longrightarrow> now \<le> later \<Longrightarrow> holds now ts email g r"
proof (induction rule: holds.induct)
  case (direct t)
  then have "t \<in> set (user_hits now ts email)" by (auto simp: user_hits_def dest: live_antimono)
  then show ?case by (rule holds.direct)
next
  case (via g r t)
  then have "t \<in> set (parent_hits now ts (g, r))" by (auto simp: parent_hits_def dest: live_antimono)
  with via show ?case by (blast intro: holds.via)
qed

end
