(* ===== verification/Store.thy ===== *)
theory Store
  imports Membership
begin

text \<open>
  The interface \<open>storage.Store\<close> (\<open>internal/storage/postgres.go\<close>): the record of its operations
  that the service and the sync engine are given, and what they may rely on.

  An operation that writes returns the next state of the store, or an error and then the store is
  as it was (a failing call of the in-memory store changes nothing, one of the database is one
  transaction). What an operation does is said over a view of the store: its groups, sources,
  entries (a partial function on keys, so an entry exists once), managers and history, with one
  \<open>spec_\<dots>\<close> function per writing operation. The locale \<open>store\<close> holds the laws of a call that
  succeeds; \<open>reliable_store\<close> adds that calls succeed whenever their arguments allow it.

  The contract is met by the in-memory store: see the theory MemoryContract.
\<close>

section \<open>The view\<close>

record Entry =
  en_source :: "uuid option"
  en_expires :: "time option"

record StoreView =
  v_groups :: "string \<Rightarrow> Group option"
  v_sources :: "uuid \<Rightarrow> Source option"
  v_entries :: "TupleKey \<Rightarrow> Entry option"
  v_managers :: "string \<Rightarrow> string set"
  v_history :: "Change list"

text \<open>The key of an entry as the operations are told it: group, relation, member type, member id.\<close>

definition entry_key :: "string \<Rightarrow> string \<Rightarrow> string \<Rightarrow> string \<Rightarrow> TupleKey" where
  "entry_key groupID relation memberType memberID =
     pair_key \<lparr>p_group = groupID, p_relation = relation, p_type = memberType, p_member = memberID\<rparr>"

definition key_in_or_of :: "string \<Rightarrow> TupleKey \<Rightarrow> bool" where
  "key_in_or_of i k \<longleftrightarrow> k_group k = i \<or> (k_type k = ''group'' \<and> k_sid k = i)"

text \<open>Who holds what, over the entries.\<close>

definition entry_live :: "time \<Rightarrow> StoreView \<Rightarrow> TupleKey \<Rightarrow> bool" where
  "entry_live now v k \<longleftrightarrow> (\<exists>e. v_entries v k = Some e \<and> live_at now (en_expires e))"

inductive in_group :: "time \<Rightarrow> StoreView \<Rightarrow> string \<Rightarrow> string \<Rightarrow> string \<Rightarrow> bool"
  for now v email where
  entered: "entry_live now v k \<Longrightarrow>
     (k_type k = ''user'' \<and> k_sid k = email) \<or> (k_type k = ''pattern'' \<and> MatchEmailPattern (k_sid k) email) \<Longrightarrow>
     in_group now v email (k_group k) (k_rel k)"
| nested: "in_group now v email g r \<Longrightarrow> entry_live now v k \<Longrightarrow> k_type k = ''group'' \<Longrightarrow> k_sid k = g \<Longrightarrow>
     implies r (k_srel k) \<Longrightarrow> in_group now v email (k_group k) (k_rel k)"

inductive counts_in :: "time \<Rightarrow> StoreView \<Rightarrow> string \<Rightarrow> string \<Rightarrow> TupleKey \<Rightarrow> bool"
  for now v where
  listed: "entry_live now v k \<Longrightarrow> k_type k \<noteq> ''pattern'' \<Longrightarrow> relationMatches (k_rel k) (filterFor r) \<Longrightarrow>
     counts_in now v (k_group k) r k"
| below: "entry_live now v k \<Longrightarrow> k_type k = ''group'' \<Longrightarrow> relationMatches (k_rel k) (filterFor r) \<Longrightarrow>
     counts_in now v (k_sid k) (k_srel k) u \<Longrightarrow> counts_in now v (k_group k) r u"

section \<open>What the writing operations do\<close>

definition spec_CreateGroup :: "time \<Rightarrow> Group \<Rightarrow> StoreView \<Rightarrow> StoreView" where
  "spec_CreateGroup now g v = v\<lparr>v_groups := (v_groups v)(g_id g \<mapsto>
     g\<lparr>g_created := now, g_updated := now, g_token := GroupPrefix @ g_id g\<rparr>)\<rparr>"

definition spec_UpdateGroup :: "time \<Rightarrow> string \<Rightarrow> string \<Rightarrow> string \<Rightarrow> StoreView \<Rightarrow> StoreView" where
  "spec_UpdateGroup now i displayName description v = v\<lparr>v_groups := (v_groups v)(i :=
     map_option (\<lambda>g. g\<lparr>g_display := displayName, g_desc := description, g_updated := now\<rparr>) (v_groups v i))\<rparr>"

definition spec_DeleteGroup :: "string \<Rightarrow> StoreView \<Rightarrow> StoreView" where
  "spec_DeleteGroup i v = v\<lparr>
     v_groups := (v_groups v)(i := None),
     v_entries := (\<lambda>k. if key_in_or_of i k then None else v_entries v k),
     v_managers := (\<lambda>g. if g = i then {} else {t \<in> v_managers v g. \<not> names_group i t})\<rparr>"

definition spec_AddMember :: "TupleKey \<Rightarrow> uuid option \<Rightarrow> time option \<Rightarrow> StoreView \<Rightarrow> StoreView" where
  "spec_AddMember k sourceID expiresAt v = v\<lparr>v_entries := (v_entries v)(k \<mapsto>
     (case v_entries v k of None \<Rightarrow> \<lparr>en_source = sourceID, en_expires = expiresAt\<rparr>
      | Some e \<Rightarrow> e\<lparr>en_expires := expiresAt\<rparr>))\<rparr>"

definition spec_RemoveMember :: "TupleKey \<Rightarrow> StoreView \<Rightarrow> StoreView" where
  "spec_RemoveMember k v = v\<lparr>v_entries := (v_entries v)(k := None)\<rparr>"

text \<open>The entry at \<open>old\<close> becomes the one at \<open>target\<close>; an entry there lives on as long as either.\<close>

definition spec_ChangeRelation :: "TupleKey \<Rightarrow> TupleKey \<Rightarrow> StoreView \<Rightarrow> StoreView" where
  "spec_ChangeRelation old target v =
     (if old = target then v else v\<lparr>v_entries := (v_entries v)(old := None, target :=
        (case v_entries v target of None \<Rightarrow> v_entries v old
         | Some e \<Rightarrow> map_option (\<lambda>o'. e\<lparr>en_expires := laterExpiry (en_expires o') (en_expires e)\<rparr>) (v_entries v old)))\<rparr>)"

definition spec_AddManager :: "string \<Rightarrow> string \<Rightarrow> StoreView \<Rightarrow> StoreView" where
  "spec_AddManager i token v = v\<lparr>v_managers := (v_managers v)(i := insert token (v_managers v i))\<rparr>"

definition spec_RemoveManager :: "string \<Rightarrow> string \<Rightarrow> StoreView \<Rightarrow> StoreView" where
  "spec_RemoveManager i token v = v\<lparr>v_managers := (v_managers v)(i := v_managers v i - {token})\<rparr>"

definition spec_AddChange :: "time \<Rightarrow> uuid \<Rightarrow> Change \<Rightarrow> StoreView \<Rightarrow> StoreView" where
  "spec_AddChange now new c v = v\<lparr>v_history := v_history v @
     [c\<lparr>c_id := (if c_id c = 0 then new else c_id c), c_at := (if c_at c = 0 then now else c_at c)\<rparr>]\<rparr>"

definition spec_MoveToSource :: "uuid option \<Rightarrow> uuid \<Rightarrow> StoreView \<Rightarrow> StoreView" where
  "spec_MoveToSource from to v = v\<lparr>
     v_groups := (\<lambda>i. map_option (\<lambda>g. if g_source g = from then g\<lparr>g_source := Some to\<rparr> else g) (v_groups v i)),
     v_entries := (\<lambda>k. map_option (\<lambda>e. if en_source e = from then e\<lparr>en_source := Some to\<rparr> else e) (v_entries v k))\<rparr>"

text \<open>The source's entries afterwards are exactly those of the import; one kept keeps its expiry.\<close>

definition replaced_entries :: "uuid \<Rightarrow> TuplePair list \<Rightarrow> (TupleKey \<Rightarrow> Entry option) \<Rightarrow> TupleKey \<Rightarrow> Entry option" where
  "replaced_entries sourceID ps E k =
     (if k \<in> pair_key ` set ps
      then (case E k of None \<Rightarrow> Some \<lparr>en_source = Some sourceID, en_expires = None\<rparr> | Some e \<Rightarrow> Some e)
      else (case E k of None \<Rightarrow> None | Some e \<Rightarrow> if en_source e = Some sourceID then None else Some e))"

definition spec_DeleteSource :: "uuid \<Rightarrow> StoreView \<Rightarrow> StoreView" where
  "spec_DeleteSource i v = v\<lparr>
     v_entries := (\<lambda>k. case v_entries v k of None \<Rightarrow> None | Some e \<Rightarrow> if en_source e = Some i then None else Some e),
     v_groups := (\<lambda>g. map_option (\<lambda>x. if g_source x = Some i then x\<lparr>g_source := None\<rparr> else x) (v_groups v g)),
     v_sources := (v_sources v)(i := None)\<rparr>"


text \<open>
  An imported group that is missing is created for the source, the description of one that exists
  follows the import; a group of the source that nothing mentions and nobody manages goes.
\<close>

definition synced_group :: "time \<Rightarrow> uuid \<Rightarrow> (string, string) gomap \<Rightarrow> string \<Rightarrow> Group option \<Rightarrow> Group option" where
  "synced_group now sourceID descriptions i og = lookup (sync_group now sourceID descriptions i
     (case og of None \<Rightarrow> [] | Some g \<Rightarrow> [(i, g)])) i"

definition mentioned :: "(TupleKey \<Rightarrow> Entry option) \<Rightarrow> (string \<Rightarrow> string set) \<Rightarrow> string \<Rightarrow> bool" where
  "mentioned E M i \<longleftrightarrow> (\<exists>k \<in> dom E. key_in_or_of i k) \<or> (\<exists>g. \<exists>t \<in> M g. names_group i t)"

definition replaced_groups :: "time \<Rightarrow> uuid \<Rightarrow> TuplePair list \<Rightarrow> (string, string) gomap \<Rightarrow> StoreView
    \<Rightarrow> string \<Rightarrow> Group option" where
  "replaced_groups now sourceID ps descriptions v i =
     (case (if i \<in> p_group ` set ps then synced_group now sourceID descriptions i (v_groups v i) else v_groups v i) of
        None \<Rightarrow> None
      | Some g \<Rightarrow> if g_source g = Some sourceID \<and> v_managers v i = {}
                    \<and> \<not> mentioned (replaced_entries sourceID ps (v_entries v)) (v_managers v) i
                  then None else Some g)"

definition spec_ReplaceTuples :: "time \<Rightarrow> uuid \<Rightarrow> TuplePair list \<Rightarrow> (string, string) gomap \<Rightarrow> StoreView \<Rightarrow> StoreView" where
  "spec_ReplaceTuples now sourceID ps descriptions v = v\<lparr>
     v_groups := replaced_groups now sourceID ps descriptions v,
     v_entries := replaced_entries sourceID ps (v_entries v)\<rparr>"

section \<open>The operations\<close>

record 's StoreOps =
  st_CreateGroup :: "time \<Rightarrow> Group \<Rightarrow> 's \<Rightarrow> error + ('s \<times> Group)"
  st_GetGroup :: "'s \<Rightarrow> string \<Rightarrow> error + Group"
  st_ListGroups :: "'s \<Rightarrow> string \<Rightarrow> uuid option \<Rightarrow> int \<Rightarrow> error + Group list"
  st_UpdateGroup :: "time \<Rightarrow> string \<Rightarrow> string \<Rightarrow> string \<Rightarrow> 's \<Rightarrow> error + 's"
  st_DeleteGroup :: "string \<Rightarrow> 's \<Rightarrow> error + 's"
  st_GroupRelations :: "time \<Rightarrow> 's \<Rightarrow> error + (string, string list) gomap"
  st_GroupOwners :: "'s \<Rightarrow> string list \<Rightarrow> error + (string, uuid option) gomap"
  st_AddMember :: "time \<Rightarrow> uuid \<Rightarrow> string \<Rightarrow> string \<Rightarrow> string \<Rightarrow> string \<Rightarrow> uuid option \<Rightarrow> time option \<Rightarrow> 's \<Rightarrow> error + 's"
  st_RemoveMember :: "string \<Rightarrow> string \<Rightarrow> string \<Rightarrow> string \<Rightarrow> 's \<Rightarrow> error + 's"
  st_ChangeRelation :: "string \<Rightarrow> string \<Rightarrow> string \<Rightarrow> string \<Rightarrow> string \<Rightarrow> 's \<Rightarrow> error + 's"
  st_GetDirectMembers :: "time \<Rightarrow> 's \<Rightarrow> string \<Rightarrow> string \<Rightarrow> error + string list"
  st_ListMemberships :: "time \<Rightarrow> 's \<Rightarrow> string \<Rightarrow> error + Membership list"
  st_GetAllMembers :: "time \<Rightarrow> 's \<Rightarrow> string \<Rightarrow> string \<Rightarrow> error + string list"
  st_GetUserTokens :: "time \<Rightarrow> 's \<Rightarrow> string \<Rightarrow> error + string list"
  st_SearchUsers :: "time \<Rightarrow> 's \<Rightarrow> string \<Rightarrow> int \<Rightarrow> error + string list"
  st_CreateSource :: "time \<Rightarrow> Source \<Rightarrow> 's \<Rightarrow> error + 's"
  st_GetSource :: "'s \<Rightarrow> uuid \<Rightarrow> error + Source"
  st_ListSources :: "'s \<Rightarrow> error + Source list"
  st_UpdateSource :: "time \<Rightarrow> Source \<Rightarrow> 's \<Rightarrow> error + 's"
  st_DeleteSource :: "uuid \<Rightarrow> 's \<Rightarrow> error + 's"
  st_UpdateSourceSyncStatus :: "time \<Rightarrow> uuid \<Rightarrow> string \<Rightarrow> time \<Rightarrow> 's \<Rightarrow> error + 's"
  st_CreateSyncLog :: "SyncLog \<Rightarrow> 's \<Rightarrow> error + 's"
  st_UpdateSyncLog :: "SyncLog \<Rightarrow> 's \<Rightarrow> error + 's"
  st_ListSyncLogs :: "'s \<Rightarrow> uuid \<Rightarrow> int \<Rightarrow> error + SyncLog list"
  st_ReplaceTuples :: "time \<Rightarrow> (nat \<Rightarrow> uuid) \<Rightarrow> uuid \<Rightarrow> TuplePair list \<Rightarrow> (string, string) gomap \<Rightarrow> 's
      \<Rightarrow> error + ('s \<times> nat \<times> nat)"
  st_MoveToSource :: "uuid option \<Rightarrow> uuid \<Rightarrow> 's \<Rightarrow> error + ('s \<times> string list)"
  st_ListManagers :: "'s \<Rightarrow> string \<Rightarrow> error + Manager list"
  st_AddManager :: "time \<Rightarrow> string \<Rightarrow> Manager \<Rightarrow> 's \<Rightarrow> error + 's"
  st_RemoveManager :: "string \<Rightarrow> string \<Rightarrow> 's \<Rightarrow> error + 's"
  st_ManagedGroups :: "'s \<Rightarrow> string list \<Rightarrow> error + string list"
  st_GroupEdges :: "time \<Rightarrow> 's \<Rightarrow> error + Edge list"
  st_AddChange :: "time \<Rightarrow> uuid \<Rightarrow> Change \<Rightarrow> 's \<Rightarrow> error + 's"
  st_ListChanges :: "'s \<Rightarrow> string \<Rightarrow> int \<Rightarrow> error + Change list"

definition view_edges :: "time \<Rightarrow> StoreView \<Rightarrow> Edge set" where
  "view_edges now v = {Edge (k_group k) (k_sid k) | k. entry_live now v k \<and> k_type k = ''group''}"

section \<open>The contract\<close>

locale store =
  fixes ops :: "'s StoreOps" and view :: "'s \<Rightarrow> StoreView" and ok :: "'s \<Rightarrow> bool"
  assumes CreateGroup: "ok s \<Longrightarrow> st_CreateGroup ops now g s = Inr (s', g') \<Longrightarrow>
      ok s' \<and> v_groups (view s) (g_id g) = None \<and> view s' = spec_CreateGroup now g (view s)
      \<and> v_groups (view s') (g_id g) = Some g'"
    and UpdateGroup: "ok s \<Longrightarrow> st_UpdateGroup ops now i d desc s = Inr s' \<Longrightarrow>
      ok s' \<and> v_groups (view s) i \<noteq> None \<and> view s' = spec_UpdateGroup now i d desc (view s)"
    and DeleteGroup: "ok s \<Longrightarrow> st_DeleteGroup ops i s = Inr s' \<Longrightarrow> ok s' \<and> view s' = spec_DeleteGroup i (view s)"
    and AddMember: "ok s \<Longrightarrow> st_AddMember ops now new i r ty m jo ex s = Inr s' \<Longrightarrow>
      ok s' \<and> view s' = spec_AddMember (entry_key i r ty m) jo ex (view s)"
    and RemoveMember: "ok s \<Longrightarrow> st_RemoveMember ops i r ty m s = Inr s' \<Longrightarrow>
      ok s' \<and> view s' = spec_RemoveMember (entry_key i r ty m) (view s)"
    and ChangeRelation: "ok s \<Longrightarrow> st_ChangeRelation ops i ty m from' to' s = Inr s' \<Longrightarrow>
      ok s' \<and> v_entries (view s) (entry_key i from' ty m) \<noteq> None
      \<and> view s' = spec_ChangeRelation (entry_key i from' ty m) (entry_key i to' ty m) (view s)"
    and ReplaceTuples: "ok s \<Longrightarrow>
      (\<And>p e. p \<in> set ps \<Longrightarrow> v_entries (view s) (pair_key p) = Some e \<Longrightarrow> en_source e = Some j) \<Longrightarrow>
      st_ReplaceTuples ops now ids j ps descs s = Inr (s', n, n') \<Longrightarrow>
      ok s' \<and> view s' = spec_ReplaceTuples now j ps descs (view s)"
    and MoveToSource: "ok s \<Longrightarrow> st_MoveToSource ops jo j s = Inr (s', is) \<Longrightarrow>
      ok s' \<and> view s' = spec_MoveToSource jo j (view s)
      \<and> set is = {i. \<exists>g. v_groups (view s) i = Some g \<and> g_source g = jo}"
    and AddManager: "ok s \<Longrightarrow> st_AddManager ops now i mg s = Inr s' \<Longrightarrow>
      ok s' \<and> view s' = spec_AddManager i (m_token mg) (view s)"
    and RemoveManager: "ok s \<Longrightarrow> st_RemoveManager ops i t s = Inr s' \<Longrightarrow>
      ok s' \<and> view s' = spec_RemoveManager i t (view s)"
    and AddChange: "ok s \<Longrightarrow> st_AddChange ops now new c s = Inr s' \<Longrightarrow>
      ok s' \<and> view s' = spec_AddChange now new c (view s)"
    and DeleteSource: "ok s \<Longrightarrow> st_DeleteSource ops j s = Inr s' \<Longrightarrow> ok s' \<and> view s' = spec_DeleteSource j (view s)"
    and CreateSyncLog: "ok s \<Longrightarrow> st_CreateSyncLog ops l s = Inr s' \<Longrightarrow> ok s' \<and> view s' = view s"
    and UpdateSyncLog: "ok s \<Longrightarrow> st_UpdateSyncLog ops l s = Inr s' \<Longrightarrow> ok s' \<and> view s' = view s"
    and UpdateSourceSyncStatus: "ok s \<Longrightarrow> st_UpdateSourceSyncStatus ops now j st at s = Inr s' \<Longrightarrow>
      ok s' \<and> view s' = (view s)\<lparr>v_sources := (v_sources (view s))(j :=
        map_option (\<lambda>src. src\<lparr>s_last_status := st, s_last_synced := Some at, s_updated := now\<rparr>) (v_sources (view s) j))\<rparr>"
    and GetGroup: "ok s \<Longrightarrow> st_GetGroup ops s i = Inr g \<Longrightarrow> v_groups (view s) i = Some g \<and> g_id g = i"
    and GetSource: "ok s \<Longrightarrow> st_GetSource ops s j = Inr src \<Longrightarrow> v_sources (view s) j = Some src \<and> s_id src = j"
    and ListSources: "ok s \<Longrightarrow> st_ListSources ops s = Inr srcs \<Longrightarrow> set srcs = ran (v_sources (view s))"
    and ListManagers: "ok s \<Longrightarrow> st_ListManagers ops s i = Inr ms \<Longrightarrow> m_token ` set ms = v_managers (view s) i"
    and ManagedGroups: "ok s \<Longrightarrow> st_ManagedGroups ops s ts = Inr is \<Longrightarrow>
      set is = {i. v_managers (view s) i \<inter> set ts \<noteq> {}}"
    and GroupEdges: "ok s \<Longrightarrow> st_GroupEdges ops now s = Inr es \<Longrightarrow> set es = view_edges now (view s)"
    and GroupOwners: "ok s \<Longrightarrow> st_GroupOwners ops s is = Inr out \<Longrightarrow>
      lookup out i = (if i \<in> set is then map_option g_source (v_groups (view s) i) else None)"
    and AllGroups: "ok s \<Longrightarrow> st_ListGroups ops s [] None 0 = Inr gs \<Longrightarrow> set gs = ran (v_groups (view s))"
    and GetUserTokens: "ok s \<Longrightarrow> st_GetUserTokens ops now s email = Inr toks \<Longrightarrow>
      set toks = {UserPrefix @ email} \<union> {GroupPrefix @ i | i r. in_group now (view s) email i r}
        \<union> {GroupToken i r | i r. in_group now (view s) email i r \<and> r \<noteq> RelationMember}"
    and GetAllMembers: "ok s \<Longrightarrow> st_GetAllMembers ops now s i r = Inr toks \<Longrightarrow>
      set toks = {memberToken (k_type k) (k_sid k) (k_srel k) | k. counts_in now (view s) i (NormalizeRelation r) k}"

text \<open>A store whose calls only fail for the reasons the interface names.\<close>

locale reliable_store = store +
  assumes CreateGroup_total: "ok s \<Longrightarrow> v_groups (view s) (g_id g) = None \<Longrightarrow> \<exists>x. st_CreateGroup ops now g s = Inr x"
    and UpdateGroup_total: "ok s \<Longrightarrow> v_groups (view s) i \<noteq> None \<Longrightarrow> \<exists>x. st_UpdateGroup ops now i d desc s = Inr x"
    and DeleteGroup_total: "\<exists>x. st_DeleteGroup ops i s = Inr x"
    and AddMember_total: "\<exists>x. st_AddMember ops now new i r ty m jo ex s = Inr x"
    and RemoveMember_total: "\<exists>x. st_RemoveMember ops i r ty m s = Inr x"
    and ChangeRelation_total: "ok s \<Longrightarrow> st_ChangeRelation ops i ty m from' to' s = Inl e \<Longrightarrow>
      e = ErrRecordNotFound \<and> v_entries (view s) (entry_key i from' ty m) = None"
    and AddManager_total: "\<exists>x. st_AddManager ops now i mg s = Inr x"
    and RemoveManager_total: "\<exists>x. st_RemoveManager ops i t s = Inr x"
    and AddChange_total: "\<exists>x. st_AddChange ops now new c s = Inr x"
    and ReplaceTuples_total: "\<exists>x. st_ReplaceTuples ops now ids j ps descs s = Inr x"
    and MoveToSource_total: "\<exists>x. st_MoveToSource ops jo j s = Inr x"
    and GetGroup_total: "ok s \<Longrightarrow> st_GetGroup ops s i = Inl e \<Longrightarrow> e = ErrRecordNotFound \<and> v_groups (view s) i = None"
    and GetSource_total: "ok s \<Longrightarrow> v_sources (view s) j \<noteq> None \<Longrightarrow> \<exists>x. st_GetSource ops s j = Inr x"
    and ListSources_total: "\<exists>x. st_ListSources ops s = Inr x"
    and ListManagers_total: "\<exists>x. st_ListManagers ops s i = Inr x"
    and ManagedGroups_total: "\<exists>x. st_ManagedGroups ops s ts = Inr x"
    and GroupEdges_total: "\<exists>x. st_GroupEdges ops now s = Inr x"
    and GroupOwners_total: "\<exists>x. st_GroupOwners ops s is = Inr x"
    and GetUserTokens_total: "\<exists>x. st_GetUserTokens ops now s email = Inr x"
    and GetAllMembers_total: "\<exists>x. st_GetAllMembers ops now s i r = Inr x"

end
