(* ===== verification/Catalog.thy ===== *)
theory Catalog
  imports Glob Store "HOL-Library.Product_Lexorder"
begin

text \<open>
  \<open>internal/catalog\<close>: the search query (\<open>query.go\<close>) and the in-memory snapshot of the groups that
  answers it (\<open>cache.go\<close>), with its loader (\<open>app.go\<close>). Strings are UTF-8 bytes; lower-casing
  inside \<open>fold_text\<close> covers ASCII and the two-byte letters of Latin-1, among them the umlauts the
  folder spells out. White space and trimming are ASCII.

  The lemmas: a wildcard term matches a field or one of its words as the glob promises; what
  \<open>score\<close> counts; \<open>Search\<close> returns exactly the entries that answer every clause, best first, an
  exact id before everything else.
\<close>

section \<open>Folding\<close>

text \<open>\<open>strings.ToLower\<close>: after the byte C3, the bytes 80 to 9E but 97 are capital letters.\<close>

definition latin_lower :: "char \<Rightarrow> char" where
  "latin_lower c = (let n = of_char c :: nat in
     if 0x80 \<le> n \<and> n \<le> 0x9E \<and> n \<noteq> 0x97 then char_of (n + 0x20) else c)"

fun ToLower :: "string \<Rightarrow> string" where
  "ToLower [] = []"
| "ToLower [c] = [lower_char c]"
| "ToLower (c # d # s) = (if c = CHR 0xC3 then c # latin_lower d # ToLower s else lower_char c # ToLower (d # s))"

text \<open>The \<open>strings.NewReplacer\<close> of the umlauts.\<close>

fun folder_Replace :: "string \<Rightarrow> string" where
  "folder_Replace [] = []"
| "folder_Replace [c] = [c]"
| "folder_Replace (c # d # s) =
     (if c = CHR 0xC3 \<and> d = CHR 0xA4 then ''ae'' @ folder_Replace s
      else if c = CHR 0xC3 \<and> d = CHR 0xB6 then ''oe'' @ folder_Replace s
      else if c = CHR 0xC3 \<and> d = CHR 0xBC then ''ue'' @ folder_Replace s
      else if c = CHR 0xC3 \<and> d = CHR 0x9F then ''ss'' @ folder_Replace s
      else c # folder_Replace (d # s))"

definition fold_text :: "string \<Rightarrow> string" where
  "fold_text s = folder_Replace (ToLower s)"

section \<open>Terms\<close>

record Term =
  tm_text :: string
  tm_glob :: "rx option"

text \<open>The wildcard expression: the quoted parts joined by \<open>.*\<close>.\<close>

fun join_parts :: "string list \<Rightarrow> rx" where
  "join_parts [] = Empty"
| "join_parts [p] = foldr (\<lambda>c r. Seq (Lit c) r) p Empty"
| "join_parts (p # q # ps) = foldr (\<lambda>c r. Seq (Lit c) r) p (Seq (Star AnyChar) (join_parts (q # ps)))"

definition newTerm :: "string \<Rightarrow> Term option" where
  "newTerm raw =
     (let text = fold_text (trim_prefix (trim_space raw) ''group:'') in
      if trim_both (\<lambda>c. c = CHR ''*'') text = [] then None
      else if \<not> contains_str text ''*'' then Some \<lparr>tm_text = text, tm_glob = None\<rparr>
      else Some \<lparr>tm_text = text, tm_glob = Some (join_parts (split_on (CHR ''*'') text))\<rparr>)"

text \<open>\<open>strings.FieldsFunc\<close>: the non-empty runs between separators.\<close>

fun fields_acc :: "(char \<Rightarrow> bool) \<Rightarrow> string \<Rightarrow> string \<Rightarrow> string list" where
  "fields_acc sep [] w = (if w = [] then [] else [rev w])"
| "fields_acc sep (c # s) w =
     (if sep c then (if w = [] then fields_acc sep s [] else rev w # fields_acc sep s [])
      else fields_acc sep s (c # w))"

definition FieldsFunc :: "(char \<Rightarrow> bool) \<Rightarrow> string \<Rightarrow> string list" where
  "FieldsFunc sep s = fields_acc sep s []"

definition word_sep :: "char \<Rightarrow> bool" where
  "word_sep c \<longleftrightarrow> c = CHR '' '' \<or> c = CHR ''('' \<or> c = CHR '')'' \<or> c = CHR '',''"

definition term_matches :: "Term \<Rightarrow> string list \<Rightarrow> bool" where
  "term_matches t flds \<longleftrightarrow> (\<exists>f \<in> set flds.
     case tm_glob t of
       None \<Rightarrow> contains_str f (tm_text t)
     | Some re \<Rightarrow> rx_match re f \<or> (\<exists>w \<in> set (FieldsFunc word_sep f). rx_match re w))"

section \<open>Queries\<close>

type_synonym query = "Term list list"

definition andWords :: "string list" where "andWords = [''und'', ''and'', ''&'']"
definition orWords :: "string list" where "orWords = [''oder'', ''or'', ''|'']"

definition cutQuoted :: "string \<Rightarrow> string \<times> (string \<times> string) option" where
  "cutQuoted s = (case cut (CHR 0x22) s of None \<Rightarrow> (s, None)
     | Some (front, after) \<Rightarrow> (front, Some (case cut (CHR 0x22) after of
           None \<Rightarrow> (after, []) | Some (inner, rest) \<Rightarrow> (inner, rest))))"

lemma cutQuoted_shorter: "cutQuoted s = (front, Some (inner, rest)) \<Longrightarrow> length rest < length s"
  by (auto simp: cutQuoted_def split: option.splits dest!: cut_SomeD)

text \<open>The words of a query, each with whether it was quoted.\<close>

function query_words :: "string \<Rightarrow> (string \<times> bool) list" where
  "query_words rest = (case cutQuoted rest of
     (front, None) \<Rightarrow> map (\<lambda>w. (w, False)) (FieldsFunc is_space front)
   | (front, Some (inner, rest')) \<Rightarrow>
       map (\<lambda>w. (w, False)) (FieldsFunc is_space front)
       @ (let q = trim_space inner in if q = [] then [] else [(q, True)])
       @ query_words rest')"
  by pat_completeness auto
termination
  by (relation "measure length") (auto dest: sym cutQuoted_shorter)

declare query_words.simps [simp del]

text \<open>\<open>orNext\<close> says whether the next term is an alternative to the last clause.\<close>

fun parse_words :: "(string \<times> bool) list \<Rightarrow> query \<Rightarrow> bool \<Rightarrow> query" where
  "parse_words [] q orNext = q"
| "parse_words ((text, phrase) # ws) q orNext =
     (if \<not> phrase \<and> ToLower text \<in> set andWords then parse_words ws q orNext
      else if \<not> phrase \<and> ToLower text \<in> set orWords then parse_words ws q (q \<noteq> [])
      else case newTerm (if phrase then text else trim_prefix text ''+'') of
        None \<Rightarrow> parse_words ws q orNext
      | Some t \<Rightarrow> parse_words ws (if orNext then butlast q @ [last q @ [t]] else q @ [[t]]) False)"

definition parseQuery :: "string \<Rightarrow> query" where
  "parseQuery raw = parse_words (query_words raw) [] False"

fun score_from :: "int \<Rightarrow> query \<Rightarrow> string list \<Rightarrow> int" where
  "score_from n [] flds = n"
| "score_from n (clause # q) flds =
     (let matched = length (filter (\<lambda>t. term_matches t flds) clause)
      in if matched = 0 then -1 else score_from (n + int matched) q flds)"

definition score :: "query \<Rightarrow> string list \<Rightarrow> int" where
  "score q flds = score_from 0 q flds"

definition exact :: "query \<Rightarrow> string \<Rightarrow> bool" where
  "exact q i \<longleftrightarrow> (case q of [[t]] \<Rightarrow> tm_glob t = None \<and> tm_text t = i | _ \<Rightarrow> False)"

section \<open>The snapshot\<close>

definition Refresh :: "error + Group list \<Rightarrow> Group list \<Rightarrow> error + Group list" where
  "Refresh loaded cache = (case loaded of Inl e \<Rightarrow> Inl e | Inr gs \<Rightarrow> Inr (sort_key g_id gs))"

text \<open>The middle dot is the two bytes C2 B7.\<close>

definition relationEntry :: "Group \<Rightarrow> string \<Rightarrow> Group" where
  "relationEntry g relation =
     (let i = g_id g @ RelationSeparator # relation;
          desc = (if g_desc g = [] then g_display g else g_desc g)
      in g\<lparr>g_id := i, g_token := GroupToken (g_id g) relation, g_display := i,
           g_desc := trim_space (desc @ [CHR '' '', CHR 0xC2, CHR 0xB7] @ '' Rolle: '' @ relation),
           g_relations := []\<rparr>)"

text \<open>What the search looks at: each group, and each relation of it, with its fields.\<close>

definition base_fields :: "Group \<Rightarrow> string list" where
  "base_fields g = [fold_text (g_id g), fold_text (g_display g), fold_text (g_desc g), fold_text (g_source_name g)]"

definition candidates :: "Group \<Rightarrow> (Group \<times> string list) list" where
  "candidates g = (g, base_fields g) #
     map (\<lambda>rel. (relationEntry g rel,
            base_fields g @ [fold_text rel, fold_text (g_id g) @ RelationSeparator # fold_text rel])) (g_relations g)"

definition consider_hit :: "query \<Rightarrow> Group \<times> string list \<Rightarrow> (Group \<times> int) list" where
  "consider_hit q c = (case c of (g, flds) \<Rightarrow>
     let s = score q flds in
     if s < 0 then [] else [(g, if exact q (fold_text (g_id g)) then s + 1000 else s)])"

definition Search :: "Group list \<Rightarrow> string \<Rightarrow> int \<Rightarrow> Group list" where
  "Search cache raw limit =
     (let q = parseQuery raw in
      if q = [] then limited limit cache
      else let hits = concat (map (consider_hit q) (concat (map candidates cache)))
           in map fst (limited limit (sort_key (\<lambda>h. (- snd h, g_id (fst h))) hits)))"

text \<open>The loader of \<open>app.go\<close>: the store's groups with their relations and the name of their source.\<close>

definition source_names :: "Source list \<Rightarrow> uuid \<Rightarrow> string" where
  "source_names srcs i = (case map_of (rev (map (\<lambda>s. (s_id s, s_name s)) srcs)) i of None \<Rightarrow> [] | Some n \<Rightarrow> n)"

definition with_source_name :: "(uuid \<Rightarrow> string) \<Rightarrow> Group \<Rightarrow> Group" where
  "with_source_name names g = (case g_source g of None \<Rightarrow> g | Some i \<Rightarrow> g\<lparr>g_source_name := names i\<rparr>)"

definition load_groups :: "'s StoreOps \<Rightarrow> time \<Rightarrow> 's \<Rightarrow> error + Group list" where
  "load_groups ops now s =
     bindE (st_ListGroups ops s [] None 0) (\<lambda>gs.
     bindE (st_GroupRelations ops now s) (\<lambda>rels.
     bindE (st_ListSources ops s) (\<lambda>srcs.
       Inr (map (\<lambda>g. with_source_name (source_names srcs) (g\<lparr>g_relations := lookup_default [] rels (g_id g)\<rparr>)) gs))))"


section \<open>Wildcard terms\<close>

lemma literal_rx: "CHR ''*'' \<notin> set p \<Longrightarrow> foldr (\<lambda>c r. Seq (Lit c) r) p X = foldr (\<lambda>c r. Seq (glob_item c) r) p X"
  by (induction p) (auto simp: glob_item_def)

lemma join_parts_split: "join_parts (split_on (CHR ''*'') t) = glob_rx t"
proof (induction "CHR ''*''" t rule: split_on.induct)
  case (1 t)
  show ?case
  proof (cases "cut (CHR ''*'') t")
    case None
    then show ?thesis
      by (subst split_on.simps) (simp add: cut_None_iff literal_rx glob_rx_def)
  next
    case (Some ab)
    obtain a b where ab: "ab = (a, b)" by force
    with Some have t: "t = a @ CHR ''*'' # b" "CHR ''*'' \<notin> set a" by (auto dest: cut_SomeD)
    have IH: "join_parts (split_on (CHR ''*'') b) = glob_rx b" using 1 Some ab by auto
    have "split_on (CHR ''*'') b \<noteq> []" by (subst split_on.simps) (simp split: option.split prod.split)
    then obtain q ps where q: "split_on (CHR ''*'') b = q # ps" by (cases "split_on (CHR ''*'') b") auto
    have "join_parts (split_on (CHR ''*'') t) = foldr (\<lambda>c r. Seq (Lit c) r) a (Seq (Star AnyChar) (glob_rx b))"
      using t IH q by (simp add: split_on_append)
    also have "\<dots> = glob_rx t"
      using t(2) by (simp add: t(1) glob_rx_def literal_rx glob_item_def)
    finally show ?thesis .
  qed
qed

lemma newTerm_Some:
  assumes "newTerm raw = Some t"
  shows "tm_text t = fold_text (trim_prefix (trim_space raw) ''group:'')"
    and "tm_glob t = (if CHR ''*'' \<in> set (tm_text t) then Some (glob_rx (tm_text t)) else None)"
  using assms by (auto simp: newTerm_def Let_def join_parts_split contains_str_char split: if_splits)

lemma term_matches_iff:
  assumes "newTerm raw = Some t"
  shows "term_matches t flds \<longleftrightarrow> (\<exists>f \<in> set flds.
    if CHR ''*'' \<in> set (tm_text t)
    then \<exists>w \<in> insert f (set (FieldsFunc word_sep f)). glob_matches (tm_text t) w
    else contains_str f (tm_text t))"
  by (simp add: term_matches_def newTerm_Some [OF assms] rx_match_iff glob_rx_lang)

section \<open>Scores\<close>

definition answers :: "query \<Rightarrow> string list \<Rightarrow> bool" where
  "answers q flds \<longleftrightarrow> (\<forall>clause \<in> set q. \<exists>t \<in> set clause. term_matches t flds)"

lemma score_from_eq:
  "score_from n q flds = (if answers q flds then n + int (length (filter (\<lambda>t. term_matches t flds) (concat q))) else -1)"
proof (induction q arbitrary: n)
  case (Cons clause q)
  have "length (filter (\<lambda>t. term_matches t flds) clause) = 0 \<longleftrightarrow> \<not> (\<exists>t \<in> set clause. term_matches t flds)"
    by (auto simp: filter_empty_conv)
  with Cons show ?case by (auto simp: answers_def Let_def)
qed (simp add: answers_def)

lemma score_eq:
  "score q flds = (if answers q flds then int (length (filter (\<lambda>t. term_matches t flds) (concat q))) else -1)"
  by (simp add: score_def score_from_eq)

section \<open>Search\<close>

lemma consider_hit_set:
  "set (consider_hit q c) = (if answers q (snd c)
     then {(fst c, score q (snd c) + (if exact q (fold_text (g_id (fst c))) then 1000 else 0))} else {})"
  by (cases c) (auto simp: consider_hit_def Let_def score_eq)

lemma fst_consider_hit: "fst ` set (consider_hit q c) = (if answers q (snd c) then {fst c} else {})"
  by (simp add: consider_hit_set)

lemma set_limited_nonpos: "limit \<le> 0 \<Longrightarrow> set (limited limit xs) = set xs"
  by simp

lemma UN_if: "(\<Union>x \<in> A. if P x then {f x} else {}) = {f x | x. x \<in> A \<and> P x}"
  by auto

lemma Search_set:
  assumes "parseQuery raw \<noteq> []"
  shows "set (Search cache raw limit) \<subseteq>
      (\<Union>g \<in> set cache. {fst c | c. c \<in> set (candidates g) \<and> answers (parseQuery raw) (snd c)})"
    and "limit \<le> 0 \<Longrightarrow> set (Search cache raw limit) =
      (\<Union>g \<in> set cache. {fst c | c. c \<in> set (candidates g) \<and> answers (parseQuery raw) (snd c)})"
proof -
  let ?q = "parseQuery raw"
  let ?hits = "concat (map (consider_hit ?q) (concat (map candidates cache)))"
  have hits: "fst ` set ?hits =
      (\<Union>g \<in> set cache. {fst c | c. c \<in> set (candidates g) \<and> answers ?q (snd c)})"
  proof -
    have "fst ` set ?hits = (\<Union>g \<in> set cache. \<Union>c \<in> set (candidates g). fst ` set (consider_hit ?q c))"
      by auto
    also have "\<dots> = (\<Union>g \<in> set cache. \<Union>c \<in> set (candidates g). if answers ?q (snd c) then {fst c} else {})"
      by (simp only: fst_consider_hit)
    finally show ?thesis by (simp only: UN_if)
  qed
  let ?sorted = "sort_key (\<lambda>h. (- snd h, g_id (fst h))) ?hits"
  have "Search cache raw limit = map fst (limited limit ?sorted)"
    using assms by (simp add: Search_def Let_def)
  then have set: "set (Search cache raw limit) = fst ` set (limited limit ?sorted)" by simp
  show "set (Search cache raw limit) \<subseteq>
      (\<Union>g \<in> set cache. {fst c | c. c \<in> set (candidates g) \<and> answers ?q (snd c)})"
    unfolding set hits [symmetric] using image_mono [OF set_limited [of limit ?sorted], of fst]
    by (simp only: set_sort)
  show "set (Search cache raw limit) =
      (\<Union>g \<in> set cache. {fst c | c. c \<in> set (candidates g) \<and> answers ?q (snd c)})" if "limit \<le> 0"
    unfolding set hits [symmetric] limited_le [OF that] by (simp only: set_sort)
qed

lemma Search_empty: "parseQuery raw = [] \<Longrightarrow> Search cache raw limit = limited limit cache"
  by (simp add: Search_def)

lemma Search_length: "limit > 0 \<Longrightarrow> int (length (Search cache raw limit)) \<le> limit"
  by (simp add: Search_def Let_def length_limited)

lemma hd_limited: "xs \<noteq> [] \<Longrightarrow> limited limit xs \<noteq> [] \<and> hd (limited limit xs) = hd xs"
  by (cases xs) (auto simp: limited_def take_Cons' split: if_splits)

lemma hd_sorted: "sorted (map f ys) \<Longrightarrow> x \<in> set ys \<Longrightarrow> f (hd ys) \<le> f x"
  by (cases ys) auto

lemma hd_sort_key: "x \<in> set xs \<Longrightarrow> f (hd (sort_key f xs)) \<le> f x"
  by (rule hd_sorted) simp_all

lemma contains_str_refl: "contains_str s s"
  unfolding contains_str_iff by (rule exI [of _ "[]"], rule exI [of _ "[]"]) simp

lemma hit_exact:
  assumes "h \<in> set (consider_hit q c)" "1001 \<le> snd h" "score q (snd c) \<le> 1"
  shows "exact q (fold_text (g_id (fst h)))"
  using assms by (auto simp: consider_hit_set split: if_splits)

text \<open>A pasted id comes first, whatever else matches.\<close>

lemma Search_exact_first:
  assumes "exact (parseQuery raw) (fold_text (g_id g))" and "g \<in> set cache"
  shows "Search cache raw limit \<noteq> [] \<and> fold_text (g_id (hd (Search cache raw limit))) = fold_text (g_id g)"
proof -
  let ?q = "parseQuery raw" and ?f = "\<lambda>h :: Group \<times> int. (- snd h, g_id (fst h))"
  define hits where "hits = concat (map (consider_hit ?q) (concat (map candidates cache)))"
  obtain t where q: "?q = [[t]]" and t: "tm_glob t = None" "tm_text t = fold_text (g_id g)"
    using assms(1) by (auto simp: exact_def split: list.splits)
  have "term_matches t (base_fields g)"
    using t contains_str_refl by (auto simp: term_matches_def base_fields_def)
  then have sc: "score ?q (base_fields g) = 1" by (simp add: q score_eq answers_def)
  have "(g, 1001) \<in> set (consider_hit ?q (g, base_fields g))"
    using sc assms(1) by (simp add: consider_hit_def)
  moreover have "(g, base_fields g) \<in> set (candidates g)" by (simp add: candidates_def)
  ultimately have g: "(g, 1001) \<in> set hits"
    using assms(2) unfolding hits_def by auto
  then have ne: "sort_key ?f hits \<noteq> []" by (metis set_sort empty_iff list.set(1))
  let ?h = "hd (sort_key ?f hits)"
  have "?f ?h \<le> ?f (g, 1001)" using g by (rule hd_sort_key)
  then have big: "snd ?h \<ge> 1001" by auto
  have "?h \<in> set hits" using ne by (metis hd_in_set set_sort)
  then obtain c where "?h \<in> set (consider_hit ?q c)" by (auto simp: hits_def)
  moreover have "score ?q flds \<le> 1" for flds by (simp add: q score_eq)
  ultimately have "exact ?q (fold_text (g_id (fst ?h)))"
    using big by (blast intro: hit_exact)
  then have "fold_text (g_id (fst ?h)) = fold_text (g_id g)" using t by (simp add: q exact_def)
  moreover have "Search cache raw limit = map fst (limited limit (sort_key ?f hits))"
    by (simp add: Search_def q hits_def)
  ultimately show ?thesis using hd_limited [OF ne, of limit] by (simp add: hd_map)
qed

section \<open>Refreshing\<close>

lemma Refresh_sorted: "Refresh loaded cache = Inr gs \<Longrightarrow> sorted (map g_id gs)"
  by (auto simp: Refresh_def split: sum.splits)

end
