(* ===== verification/Action.thy ===== *)
theory Action
  imports Catalog
begin

text \<open>
  How the service runs: an action takes the world a request sees (the store, the catalog's
  snapshot, the clock, the ids still to be drawn) to the world it leaves and its answer. An action
  that fails keeps what it changed before, as in the code.

  The clock stands still within one request. \<open>w_ids\<close> are the successive results of \<open>uuid.New\<close>.
  The lemmas give the rules to reason forwards (\<open>bindS_Inr\<close>) and about what stays
  (\<open>keeps\<close>).
\<close>

record 's World =
  w_store :: 's
  w_cache :: "Group list"
  w_now :: time
  w_ids :: "nat \<Rightarrow> uuid"

type_synonym ('s, 'a) action = "'s World \<Rightarrow> 's World \<times> (error + 'a)"

definition ret :: "'a \<Rightarrow> ('s, 'a) action" where
  "ret x w = (w, Inr x)"

definition bindS :: "('s, 'a) action \<Rightarrow> ('a \<Rightarrow> ('s, 'b) action) \<Rightarrow> ('s, 'b) action" where
  "bindS m f w = (case m w of (w', Inl e) \<Rightarrow> (w', Inl e) | (w', Inr x) \<Rightarrow> f x w')"

definition pureS :: "error + 'a \<Rightarrow> ('s, 'a) action" where
  "pureS r w = (w, r)"

definition readS :: "(time \<Rightarrow> 's \<Rightarrow> error + 'a) \<Rightarrow> ('s, 'a) action" where
  "readS f w = (w, f (w_now w) (w_store w))"

definition writeS :: "(time \<Rightarrow> 's \<Rightarrow> error + 's) \<Rightarrow> ('s, unit) action" where
  "writeS f w = (case f (w_now w) (w_store w) of Inl e \<Rightarrow> (w, Inl e) | Inr s \<Rightarrow> (w\<lparr>w_store := s\<rparr>, Inr ()))"

text \<open>A write that also answers.\<close>

definition writeR :: "(time \<Rightarrow> 's \<Rightarrow> error + ('s \<times> 'a)) \<Rightarrow> ('s, 'a) action" where
  "writeR f w = (case f (w_now w) (w_store w) of Inl e \<Rightarrow> (w, Inl e) | Inr (s, x) \<Rightarrow> (w\<lparr>w_store := s\<rparr>, Inr x))"

definition drawID :: "('s, uuid) action" where
  "drawID w = (w\<lparr>w_ids := \<lambda>n. w_ids w (Suc n)\<rparr>, Inr (w_ids w 0))"

text \<open>Another error in place of the one that comes (\<open>fmt.Errorf\<close> around a sentinel).\<close>

definition on_error :: "(error \<Rightarrow> error) \<Rightarrow> error + 'a \<Rightarrow> error + 'a" where
  "on_error h r = (case r of Inl e \<Rightarrow> Inl (h e) | Inr x \<Rightarrow> Inr x)"

definition mapErrorS :: "(error \<Rightarrow> error) \<Rightarrow> ('s, 'a) action \<Rightarrow> ('s, 'a) action" where
  "mapErrorS h m w = (case m w of (w', r) \<Rightarrow> (w', on_error h r))"

text \<open>A failure that is only logged.\<close>

definition bestEffort :: "('s, 'a) action \<Rightarrow> ('s, unit) action" where
  "bestEffort m w = (fst (m w), Inr ())"

fun forS :: "('a \<Rightarrow> ('s, unit) action) \<Rightarrow> 'a list \<Rightarrow> ('s, unit) action" where
  "forS f [] = ret ()"
| "forS f (x # xs) = bindS (f x) (\<lambda>_. forS f xs)"

fun mapS :: "('a \<Rightarrow> ('s, 'b) action) \<Rightarrow> 'a list \<Rightarrow> ('s, 'b list) action" where
  "mapS f [] = ret []"
| "mapS f (x # xs) = bindS (f x) (\<lambda>y. bindS (mapS f xs) (\<lambda>ys. ret (y # ys)))"

section \<open>Running forwards\<close>

named_theorems run_simps

lemma ret_run [run_simps]: "ret x w = (w', r) \<longleftrightarrow> w' = w \<and> r = Inr x"
  by (auto simp: ret_def)

lemma pureS_run [run_simps]: "pureS r' w = (w', r) \<longleftrightarrow> w' = w \<and> r = r'"
  by (auto simp: pureS_def)

lemma readS_run [run_simps]: "readS f w = (w', r) \<longleftrightarrow> w' = w \<and> r = f (w_now w) (w_store w)"
  by (auto simp: readS_def)

lemma bindS_Inr [run_simps]: "bindS m f w = (w'', Inr y) \<longleftrightarrow> (\<exists>w' x. m w = (w', Inr x) \<and> f x w' = (w'', Inr y))"
  by (auto simp: bindS_def split: prod.splits sum.splits)

lemma bindS_Inl: "bindS m f w = (w'', Inl e) \<longleftrightarrow>
    m w = (w'', Inl e) \<or> (\<exists>w' x. m w = (w', Inr x) \<and> f x w' = (w'', Inl e))"
  by (auto simp: bindS_def split: prod.splits sum.splits)

lemma writeS_Inr [run_simps]: "writeS f w = (w', Inr u) \<longleftrightarrow>
    (\<exists>s. f (w_now w) (w_store w) = Inr s \<and> w' = w\<lparr>w_store := s\<rparr>)"
  by (auto simp: writeS_def split: sum.splits)

lemma writeR_Inr [run_simps]: "writeR f w = (w', Inr x) \<longleftrightarrow>
    (\<exists>s. f (w_now w) (w_store w) = Inr (s, x) \<and> w' = w\<lparr>w_store := s\<rparr>)"
  by (auto simp: writeR_def split: sum.splits)

lemma mapErrorS_Inr [run_simps]: "mapErrorS h m w = (w', Inr x) \<longleftrightarrow> m w = (w', Inr x)"
  by (auto simp: mapErrorS_def on_error_def split: prod.splits sum.splits)

lemma on_error_Inr [simp]: "on_error h r = Inr x \<longleftrightarrow> r = Inr x"
  by (auto simp: on_error_def split: sum.splits)

lemma bestEffort_run [run_simps]: "bestEffort m w = (w', Inr u) \<longleftrightarrow> w' = fst (m w)"
  by (auto simp: bestEffort_def)

text \<open>The checks before the first write, one at a time.\<close>

lemma check_pure_Inr: "bindS (pureS p) f w = (w', Inr y) \<longleftrightarrow> (\<exists>x. p = Inr x \<and> f x w = (w', Inr y))"
  by (auto simp: bindS_Inr pureS_run)

lemma check_read_Inr: "bindS (readS g) f w = (w', Inr y) \<longleftrightarrow> (\<exists>x. g (w_now w) (w_store w) = Inr x \<and> f x w = (w', Inr y))"
  unfolding bindS_Inr readS_run by metis

lemma draw_Inr: "bindS drawID f w = (w', Inr y) \<longleftrightarrow> f (w_ids w 0) (w\<lparr>w_ids := \<lambda>n. w_ids w (Suc n)\<rparr>) = (w', Inr y)"
  by (auto simp: bindS_Inr drawID_def)

lemma bindS_readS: "bindS (readS g) f w = (case g (w_now w) (w_store w) of Inl e \<Rightarrow> (w, Inl e) | Inr x \<Rightarrow> f x w)"
  by (simp add: bindS_def readS_def split: sum.split)

lemma bindS_pureS: "bindS (pureS p) f w = (case p of Inl e \<Rightarrow> (w, Inl e) | Inr x \<Rightarrow> f x w)"
  by (simp add: bindS_def pureS_def split: sum.split)

lemma bindS_writeS: "bindS (writeS g) f w =
    (case g (w_now w) (w_store w) of Inl e \<Rightarrow> (w, Inl e) | Inr s \<Rightarrow> f () (w\<lparr>w_store := s\<rparr>))"
  by (simp add: bindS_def writeS_def split: sum.split)

lemma bindS_create: "bindS (mapErrorS h (writeR g)) f w =
    (case g (w_now w) (w_store w) of Inl e \<Rightarrow> (w, Inl (h e)) | Inr (s, x) \<Rightarrow> f x (w\<lparr>w_store := s\<rparr>))"
  by (simp add: bindS_def mapErrorS_def writeR_def on_error_def split: sum.split prod.split)

lemma bindS_drawID: "bindS drawID f w = f (w_ids w 0) (w\<lparr>w_ids := \<lambda>n. w_ids w (Suc n)\<rparr>)"
  by (simp add: bindS_def drawID_def)

lemma bindS_bestEffort: "bindS (bestEffort m) f w = f () (fst (m w))"
  by (simp add: bindS_def bestEffort_def)

lemmas check_Inr = check_pure_Inr check_read_Inr draw_Inr split_paired_Ex prod.case

section \<open>What stays\<close>

text \<open>\<open>keeps P m\<close>: however the action ends, \<open>P\<close> still holds of the store and the clock stands.\<close>

definition keeps :: "('s \<Rightarrow> bool) \<Rightarrow> ('s, 'a) action \<Rightarrow> bool" where
  "keeps P m \<longleftrightarrow> (\<forall>w. P (w_store w) \<longrightarrow> P (w_store (fst (m w))) \<and> w_now (fst (m w)) = w_now w)"

lemma keepsD: "keeps P m \<Longrightarrow> P (w_store w) \<Longrightarrow> m w = (w', r) \<Longrightarrow> P (w_store w') \<and> w_now w' = w_now w"
  by (metis fst_conv keeps_def)

named_theorems keeps_intros

lemma keeps_ret [keeps_intros]: "keeps P (ret x)"
  by (simp add: keeps_def ret_def)

lemma keeps_pureS [keeps_intros]: "keeps P (pureS r)"
  by (simp add: keeps_def pureS_def)

lemma keeps_readS [keeps_intros]: "keeps P (readS f)"
  by (simp add: keeps_def readS_def)

lemma keeps_drawID [keeps_intros]: "keeps P drawID"
  by (simp add: keeps_def drawID_def)

lemma keeps_bindS [keeps_intros]: "keeps P m \<Longrightarrow> (\<And>x. keeps P (f x)) \<Longrightarrow> keeps P (bindS m f)"
  by (auto simp: keeps_def bindS_def split: prod.split sum.split)

lemma keeps_bind_pure: "(\<And>x. p = Inr x \<Longrightarrow> keeps P (f x)) \<Longrightarrow> keeps P (bindS (pureS p) f)"
  by (auto simp: keeps_def bindS_def pureS_def split: sum.split)

lemma keeps_case_prod [keeps_intros]: "(\<And>a b. keeps P (f a b)) \<Longrightarrow> keeps P (case p of (a, b) \<Rightarrow> f a b)"
  by (cases p) simp

lemma keeps_mapErrorS [keeps_intros]: "keeps P m \<Longrightarrow> keeps P (mapErrorS h m)"
  by (auto simp: keeps_def mapErrorS_def split: prod.split)

lemma keeps_bestEffort [keeps_intros]: "keeps P m \<Longrightarrow> keeps P (bestEffort m)"
  by (simp add: keeps_def bestEffort_def)

lemma keeps_writeS: "(\<And>now s s'. P s \<Longrightarrow> f now s = Inr s' \<Longrightarrow> P s') \<Longrightarrow> keeps P (writeS f)"
  by (auto simp: keeps_def writeS_def split: sum.split)

lemma keeps_writeR: "(\<And>now s s' x. P s \<Longrightarrow> f now s = Inr (s', x) \<Longrightarrow> P s') \<Longrightarrow> keeps P (writeR f)"
  by (auto simp: keeps_def writeR_def split: sum.split)

lemma keeps_forS [keeps_intros]: "(\<And>x. keeps P (f x)) \<Longrightarrow> keeps P (forS f xs)"
  by (induction xs) (auto intro!: keeps_intros)

lemma keeps_mapS [keeps_intros]: "(\<And>x. keeps P (f x)) \<Longrightarrow> keeps P (mapS f xs)"
  by (induction xs) (auto intro!: keeps_intros)

lemma keeps_if [keeps_intros]: "(b \<Longrightarrow> keeps P m) \<Longrightarrow> (\<not> b \<Longrightarrow> keeps P m') \<Longrightarrow> keeps P (if b then m else m')"
  by simp


section \<open>Refusing cleanly\<close>

text \<open>
  \<open>still\<close>: the store and the clock stay whatever happens; \<open>sure\<close>: the action does not fail;
  \<open>clean\<close>: if it fails, the store is as it was.
\<close>

definition still :: "('s, 'a) action \<Rightarrow> bool" where
  "still m \<longleftrightarrow> (\<forall>w. w_store (fst (m w)) = w_store w \<and> w_now (fst (m w)) = w_now w)"

definition sure :: "('s, 'a) action \<Rightarrow> bool" where
  "sure m \<longleftrightarrow> (\<forall>w. \<exists>x. snd (m w) = Inr x)"

definition clean :: "('s, 'a) action \<Rightarrow> bool" where
  "clean m \<longleftrightarrow> (\<forall>w e. snd (m w) = Inl e \<longrightarrow> w_store (fst (m w)) = w_store w)"

named_theorems clean_intros

lemma keeps_still: "still m \<Longrightarrow> keeps P m"
  by (simp add: keeps_def still_def)

lemma still_iff: "still m \<longleftrightarrow> (\<forall>w w' r. m w = (w', r) \<longrightarrow> w_store w' = w_store w \<and> w_now w' = w_now w)"
  unfolding still_def by (metis fst_conv prod.collapse)

lemma sure_iff: "sure m \<longleftrightarrow> (\<forall>w w' e. m w \<noteq> (w', Inl e))"
  unfolding sure_def by (metis Inl_Inr_False obj_sumE prod.collapse snd_conv)

lemma clean_iff: "clean m \<longleftrightarrow> (\<forall>w w' e. m w = (w', Inl e) \<longrightarrow> w_store w' = w_store w)"
  unfolding clean_def by (metis fst_conv prod.collapse snd_conv)

lemma bindS_run: "bindS m f w = (w', r) \<longleftrightarrow>
    (\<exists>e. m w = (w', Inl e) \<and> r = Inl e) \<or> (\<exists>w1 x. m w = (w1, Inr x) \<and> f x w1 = (w', r))"
  by (auto simp: bindS_def split: prod.splits sum.splits)

lemma stillD: "still m \<Longrightarrow> m w = (w', r) \<Longrightarrow> w_store w' = w_store w \<and> w_now w' = w_now w"
  by (metis fst_conv still_def)

lemma cleanD: "clean m \<Longrightarrow> m w = (w', Inl e) \<Longrightarrow> w_store w' = w_store w"
  by (metis clean_def fst_conv snd_conv)

lemma still_basic [clean_intros]: "still (ret x)" "still (pureS r)" "still (readS f)" "still drawID"
  by (simp_all add: still_def ret_def pureS_def readS_def drawID_def)

lemma still_bindS [clean_intros]: "still m \<Longrightarrow> (\<And>x. still (f x)) \<Longrightarrow> still (bindS m f)"
  unfolding still_iff bindS_run by metis

lemma still_mapS [clean_intros]: "(\<And>x. still (f x)) \<Longrightarrow> still (mapS f xs)"
  by (induction xs) (auto intro!: clean_intros)

lemma still_if [clean_intros]: "still m \<Longrightarrow> still m' \<Longrightarrow> still (if b then m else m')"
  by simp

lemma sure_basic [clean_intros]: "sure (ret x)" "sure drawID" "sure (bestEffort m)"
  by (simp_all add: sure_def ret_def drawID_def bestEffort_def)

lemma sure_bindS [clean_intros]: "sure m \<Longrightarrow> (\<And>x. sure (f x)) \<Longrightarrow> sure (bindS m f)"
  unfolding sure_iff bindS_run by blast

lemma clean_still: "still m \<Longrightarrow> clean m"
  by (simp add: still_def clean_def)

lemma clean_write [clean_intros]: "clean (writeS f)" "clean (writeR f')"
  by (auto simp: clean_def writeS_def writeR_def split: sum.splits)

lemma clean_mapErrorS [clean_intros]: "clean m \<Longrightarrow> clean (mapErrorS h m)"
  unfolding clean_iff mapErrorS_def on_error_def by (auto split: prod.splits sum.splits)

lemma clean_bind_still: "still m \<Longrightarrow> (\<And>x. clean (f x)) \<Longrightarrow> clean (bindS m f)"
  unfolding still_iff clean_iff bindS_run by metis

lemma clean_bind_sure: "clean m \<Longrightarrow> (\<And>x. sure (f x)) \<Longrightarrow> clean (bindS m f)"
  unfolding sure_iff clean_iff bindS_run by blast

lemma clean_bind_read [clean_intros]:
  "(\<And>x. clean (f x)) \<Longrightarrow> clean (bindS (readS g) f)" "(\<And>x. clean (f x)) \<Longrightarrow> clean (bindS (pureS p) f)"
  "(\<And>x. clean (f' x)) \<Longrightarrow> clean (bindS drawID f')"
  by (rule clean_bind_still; simp add: still_basic)+

lemma clean_bind_write [clean_intros]:
  "(\<And>x. sure (f x)) \<Longrightarrow> clean (bindS (writeS g) f)"
  "(\<And>x. sure (f x)) \<Longrightarrow> clean (bindS (mapErrorS h (writeS g)) f)"
  by (rule clean_bind_sure; simp add: clean_write clean_mapErrorS)+

lemma clean_ret [clean_intros]: "clean (ret x)" "clean (pureS r)" "clean (readS f)"
  by (rule clean_still, rule still_basic)+

lemma clean_if [clean_intros]: "clean m \<Longrightarrow> clean m' \<Longrightarrow> clean (if b then m else m')"
  by simp

end
