(* ===== verification/Service.thy ===== *)
theory Service
  imports Action
begin

text \<open>
  \<open>internal/groupmgmt/service.go\<close>, method by method, over any store: the operations on groups,
  members and managers with their checks in the order of the code, and the reading operations.
  Messages are dropped, the sentinel each error wraps is kept.

  What needs the store's contract is proved in the theory ServiceLaws.
\<close>

section \<open>State\<close>

record Caller =
  cl_actor :: string
  cl_behalf :: string
  cl_tokens :: "string list"
  cl_admin :: bool

definition APITokenCaller :: Caller where
  "APITokenCaller = \<lparr>cl_actor = ''api-token'', cl_behalf = [], cl_tokens = [], cl_admin = True\<rparr>"

text \<open>\<open>sv_cached\<close>: there is a catalog snapshot (\<open>s.cache != nil\<close>). \<open>sv_lookup\<close> is the hook of \<open>SetUserLookup\<close>.\<close>

record 's Service =
  sv_ops :: "'s StoreOps"
  sv_relations :: Relations
  sv_local :: uuid
  sv_cached :: bool
  sv_lookup :: "(string \<Rightarrow> 's World \<Rightarrow> 's World) option"

section \<open>Helpers\<close>

definition ifEmpty :: "string \<Rightarrow> string \<Rightarrow> string" where
  "ifEmpty s fallback = (if trim_space s = [] then fallback else s)"

definition parseGroupToken :: "string \<Rightarrow> error + string \<times> string" where
  "parseGroupToken token =
     (let token = trim_space token in
      if has_prefix token GroupPrefix then Inr (GroupPrefix, NormalizeID (trim_prefix token GroupPrefix))
      else if token \<noteq> [] \<and> \<not> contains_str token '':'' then Inr (GroupPrefix, NormalizeID token)
      else Inl ErrInvalidToken)"

definition parseMemberToken :: "string \<Rightarrow> error + string \<times> string" where
  "parseMemberToken token =
     (let (t, i) = ParseToken (trim_space token) in
      if t = [] then Inl ErrInvalidToken
      else let i = NormalizeID i in
        bindE (ValidateMember t i) (\<lambda>_.
          Inr (t, if t = ''group'' then (case MemberGroup i of (g, r) \<Rightarrow> JoinGroupRelation g r) else i)))"

definition checkRelation :: "'s Service \<Rightarrow> string \<Rightarrow> error + string" where
  "checkRelation svc relation = on_error (\<lambda>_. ErrInvalidRelation) (Check (sv_relations svc) relation)"

definition refreshCache :: "'s Service \<Rightarrow> ('s, unit) action" where
  "refreshCache svc w =
     (if \<not> sv_cached svc then (w, Inr ())
      else case Refresh (load_groups (sv_ops svc) (w_now w) (w_store w)) (w_cache w) of
        Inl _ \<Rightarrow> (w, Inr ()) | Inr gs \<Rightarrow> (w\<lparr>w_cache := gs\<rparr>, Inr ()))"

definition change :: "string \<Rightarrow> ChangeAction \<Rightarrow> Change" where
  "change i act = \<lparr>c_id = 0, c_group = i, c_at = 0, c_actor = [], c_behalf = [], c_action = act,
     c_member = [], c_relation = [], c_expires = None, c_detail = []\<rparr>"

text \<open>The method \<open>record\<close>: the id is drawn by the store.\<close>

definition record_change :: "'s Service \<Rightarrow> Caller \<Rightarrow> Change \<Rightarrow> ('s, unit) action" where
  "record_change svc caller c =
     bestEffort (bindS drawID (\<lambda>new. writeS (\<lambda>now.
       st_AddChange (sv_ops svc) now new (c\<lparr>c_actor := cl_actor caller, c_behalf := cl_behalf caller\<rparr>))))"

definition sourceNames :: "'s Service \<Rightarrow> 's \<Rightarrow> uuid \<Rightarrow> string" where
  "sourceNames svc s = (case st_ListSources (sv_ops svc) s of Inl _ \<Rightarrow> (\<lambda>_. []) | Inr srcs \<Rightarrow> source_names srcs)"

definition withSourceNames :: "'s Service \<Rightarrow> 's \<Rightarrow> Group list \<Rightarrow> Group list" where
  "withSourceNames svc s gs = map (with_source_name (sourceNames svc s)) gs"

definition named :: "'s Service \<Rightarrow> Group \<Rightarrow> ('s, Group) action" where
  "named svc g = readS (\<lambda>_ s. Inr (with_source_name (sourceNames svc s) g))"

section \<open>Looking up a group\<close>

definition getGroup :: "'s Service \<Rightarrow> 's \<Rightarrow> string \<Rightarrow> error + Group" where
  "getGroup svc s i = on_error (\<lambda>e. if e = ErrRecordNotFound then ErrNotFound else e) (st_GetGroup (sv_ops svc) s i)"

definition mayManage :: "'s Service \<Rightarrow> 's \<Rightarrow> Caller \<Rightarrow> string \<Rightarrow> error + bool" where
  "mayManage svc s caller groupID =
     (if cl_admin caller then Inr True
      else bindE (st_ListManagers (sv_ops svc) s groupID) (\<lambda>mgrs.
        Inr (\<exists>m \<in> set mgrs. m_token m \<in> set (cl_tokens caller))))"

definition isLocal :: "'s Service \<Rightarrow> Group \<Rightarrow> bool" where
  "isLocal svc g \<longleftrightarrow> g_source g = Some (sv_local svc)"

definition localGroup :: "'s Service \<Rightarrow> 's \<Rightarrow> Caller \<Rightarrow> string \<Rightarrow> error + Group" where
  "localGroup svc s caller token =
     bindE (parseGroupToken token) (\<lambda>(_, i).
     bindE (getGroup svc s i) (\<lambda>g.
       if \<not> isLocal svc g then Inl ErrOwnedBySource
       else bindE (mayManage svc s caller (g_id g)) (\<lambda>allowed.
         if \<not> allowed then Inl ErrForbidden else Inr g)))"

text \<open>\<open>readableGroup\<close> of \<open>browse.go\<close>.\<close>

definition readableGroup :: "'s Service \<Rightarrow> 's \<Rightarrow> Caller \<Rightarrow> string \<Rightarrow> error + Group" where
  "readableGroup svc s caller token =
     (if \<not> cl_admin caller then localGroup svc s caller token
      else bindE (parseGroupToken token) (\<lambda>(_, i). getGroup svc s i))"

definition checkNotReserved :: "'s Service \<Rightarrow> 's \<Rightarrow> string \<Rightarrow> error + unit" where
  "checkNotReserved svc s i =
     bindE (st_ListSources (sv_ops svc) s) (\<lambda>srcs.
       if \<exists>src \<in> set srcs. s_id src \<noteq> sv_local svc \<and> (\<exists>glob \<in> set (s_reserved src). MatchGlob glob i)
       then Inl ErrReserved else Inr ())"

definition checkManagerToken :: "'s Service \<Rightarrow> 's \<Rightarrow> string \<Rightarrow> error + string" where
  "checkManagerToken svc s token =
     bindE (parseMemberToken token) (\<lambda>(typ, i).
       if typ = ''user'' then Inr (BuildToken typ i)
       else if typ = ''group'' then
         (let (g, relation) = SplitGroupRelation i in
          bindE (ValidateGroupID g) (\<lambda>_.
          bindE (checkRelation svc relation) (\<lambda>relation.
          bindE (getGroup svc s g) (\<lambda>_. Inr (GroupToken g relation)))))
       else Inl ErrInvalidID)"

section \<open>Groups\<close>

definition says_duplicate :: "error \<Rightarrow> bool" where
  "says_duplicate e = (case e of
     ErrText m \<Rightarrow> contains_str m ''duplicate'' \<or> contains_str m ''unique'' \<or> contains_str m ''already exists''
   | _ \<Rightarrow> False)"

definition CreateGroup :: "'s Service \<Rightarrow> Caller \<Rightarrow> string \<Rightarrow> string \<Rightarrow> string \<Rightarrow> string list \<Rightarrow> ('s, Group) action" where
  "CreateGroup svc caller i displayName description mgrs =
     (if \<not> cl_admin caller then pureS (Inl ErrForbidden)
      else let i = NormalizeID (trim_prefix (trim_space i) GroupPrefix) in
        bindS (pureS (ValidateGroupID i)) (\<lambda>_.
        bindS (readS (\<lambda>_ s. checkNotReserved svc s i)) (\<lambda>_.
        bindS (mapS (\<lambda>m. readS (\<lambda>_ s. checkManagerToken svc s m)) mgrs) (\<lambda>managerTokens.
        let g = \<lparr>g_id = i, g_token = GroupPrefix @ i, g_display = ifEmpty displayName i, g_desc = description,
                 g_source = Some (sv_local svc), g_source_name = [], g_relations = [], g_created = 0, g_updated = 0\<rparr> in
        bindS (mapErrorS (\<lambda>e. if says_duplicate e then ErrAlreadyExists else e)
          (writeR (\<lambda>now. st_CreateGroup (sv_ops svc) now g))) (\<lambda>g.
        bindS (record_change svc caller ((change i GroupCreated)\<lparr>c_detail := g_display g\<rparr>)) (\<lambda>_.
        bindS (forS (\<lambda>token.
            bindS (writeS (\<lambda>now. st_AddManager (sv_ops svc) now i
                \<lparr>m_token = token, m_created_by = cl_actor caller, m_created = 0\<rparr>)) (\<lambda>_.
              record_change svc caller ((change i ManagerAdded)\<lparr>c_member := token\<rparr>))) managerTokens) (\<lambda>_.
        bindS (refreshCache svc) (\<lambda>_.
        readS (\<lambda>_ s. Inr (g\<lparr>g_source_name := sourceNames svc s (sv_local svc)\<rparr>))))))))))"

definition GetGroup :: "'s Service \<Rightarrow> string \<Rightarrow> ('s, Group) action" where
  "GetGroup svc token =
     bindS (pureS (parseGroupToken token)) (\<lambda>(_, i).
     bindS (readS (\<lambda>_ s. getGroup svc s i)) (\<lambda>g. named svc g))"

text \<open>\<open>uuid.Parse\<close> of the package google/uuid is the parameter \<open>parse_uuid\<close>.\<close>

definition ListGroups :: "(string \<Rightarrow> uuid option) \<Rightarrow> 's Service \<Rightarrow> string \<Rightarrow> string \<Rightarrow> int \<Rightarrow> ('s, Group list) action" where
  "ListGroups parse_uuid svc query sourceIDStr limit =
     (if sourceIDStr = [] \<and> sv_cached svc then (\<lambda>w. (w, Inr (Search (w_cache w) query limit)))
      else bindS (pureS (if sourceIDStr = [] then Inr None
                    else case parse_uuid sourceIDStr of None \<Rightarrow> Inl (ErrText ''invalid source_id'') | Some j \<Rightarrow> Inr (Some j)))
        (\<lambda>sourceID. readS (\<lambda>_ s. bindE (st_ListGroups (sv_ops svc) s query sourceID limit) (\<lambda>gs.
          Inr (withSourceNames svc s gs)))))"

abbreviation middle_dot :: string where "middle_dot \<equiv> [CHR '' '', CHR 0xC2, CHR 0xB7, CHR '' '']"

definition UpdateGroup :: "'s Service \<Rightarrow> Caller \<Rightarrow> string \<Rightarrow> string \<Rightarrow> string \<Rightarrow> ('s, Group) action" where
  "UpdateGroup svc caller token displayName description =
     bindS (readS (\<lambda>_ s. localGroup svc s caller token)) (\<lambda>g.
     let displayName = ifEmpty displayName (g_id g) in
     bindS (writeS (\<lambda>now. st_UpdateGroup (sv_ops svc) now (g_id g) displayName description)) (\<lambda>_.
     bindS (record_change svc caller ((change (g_id g) GroupUpdated)
         \<lparr>c_detail := displayName @ middle_dot @ description\<rparr>)) (\<lambda>_.
     bindS (refreshCache svc) (\<lambda>_.
     bindS (readS (\<lambda>_ s. st_GetGroup (sv_ops svc) s (g_id g))) (\<lambda>updated. named svc updated)))))"

definition DeleteGroup :: "'s Service \<Rightarrow> Caller \<Rightarrow> string \<Rightarrow> ('s, unit) action" where
  "DeleteGroup svc caller token =
     bindS (readS (\<lambda>_ s. localGroup svc s caller token)) (\<lambda>g.
     if \<not> cl_admin caller then pureS (Inl ErrForbidden)
     else bindS (writeS (\<lambda>_. st_DeleteGroup (sv_ops svc) (g_id g))) (\<lambda>_.
       bindS (record_change svc caller ((change (g_id g) GroupDeleted)\<lparr>c_detail := g_display g\<rparr>)) (\<lambda>_.
       refreshCache svc)))"

text \<open>What a search without a limit answers: the snapshot, or the store (\<open>from\<close>: of one source).\<close>

definition find_groups :: "'s Service \<Rightarrow> string \<Rightarrow> uuid option \<Rightarrow> int \<Rightarrow> ('s, Group list) action" where
  "find_groups svc query from limit =
     (if sv_cached svc then (\<lambda>w. (w, Inr (Search (w_cache w) query limit)))
      else readS (\<lambda>_ s. bindE (st_ListGroups (sv_ops svc) s query from limit) (\<lambda>gs. Inr (withSourceNames svc s gs))))"

definition ManagedGroups :: "'s Service \<Rightarrow> Caller \<Rightarrow> string \<Rightarrow> ('s, Group list) action" where
  "ManagedGroups svc caller query =
     bindS (if cl_admin caller then ret [] else readS (\<lambda>_ s. st_ManagedGroups (sv_ops svc) s (cl_tokens caller)))
     (\<lambda>managed.
       if \<not> cl_admin caller \<and> managed = [] then ret []
       else bindS (find_groups svc query (Some (sv_local svc)) 0) (\<lambda>candidates.
         ret (filter (\<lambda>g. \<not> (contains_str (g_id g) [RelationSeparator] \<or> \<not> isLocal svc g)
                \<and> (cl_admin caller \<or> g_id g \<in> set managed)) candidates)))"

definition Adopt :: "'s Service \<Rightarrow> Caller \<Rightarrow> uuid option \<Rightarrow> string \<Rightarrow> ('s, string list) action" where
  "Adopt svc caller from detail =
     bindS (writeR (\<lambda>_. st_MoveToSource (sv_ops svc) from (sv_local svc))) (\<lambda>is.
     bindS (forS (\<lambda>i. record_change svc caller ((change i GroupAdopted)\<lparr>c_detail := detail\<rparr>)) is) (\<lambda>_.
     bindS (if length is > 0 then refreshCache svc else ret ()) (\<lambda>_. ret is)))"


section \<open>Cycles\<close>

text \<open>
  The breadth-first search of \<open>checkNoCycle\<close>. \<open>visit_children\<close> is its inner loop: \<open>None\<close> when it
  meets the group. The outer loop ends: a group is queued once.
\<close>

definition children :: "Edge list \<Rightarrow> string \<Rightarrow> string list" where
  "children edges i = map e_child (filter (\<lambda>e. e_parent e = i) edges)"

fun visit_children :: "string \<Rightarrow> string list \<Rightarrow> string list \<Rightarrow> string list \<Rightarrow> (string list \<times> string list) option" where
  "visit_children target [] seen queue = Some (seen, queue)"
| "visit_children target (c # cs) seen queue =
     (if c = target then None
      else if c \<notin> set seen then visit_children target cs (c # seen) (queue @ [c])
      else visit_children target cs seen queue)"

lemma visit_children_Some:
  "visit_children target cs seen queue = Some (seen', queue') \<Longrightarrow>
   target \<notin> set cs \<and> set seen' = set seen \<union> set cs \<and> set queue' = set queue \<union> (set cs - set seen)
   \<and> (\<exists>new. queue' = queue @ new \<and> distinct new \<and> set new = set cs - set seen)"
proof (induction cs arbitrary: seen queue)
  case (Cons c cs)
  show ?case
  proof (cases "c \<in> set seen")
    case True
    with Cons.prems have p: "c \<noteq> target" "visit_children target cs seen queue = Some (seen', queue')"
      by (auto split: if_splits)
    have "set (c # cs) - set seen = set cs - set seen" "set seen \<union> set (c # cs) = set seen \<union> set cs"
      using True by auto
    with Cons.IH [OF p(2)] p(1) show ?thesis by (simp only: set_simps) simp
  next
    case False
    with Cons.prems have "c \<noteq> target" "visit_children target cs (c # seen) (queue @ [c]) = Some (seen', queue')"
      by (auto split: if_splits)
    note IH = Cons.IH [OF this(2)]
    then obtain new where "queue' = (queue @ [c]) @ new" "distinct new" "set new = set cs - set (c # seen)" by blast
    then have "queue' = queue @ c # new \<and> distinct (c # new) \<and> set (c # new) = set (c # cs) - set seen"
      using False by auto
    moreover from this have "set queue' = set queue \<union> (set (c # cs) - set seen)" by auto
    moreover have "set seen' = set seen \<union> set (c # cs)" using IH by auto
    ultimately show ?thesis using IH \<open>c \<noteq> target\<close> by auto
  qed
qed simp

lemma visit_children_None: "visit_children target cs seen queue = None \<longleftrightarrow> target \<in> set cs"
  by (induction cs arbitrary: seen queue) auto

function contains_loop :: "Edge list \<Rightarrow> string \<Rightarrow> string list \<Rightarrow> string list \<Rightarrow> bool" where
  "contains_loop edges target seen [] = False"
| "contains_loop edges target seen (i # queue) =
     (case visit_children target (children edges i) seen queue of
        None \<Rightarrow> True
      | Some (seen', queue') \<Rightarrow> contains_loop edges target seen' queue')"
  by pat_completeness auto
termination
proof (relation "measure (\<lambda>(edges, target, seen, queue).
    2 * card (e_child ` set edges - set seen) + length queue)", goal_cases)
  case 1
  then show ?case by simp
next
  case (2 edges target seen i queue p seen' queue')
  let ?C = "e_child ` set edges" and ?cs = "children edges i"
  obtain new where n: "set seen' = set seen \<union> set ?cs" "queue' = queue @ new" "distinct new" "set new = set ?cs - set seen"
    using visit_children_Some [of target ?cs seen queue seen' queue'] 2 by auto
  have sub: "set ?cs \<subseteq> ?C" by (auto simp: children_def)
  have "card (?C - set seen') + card (set ?cs - set seen) = card (?C - set seen)"
    using n(1) sub by (subst card_Un_disjoint [symmetric]) (auto intro!: arg_cong [of _ _ card])
  moreover have "length new = card (set ?cs - set seen)" using n by (metis distinct_card)
  ultimately show ?case using n(2) by simp
qed

definition checkNoCycle :: "'s Service \<Rightarrow> time \<Rightarrow> 's \<Rightarrow> string \<Rightarrow> string \<Rightarrow> error + unit" where
  "checkNoCycle svc now s groupID memberID =
     (if groupID = memberID then Inl ErrCycle
      else bindE (st_GroupEdges (sv_ops svc) now s) (\<lambda>edges.
        if contains_loop edges groupID [memberID] [memberID] then Inl ErrCycle else Inr ()))"

text \<open>The search finds the group iff it lies below the member.\<close>

definition edge_rel :: "Edge set \<Rightarrow> (string \<times> string) set" where
  "edge_rel E = {(e_parent e, e_child e) | e. e \<in> E}"

lemma children_iff: "c \<in> set (children edges i) \<longleftrightarrow> (i, c) \<in> edge_rel (set edges)"
  by (auto simp: children_def edge_rel_def)

lemma contains_loop_iff:
  assumes "set queue \<subseteq> set seen" and "target \<notin> set seen"
    and "edge_rel (set edges) `` (set seen - set queue) \<subseteq> set seen"
  shows "contains_loop edges target seen queue \<longleftrightarrow> target \<in> (edge_rel (set edges))\<^sup>* `` set seen"
  using assms
proof (induction edges target seen queue rule: contains_loop.induct)
  case (1 edges target seen)
  then have "(edge_rel (set edges))\<^sup>* `` set seen = set seen" by (intro Image_closed) simp
  with 1 show ?case by simp
next
  case (2 edges target seen i queue)
  let ?R = "edge_rel (set edges)" and ?v = "visit_children target (children edges i) seen queue"
  show ?case
  proof (cases ?v)
    case None
    then have "(i, target) \<in> ?R" by (simp add: visit_children_None children_iff)
    moreover have "i \<in> set seen" using 2 by simp
    ultimately show ?thesis using None by (auto intro!: r_into_rtrancl)
  next
    case (Some p)
    obtain seen' queue' where p: "p = (seen', queue')" by force
    have v: "target \<notin> set (children edges i)" "set seen' = set seen \<union> set (children edges i)"
      "set queue' = set queue \<union> (set (children edges i) - set seen)"
      using visit_children_Some Some p by blast+
    have "?R `` {i} = set (children edges i)" by (auto simp: children_iff)
    then have cl: "?R\<^sup>* `` set seen' = ?R\<^sup>* `` set seen"
      using Image_rtrancl_add [of i "set seen" ?R] v(2) 2(2) by auto
    have "contains_loop edges target seen' queue' \<longleftrightarrow> target \<in> ?R\<^sup>* `` set seen'"
    proof (rule 2(1) [OF Some [unfolded p] refl])
      show "set queue' \<subseteq> set seen'" using v 2(2) by auto
      show "target \<notin> set seen'" using v 2(3) by auto
      show "?R `` (set seen' - set queue') \<subseteq> set seen'"
        using 2(4) v by (auto simp: children_iff [symmetric] Image_subset_eq)
    qed
    with Some p cl show ?thesis by simp
  qed
qed


section \<open>Members\<close>

definition AddMember :: "'s Service \<Rightarrow> Caller \<Rightarrow> string \<Rightarrow> string \<Rightarrow> string \<Rightarrow> time option \<Rightarrow> ('s, unit) action" where
  "AddMember svc caller groupToken relation memberTok expiresAt =
     bindS (pureS (checkRelation svc relation)) (\<lambda>relation.
     bindS (pureS (parseMemberToken memberTok)) (\<lambda>(memberType, memberID).
     bindS (pureS (if memberType = ''group'' \<and> snd (MemberGroup memberID) \<noteq> RelationMember
                   then bindE (checkRelation svc (snd (MemberGroup memberID))) (\<lambda>_. Inr ()) else Inr ())) (\<lambda>_.
     bindS (readS (\<lambda>now _. case expiresAt of None \<Rightarrow> Inr ()
                    | Some x \<Rightarrow> if \<not> x > now then Inl ErrInvalidExpiry else Inr ())) (\<lambda>_.
     bindS (readS (\<lambda>_ s. localGroup svc s caller groupToken)) (\<lambda>g.
     bindS (readS (\<lambda>now s. if memberType = ''group''
                    then checkNoCycle svc now s (g_id g) (fst (MemberGroup memberID)) else Inr ())) (\<lambda>_.
     bindS drawID (\<lambda>new.
     bindS (writeS (\<lambda>now. st_AddMember (sv_ops svc) now new (g_id g) relation memberType memberID
              (Some (sv_local svc)) expiresAt)) (\<lambda>_.
     record_change svc caller ((change (g_id g) MemberAdded)
       \<lparr>c_member := BuildToken memberType memberID, c_relation := relation, c_expires := expiresAt\<rparr>)))))))))"

definition RemoveMember :: "'s Service \<Rightarrow> Caller \<Rightarrow> string \<Rightarrow> string \<Rightarrow> string \<Rightarrow> ('s, unit) action" where
  "RemoveMember svc caller groupToken relation memberTok =
     bindS (pureS (checkRelation svc relation)) (\<lambda>relation.
     bindS (pureS (parseMemberToken memberTok)) (\<lambda>(memberType, memberID).
     bindS (readS (\<lambda>_ s. localGroup svc s caller groupToken)) (\<lambda>g.
     bindS (writeS (\<lambda>_. st_RemoveMember (sv_ops svc) (g_id g) relation memberType memberID)) (\<lambda>_.
     record_change svc caller ((change (g_id g) MemberRemoved)
       \<lparr>c_member := BuildToken memberType memberID, c_relation := relation\<rparr>)))))"

definition ChangeRelation :: "'s Service \<Rightarrow> Caller \<Rightarrow> string \<Rightarrow> string \<Rightarrow> string \<Rightarrow> string \<Rightarrow> ('s, unit) action" where
  "ChangeRelation svc caller groupToken memberTok from to =
     bindS (pureS (checkRelation svc from)) (\<lambda>from.
     bindS (pureS (checkRelation svc to)) (\<lambda>to.
     bindS (pureS (parseMemberToken memberTok)) (\<lambda>(memberType, memberID).
     bindS (readS (\<lambda>_ s. localGroup svc s caller groupToken)) (\<lambda>g.
     if from = to then ret ()
     else bindS (mapErrorS (\<lambda>e. if e = ErrRecordNotFound then ErrNotFound else e)
         (writeS (\<lambda>_. st_ChangeRelation (sv_ops svc) (g_id g) memberType memberID from to))) (\<lambda>_.
       record_change svc caller ((change (g_id g) RelationChanged)
         \<lparr>c_member := BuildToken memberType memberID, c_relation := to, c_detail := from\<rparr>))))))"

definition GetAllMembers :: "'s Service \<Rightarrow> string \<Rightarrow> string \<Rightarrow> bool \<Rightarrow> ('s, string list) action" where
  "GetAllMembers svc groupToken relation recursive =
     bindS (pureS (parseGroupToken groupToken)) (\<lambda>(_, groupID).
     bindS (pureS (checkRelation svc relation)) (\<lambda>relation.
     readS (\<lambda>now s. if recursive then st_GetAllMembers (sv_ops svc) now s groupID relation
                    else st_GetDirectMembers (sv_ops svc) now s groupID relation)))"

record GroupDetail =
  gd_group :: Group
  gd_memberships :: "Membership list"
  gd_managers :: "Manager list"
  gd_editable :: bool
  gd_may_delete :: bool

definition Detail :: "'s Service \<Rightarrow> Caller \<Rightarrow> string \<Rightarrow> ('s, GroupDetail) action" where
  "Detail svc caller groupToken =
     bindS (readS (\<lambda>_ s. readableGroup svc s caller groupToken)) (\<lambda>g.
     bindS (readS (\<lambda>now s. st_ListMemberships (sv_ops svc) now s (g_id g))) (\<lambda>memberships.
     bindS (readS (\<lambda>_ s. st_ListManagers (sv_ops svc) s (g_id g))) (\<lambda>mgrs.
     bindS (named svc g) (\<lambda>g'.
     ret \<lparr>gd_group = g', gd_memberships = memberships, gd_managers = mgrs,
          gd_editable = isLocal svc g, gd_may_delete = (cl_admin caller \<and> isLocal svc g)\<rparr>))))"

definition EffectiveMembers :: "'s Service \<Rightarrow> Caller \<Rightarrow> string \<Rightarrow> ('s, string list) action" where
  "EffectiveMembers svc caller groupToken =
     bindS (readS (\<lambda>_ s. readableGroup svc s caller groupToken)) (\<lambda>g.
     bindS (readS (\<lambda>now s. st_GetAllMembers (sv_ops svc) now s (g_id g) [])) (\<lambda>members.
     ret (filter (\<lambda>m. has_prefix m UserPrefix) members)))"

definition History :: "'s Service \<Rightarrow> Caller \<Rightarrow> string \<Rightarrow> int \<Rightarrow> ('s, Change list) action" where
  "History svc caller groupToken limit =
     bindS (readS (\<lambda>_ s. readableGroup svc s caller groupToken)) (\<lambda>g.
     readS (\<lambda>_ s. st_ListChanges (sv_ops svc) s (g_id g) limit))"

section \<open>Managers\<close>

definition AddManager :: "'s Service \<Rightarrow> Caller \<Rightarrow> string \<Rightarrow> string \<Rightarrow> ('s, unit) action" where
  "AddManager svc caller groupToken managerToken =
     bindS (readS (\<lambda>_ s. localGroup svc s caller groupToken)) (\<lambda>g.
     bindS (readS (\<lambda>_ s. checkManagerToken svc s managerToken)) (\<lambda>token.
     bindS (writeS (\<lambda>now. st_AddManager (sv_ops svc) now (g_id g)
         \<lparr>m_token = token, m_created_by = cl_actor caller, m_created = 0\<rparr>)) (\<lambda>_.
     record_change svc caller ((change (g_id g) ManagerAdded)\<lparr>c_member := token\<rparr>))))"

definition normalManagerToken :: "string \<Rightarrow> string" where
  "normalManagerToken managerToken =
     (let token = trim_space managerToken; (t, i) = ParseToken token
      in if t \<noteq> [] then BuildToken t (NormalizeID i) else token)"

definition RemoveManager :: "'s Service \<Rightarrow> Caller \<Rightarrow> string \<Rightarrow> string \<Rightarrow> ('s, unit) action" where
  "RemoveManager svc caller groupToken managerToken =
     bindS (readS (\<lambda>_ s. localGroup svc s caller groupToken)) (\<lambda>g.
     let token = normalManagerToken managerToken in
     bindS (writeS (\<lambda>_. st_RemoveManager (sv_ops svc) (g_id g) token)) (\<lambda>_.
     record_change svc caller ((change (g_id g) ManagerRemoved)\<lparr>c_member := token\<rparr>)))"

section \<open>Searching and resolving\<close>

definition SearchPrincipals :: "'s Service \<Rightarrow> Caller \<Rightarrow> string \<Rightarrow> int \<Rightarrow> ('s, Group list \<times> string list) action" where
  "SearchPrincipals svc caller query limit =
     bindS (if cl_admin caller then ret ()
            else bindS (readS (\<lambda>_ s. st_ManagedGroups (sv_ops svc) s (cl_tokens caller))) (\<lambda>is.
              if is = [] then pureS (Inl ErrForbidden) else ret ())) (\<lambda>_.
     bindS (find_groups svc query None limit) (\<lambda>gs.
     bindS (if trim_space query \<noteq> [] then readS (\<lambda>now s. st_SearchUsers (sv_ops svc) now s query limit) else ret []) (\<lambda>users.
     ret (gs, users))))"

definition GetUserTokens :: "'s Service \<Rightarrow> string \<Rightarrow> ('s, string list) action" where
  "GetUserTokens svc email =
     (let email = NormalizeID email in
      if email = [] then pureS (Inl (ErrText ''email must not be empty''))
      else bindS (case sv_lookup svc of None \<Rightarrow> ret () | Some f \<Rightarrow> (\<lambda>w. (f email w, Inr ()))) (\<lambda>_.
        readS (\<lambda>now s. st_GetUserTokens (sv_ops svc) now s email)))"

section \<open>Tokens of callers\<close>

lemma parseGroupToken_normal: "parseGroupToken token = Inr (p, i) \<Longrightarrow> NormalizeID i = i \<and> p = GroupPrefix"
  by (auto simp: parseGroupToken_def Let_def split: if_splits)

lemma parseMemberToken_type: "parseMemberToken token = Inr (t, i) \<Longrightarrow> t \<in> {''user'', ''group'', ''pattern''}"
  by (auto simp: parseMemberToken_def Let_def bindE_Inr ParseToken_def split: if_splits option.splits)

text \<open>A member token is stored in its one spelling: parsing the stored token gives it back.\<close>

lemma ParseToken_kind: "ParseToken token = (t, i) \<Longrightarrow> t \<noteq> [] \<Longrightarrow> t \<in> {''user'', ''group'', ''pattern''}"
  using Build_ParseToken by blast

lemma trim_BuildToken: "t \<in> {''user'', ''group'', ''pattern''} \<Longrightarrow> stored_spelling i \<Longrightarrow> trim_space (BuildToken t i) = BuildToken t i"
proof (rule trim_space_id)
  fix c
  assume t: "t \<in> {''user'', ''group'', ''pattern''}" and i: "stored_spelling i" and c: "c \<in> set (BuildToken t i)"
  have "list_all (\<lambda>c. \<not> is_space c) (''user'' @ ''group'' @ ''pattern'' @ '':'')" by (simp add: is_space_def)
  then have "\<forall>c \<in> set (t @ '':''). \<not> is_space c" using t by (elim insertE emptyE) (simp_all add: list_all_iff)
  moreover have "c \<in> set (t @ '':'') \<or> c \<in> set i" using c by (simp add: BuildToken_def)
  ultimately show "\<not> is_space c" using i unfolding stored_spelling_def by blast
qed

lemma ValidateMember_group: "ValidateMember ''group'' i = Inr () \<longleftrightarrow> (case cut RelationSeparator i of
    None \<Rightarrow> ValidateGroupID i = Inr () | Some (g, r) \<Rightarrow> ValidateGroupID g = Inr () \<and> rx_match relationName r)"
  by (auto simp: ValidateMember_def bindE_Inr split: option.split)

lemma canonical_member:
  assumes "ValidateMember ''group'' i = Inr ()" "MemberGroup i = (g, r)"
  shows "ValidateMember ''group'' (JoinGroupRelation g r) = Inr ()"
proof (cases "cut RelationSeparator i")
  case None
  then have "MemberGroup i = (i, RelationMember)" by (simp add: MemberGroup_def SplitGroupRelation_def)
  then have "JoinGroupRelation g r = i" using assms(2) by (auto simp: JoinGroupRelation_def)
  with assms(1) show ?thesis by simp
next
  case (Some p)
  obtain g' r' where p: "p = (g', r')" by force
  with Some assms have v: "ValidateGroupID g' = Inr ()" "rx_match relationName r'" "r = NormalizeRelation r'" "g = g'"
    by (auto simp: ValidateMember_group MemberGroup_def SplitGroupRelation_def)
  have r: "r = r'" using relationName_safe(4) [OF v(2)] v(3) by simp
  have "RelationSeparator \<notin> set g" using ValidateGroupID_stored [OF v(1)] v(4) by blast
  then have "cut RelationSeparator g = None" "cut RelationSeparator (g @ RelationSeparator # r) = Some (g, r)"
    by (simp_all add: cut_None)
  then show ?thesis using v(1,2,4) r
    by (cases "r = [] \<or> r = RelationMember") (simp_all add: JoinGroupRelation_def ValidateMember_group del: disj_not1)
qed

lemma parseMemberToken_canonical:
  assumes "parseMemberToken token = Inr (t, i)"
  shows "parseMemberToken (BuildToken t i) = Inr (t, i) \<and> stored_spelling i"
proof -
  from assms obtain i0 where p: "ParseToken (trim_space token) = (t, i0)" "t \<noteq> []" "ValidateMember t (NormalizeID i0) = Inr ()"
    "i = (if t = ''group'' then (case MemberGroup (NormalizeID i0) of (g, r) \<Rightarrow> JoinGroupRelation g r) else NormalizeID i0)"
    by (auto simp: parseMemberToken_def Let_def bindE_Inr split: prod.splits if_splits)
  have t: "t \<in> {''user'', ''group'', ''pattern''}" using ParseToken_kind p(1,2) by blast
  have v: "ValidateMember t i = Inr ()"
    using p(3,4) canonical_member [of "NormalizeID i0"] by (auto split: prod.splits)
  then have s: "stored_spelling i" by (rule ValidateMember_stored)
  have "t = ''group'' \<Longrightarrow> (case MemberGroup i of (g, r) \<Rightarrow> JoinGroupRelation g r) = i"
    using p(4) MemberGroup_canonical by (auto split: prod.splits)
  then show ?thesis
    using t v s by (auto simp: parseMemberToken_def trim_BuildToken ParseToken_Build stored_spelling_def bindE_def)
qed

end
