(* ===== verification/Browse.thy ===== *)
theory Browse
  imports Service
begin

text \<open>
  \<open>internal/groupmgmt/browse.go\<close>: the listings of the group pages. The maps \<open>byID\<close>, \<open>children\<close> and
  \<open>parents\<close> are the functions the code reads them as; the missing value of a Go map (no group, hence
  no source name) is written out. \<open>readableGroup\<close> is in the theory Service.

  The lemmas: the way down to a group (\<open>pathDown\<close>) exists for every group, starts at the top of its
  source's tree, goes along edges of that source and ends with the group; a page is the asked slice
  of what is listed; who is no admin is listed only local groups they manage.
\<close>

section \<open>Pages\<close>

record BrowsedGroup =
  bg_group :: Group
  bg_editable :: bool
  bg_children :: nat

record GroupPage =
  gp_items :: "BrowsedGroup list"
  gp_total :: nat

record BrowseQuery =
  bq_query :: string
  bq_source :: string
  bq_parent :: string
  bq_path_to :: string
  bq_limit :: int
  bq_offset :: int

definition parents :: "Edge list \<Rightarrow> string \<Rightarrow> string list" where
  "parents edges i = map e_parent (filter (\<lambda>e. e_child e = i) edges)"

definition page_items :: "BrowseQuery \<Rightarrow> 'a list \<Rightarrow> 'a list" where
  "page_items q xs =
     (let total = int (length xs); start = min (max (bq_offset q) 0) total;
          end' = (if bq_limit q > 0 then min (start + bq_limit q) total else total)
      in drop (nat start) (take (nat end') xs))"

definition page :: "'s Service \<Rightarrow> Group list \<Rightarrow> Edge list \<Rightarrow> BrowseQuery \<Rightarrow> GroupPage" where
  "page svc gs edges q = \<lparr>gp_items =
       map (\<lambda>g. \<lparr>bg_group = g, bg_editable = isLocal svc g, bg_children = length (children edges (g_id g))\<rparr>) (page_items q gs),
     gp_total = length gs\<rparr>"

section \<open>The way down to a group\<close>

text \<open>\<open>byID[p].SourceName\<close>, the empty string where \<open>p\<close> is no group.\<close>

definition source_name_of :: "Group list \<Rightarrow> string \<Rightarrow> string" where
  "source_name_of all i = (case find (\<lambda>g. g_id g = i) (rev all) of None \<Rightarrow> [] | Some g \<Rightarrow> g_source_name g)"

definition sameSource :: "Group list \<Rightarrow> Edge list \<Rightarrow> Group \<Rightarrow> string \<Rightarrow> string list" where
  "sameSource all edges g i = sort (filter (\<lambda>p. source_name_of all p = g_source_name g) (parents edges i))"

fun visit_parents :: "string \<Rightarrow> string list \<Rightarrow> (string, string) gomap \<Rightarrow> string list \<Rightarrow> (string, string) gomap \<times> string list" where
  "visit_parents i [] next queue = (next, queue)"
| "visit_parents i (p # ps) next queue =
     (if lookup next p = None then visit_parents i ps ((p, i) # next) (queue @ [p]) else visit_parents i ps next queue)"

text \<open>The inner loop on \<open>next\<close>, whose newest entry is first.\<close>

lemma visit_parents_props:
  "visit_parents i ps next queue = (next', queue') \<Longrightarrow>
   \<exists>new. next' = rev (map (\<lambda>p. (p, i)) new) @ next \<and> queue' = queue @ new \<and> distinct new \<and> set new = set ps - fst ` set next"
proof (induction ps arbitrary: "next" queue)
  case (Cons p ps)
  show ?case
  proof (cases "lookup next p = None")
    case True
    then have "visit_parents i ps ((p, i) # next) (queue @ [p]) = (next', queue')" using Cons.prems by simp
    from Cons.IH [OF this] obtain new where n: "next' = rev (map (\<lambda>p. (p, i)) new) @ (p, i) # next" "queue' = queue @ p # new"
      "distinct new" "set new = set ps - insert p (fst ` set next)" by auto
    moreover have "p \<notin> fst ` set next" using True by (simp add: map_of_eq_None_iff)
    ultimately show ?thesis by (intro exI [of _ "p # new"]) auto
  next
    case False
    then have "visit_parents i ps next queue = (next', queue')" "p \<in> fst ` set next"
      using Cons.prems by (simp_all add: map_of_eq_None_iff)
    with Cons.IH [OF this(1)] show ?thesis by auto
  qed
qed auto

text \<open>The walk from the top: \<open>for at := id; at != ""; at = next[at]\<close>.\<close>

partial_function (option) follow :: "(string, string) gomap \<Rightarrow> string \<Rightarrow> string list option" where
  "follow next at = (if at = [] then Some []
     else Option.bind (follow next (lookup_default [] next at)) (\<lambda>path. Some (at # path)))"

text \<open>The search upwards, breadth first; it ends because a group is queued once.\<close>

function climb :: "Group list \<Rightarrow> Edge list \<Rightarrow> Group \<Rightarrow> (string, string) gomap \<Rightarrow> string list \<Rightarrow> string list option" where
  "climb all edges g next [] = Some [g_id g]"
| "climb all edges g next (i # queue) =
     (if length (sameSource all edges g i) = 0 then follow next i
      else case visit_parents i (sameSource all edges g i) next queue of (next', queue') \<Rightarrow> climb all edges g next' queue')"
  by pat_completeness auto
termination
proof (relation "measure (\<lambda>(all, edges, g, next, queue). 2 * card (e_parent ` set edges - fst ` set next) + length queue)", goal_cases)
  case 1
  then show ?case by simp
next
  case (2 all edges g "next" i queue next' queue')
  let ?P = "e_parent ` set edges" and ?ps = "sameSource all edges g i"
  obtain new where n: "next' = rev (map (\<lambda>p. (p, i)) new) @ next" "queue' = queue @ new" "distinct new"
    "set new = set ?ps - fst ` set next"
    using visit_parents_props [of i ?ps "next" queue next' queue'] 2 by auto
  have sub: "set new \<subseteq> ?P - fst ` set next" by (auto simp: n(4) sameSource_def parents_def)
  have keys: "fst ` set next' = fst ` set next \<union> set new" by (auto simp: n(1) image_Un image_image)
  have "card (?P - fst ` set next') + card (set new) = card (?P - fst ` set next)"
    using sub by (subst card_Un_disjoint [symmetric]) (auto simp: keys intro!: arg_cong [of _ _ card])
  moreover have "length new = card (set new)" using n(3) by (simp add: distinct_card)
  ultimately show ?case using n(2) by simp
qed

definition pathDown :: "Group list \<Rightarrow> Edge list \<Rightarrow> Group \<Rightarrow> string list option" where
  "pathDown all edges g = climb all edges g [(g_id g, [])] [g_id g]"

section \<open>Listings\<close>

definition search_all :: "'s Service \<Rightarrow> string \<Rightarrow> ('s, Group list) action" where
  "search_all svc query =
     bindS (find_groups svc query None 0) (\<lambda>gs. ret (filter (\<lambda>g. \<not> contains_str (g_id g) [RelationSeparator]) gs))"

definition allGroups :: "'s Service \<Rightarrow> ('s, Group list) action" where
  "allGroups svc = search_all svc []"

definition byID :: "Group list \<Rightarrow> string \<Rightarrow> Group option" where
  "byID all i = find (\<lambda>g. g_id g = i) (rev all)"

definition no_group :: Group where
  "no_group = \<lparr>g_id = [], g_token = [], g_display = [], g_desc = [], g_source = None, g_source_name = [],
     g_relations = [], g_created = 0, g_updated = 0\<rparr>"

text \<open>What an admin is listed. A walk that does not end would be no answer; \<open>pathDown_ends\<close> excludes it.\<close>

definition browse_admin :: "'s Service \<Rightarrow> Group list \<Rightarrow> Edge list \<Rightarrow> BrowseQuery \<Rightarrow> ('s, Group list) action" where
  "browse_admin svc all edges q =
     (if bq_path_to q \<noteq> [] then
        (case byID all (trim_prefix (bq_path_to q) GroupPrefix) of
           None \<Rightarrow> pureS (Inl ErrNotFound)
         | Some g \<Rightarrow> (case pathDown all edges g of
             None \<Rightarrow> pureS (Inl (ErrText ''no answer''))
           | Some path \<Rightarrow> ret (map (\<lambda>i. case byID all i of Some g \<Rightarrow> g | None \<Rightarrow> no_group) path)))
      else if bq_parent q \<noteq> [] then
        (case byID all (trim_prefix (bq_parent q) GroupPrefix) of
           None \<Rightarrow> pureS (Inl ErrNotFound)
         | Some _ \<Rightarrow> ret (sort_key g_id (List.map_filter (byID all)
             (children edges (trim_prefix (bq_parent q) GroupPrefix)))))
      else if trim_space (bq_query q) \<noteq> [] then
        bindS (search_all svc (bq_query q)) (\<lambda>hits.
          ret (filter (\<lambda>g. bq_source q = [] \<or> g_source_name g = bq_source q) hits))
      else if bq_source q \<noteq> [] then
        ret (filter (\<lambda>g. g_source_name g = bq_source q \<and>
          \<not> (\<exists>p \<in> set (parents edges (g_id g)). source_name_of all p = bq_source q)) all)
      else ret (filter (isLocal svc) all))"

definition Browse :: "'s Service \<Rightarrow> Caller \<Rightarrow> BrowseQuery \<Rightarrow> ('s, GroupPage) action" where
  "Browse svc caller q =
     (if \<not> cl_admin caller then
        bindS (ManagedGroups svc caller (bq_query q)) (\<lambda>gs.
        bindS (readS (\<lambda>now s. st_GroupEdges (sv_ops svc) now s)) (\<lambda>edges. ret (page svc gs edges q)))
      else
        bindS (allGroups svc) (\<lambda>all.
        bindS (readS (\<lambda>now s. st_GroupEdges (sv_ops svc) now s)) (\<lambda>edges.
        bindS (browse_admin svc all edges q) (\<lambda>out. ret (page svc out edges q)))))"

record SourceSummary =
  ss_name :: string
  ss_type :: string
  ss_local :: bool
  ss_groups :: nat
  ss_last_synced :: "time option"
  ss_last_status :: string

definition Sources :: "'s Service \<Rightarrow> Caller \<Rightarrow> ('s, SourceSummary list) action" where
  "Sources svc caller =
     (if \<not> cl_admin caller then pureS (Inl ErrForbidden)
      else bindS (readS (\<lambda>_ s. st_ListSources (sv_ops svc) s)) (\<lambda>srcs.
        bindS (allGroups svc) (\<lambda>all.
        ret (sort_key (\<lambda>x. (if ss_local x then 0 else 1 :: nat, to_lower (ss_name x)))
          (map (\<lambda>src. \<lparr>ss_name = s_name src, ss_type = s_type src, ss_local = (s_id src = sv_local svc),
             ss_groups = length (filter (\<lambda>g. g_source_name g = s_name src) all),
             ss_last_synced = s_last_synced src, ss_last_status = s_last_status src\<rparr>) srcs)))))"

section \<open>The walk ends and leads down\<close>

text \<open>
  The map \<open>next\<close> is a tree towards the group: every entry but the first was added for a group that was
  there already. \<open>steps_down\<close> is the way from an entry to the group, \<open>depth\<close> its length.
\<close>

fun tree_ok :: "string \<Rightarrow> (string \<times> string) set \<Rightarrow> (string, string) gomap \<Rightarrow> bool" where
  "tree_ok root R [] \<longleftrightarrow> False"
| "tree_ok root R [(r, e)] \<longleftrightarrow> r = root \<and> e = []"
| "tree_ok root R ((p, i) # nx) \<longleftrightarrow> p \<notin> fst ` set nx \<and> i \<in> fst ` set nx \<and> (i, p) \<in> R \<and> tree_ok root R nx"

fun steps_down :: "(string, string) gomap \<Rightarrow> string \<Rightarrow> string list" where
  "steps_down [] at = []"
| "steps_down ((p, i) # nx) at = (if at = p then at # (if nx = [] then [] else steps_down nx i) else steps_down nx at)"

definition leads :: "(string \<times> string) set \<Rightarrow> string list \<Rightarrow> bool" where
  "leads R path \<longleftrightarrow> path \<noteq> [] \<and> successively (\<lambda>p c. (c, p) \<in> R) path"

lemma leads_Cons: "leads R (p # path) \<longleftrightarrow> path = [] \<or> (hd path, p) \<in> R \<and> leads R path"
  by (auto simp: leads_def successively_Cons)

lemma tree_ok_Cons: "nx \<noteq> [] \<Longrightarrow> tree_ok root R ((p, i) # nx) \<longleftrightarrow>
    p \<notin> fst ` set nx \<and> i \<in> fst ` set nx \<and> (i, p) \<in> R \<and> tree_ok root R nx"
  by (cases nx) auto

lemma steps_down_tree:
  "tree_ok root R nx \<Longrightarrow> at \<in> fst ` set nx \<Longrightarrow>
   leads R (steps_down nx at) \<and> hd (steps_down nx at) = at \<and> last (steps_down nx at) = root
   \<and> set (steps_down nx at) \<subseteq> fst ` set nx
   \<and> lookup_default [] nx at = (case tl (steps_down nx at) of [] \<Rightarrow> [] | c # _ \<Rightarrow> c)
   \<and> (tl (steps_down nx at) \<noteq> [] \<longrightarrow> tl (steps_down nx at) = steps_down nx (hd (tl (steps_down nx at))))"
proof (induction nx arbitrary: at)
  case (Cons e nx)
  obtain p i where e: "e = (p, i)" by force
  show ?case
  proof (cases "nx = []")
    case True
    with Cons.prems e show ?thesis by (auto simp: leads_def lookup_default_def)
  next
    case False
    with Cons.prems(1) e have t: "p \<notin> fst ` set nx" "i \<in> fst ` set nx" "(i, p) \<in> R" "tree_ok root R nx"
      by (simp_all add: tree_ok_Cons)
    show ?thesis
    proof (cases "at = p")
      case True
      note IH = Cons.IH [OF t(4,2)]
      have "steps_down nx i \<noteq> []" using IH by (auto simp: leads_def)
      then obtain path where "steps_down nx i = i # path" using IH by (cases "steps_down nx i") auto
      moreover have "i \<noteq> p" using t(1,2) by blast
      ultimately show ?thesis using IH False True e t(3) by (auto simp: leads_Cons lookup_default_def)
    next
      case other: False
      with Cons.prems(2) e have a: "at \<in> fst ` set nx" by auto
      note IH = Cons.IH [OF t(4) a]
      have "hd (tl (steps_down nx at)) \<noteq> p" if "tl (steps_down nx at) \<noteq> []"
        using IH that t(1) by (metis hd_in_set list.set_sel(2) subsetD leads_def)
      then show ?thesis using IH other e False by (auto simp: lookup_default_def)
    qed
  qed
qed simp

lemma follow_steps:
  assumes "tree_ok root R nx" "at \<in> fst ` set nx" "[] \<notin> fst ` set nx"
  shows "follow nx at = Some (steps_down nx at)"
  using assms(2)
proof (induction "length (steps_down nx at)" arbitrary: at rule: less_induct)
  case less
  note S = steps_down_tree [OF assms(1) less.prems]
  have at: "at \<noteq> []" using less.prems assms(3) by blast
  obtain path where p: "steps_down nx at = at # path" using S by (cases "steps_down nx at") (auto simp: leads_def)
  show ?case
  proof (cases path)
    case Nil
    have "lookup_default [] nx at = (case tl (steps_down nx at) of [] \<Rightarrow> [] | c # _ \<Rightarrow> c)" using S by blast
    then have "lookup_default [] nx at = []" by (simp only: p Nil list.sel list.case)
    then show ?thesis using at p Nil by (simp add: follow.simps)
  next
    case (Cons c path')
    have c: "lookup_default [] nx at = c" "path = steps_down nx c" "c \<in> fst ` set nx" using S p Cons by auto
    have "follow nx c = Some path" using less.hyps [of c] p c by simp
    then show ?thesis using at p c(1) by (simp add: follow.simps)
  qed
qed

lemma tree_ok_grow:
  assumes "tree_ok root R nx" "i \<in> fst ` set nx"
    and "distinct ps" "set ps \<inter> fst ` set nx = {}" "\<And>p. p \<in> set ps \<Longrightarrow> (i, p) \<in> R"
  shows "tree_ok root R (map (\<lambda>p. (p, i)) ps @ nx) \<and>
    steps_down (map (\<lambda>p. (p, i)) ps @ nx) at = (if at \<in> set ps then at # steps_down nx i else steps_down nx at)"
  using assms(3-)
proof (induction ps arbitrary: at)
  case (Cons p ps)
  have "map (\<lambda>p. (p, i)) ps @ nx \<noteq> []" using assms(1) by auto
  moreover have "i \<notin> set ps" using Cons.prems(2) assms(2) by auto
  ultimately show ?case using Cons assms(2) by (auto simp: tree_ok_Cons image_Un image_image)
qed (use assms in simp)

text \<open>The state of a search that started at \<open>root\<close>: what is in \<open>visited\<close> has been expanded.\<close>

abbreviation depth :: "(string, string) gomap \<Rightarrow> string \<Rightarrow> nat" where
  "depth nx x \<equiv> length (steps_down nx x)"

definition searched :: "string \<Rightarrow> (string \<times> string) set \<Rightarrow> (string, string) gomap \<Rightarrow> string list \<Rightarrow> string set \<Rightarrow> bool" where
  "searched root R nx queue visited \<longleftrightarrow>
     tree_ok root R nx \<and> root \<in> fst ` set nx \<and> depth nx root = 1 \<and> fst ` set nx = visited \<union> set queue
     \<and> sorted (map (depth nx) queue)
     \<and> (\<forall>x \<in> set queue. depth nx x \<le> Suc (depth nx (hd queue)))
     \<and> (\<forall>y \<in> visited. queue \<noteq> [] \<longrightarrow> depth nx y \<le> depth nx (hd queue))
     \<and> (\<forall>y \<in> visited. (\<exists>x. (y, x) \<in> R) \<and> (\<forall>x. (y, x) \<in> R \<longrightarrow> x \<in> fst ` set nx \<and> depth nx x \<le> Suc (depth nx y)))"

lemma searched_reach:
  assumes s: "searched root R nx queue visited" and "leads R path" "last path = root"
  shows "(hd path \<in> visited \<and> depth nx (hd path) \<le> length path) \<or> (queue \<noteq> [] \<and> depth nx (hd queue) \<le> length path)"
proof -
  have first: "depth nx (hd queue) \<le> depth nx x" if "x \<in> set queue" for x
    using s that by (cases queue) (auto simp: searched_def)
  have known: "x \<in> visited \<or> x \<in> set queue" if "x \<in> fst ` set nx" for x
    using s that unfolding searched_def by blast
  show ?thesis
    using assms(2,3)
  proof (induction path)
    case (Cons x path)
    have "x \<in> fst ` set nx \<and> depth nx x \<le> length (x # path) \<or> (queue \<noteq> [] \<and> depth nx (hd queue) \<le> length path)"
    proof (cases "path = []")
      case True
      moreover have "root \<in> fst ` set nx" "depth nx root = 1" using s unfolding searched_def by blast+
      ultimately show ?thesis using Cons.prems by simp
    next
      case False
      then have "(hd path, x) \<in> R" "leads R path" "last path = root" using Cons.prems by (simp_all add: leads_Cons)
      with Cons.IH s show ?thesis unfolding searched_def by (fastforce intro: le_trans)
    qed
    then show ?case
    proof
      assume x: "x \<in> fst ` set nx \<and> depth nx x \<le> length (x # path)"
      show ?thesis
      proof (cases "x \<in> visited")
        case False
        then have "x \<in> set queue" using known x by blast
        with first [OF this] x show ?thesis by force
      qed (use x in simp)
    qed simp
  qed (simp add: leads_def)
qed

lemma searched_step:
  assumes s: "searched root R nx (i # queue) visited" and ps: "set ps = {p. (i, p) \<in> R}" "ps \<noteq> []"
    and v: "visit_parents i ps nx queue = (nx', queue')"
  shows "searched root R nx' queue' (insert i visited)"
proof -
  obtain new where new: "nx' = rev (map (\<lambda>p. (p, i)) new) @ nx" "queue' = queue @ new" "distinct new"
    "set new = set ps - fst ` set nx"
    using visit_parents_props [OF v] by auto
  have S: "tree_ok root R nx" "root \<in> fst ` set nx" "depth nx root = 1" "fst ` set nx = visited \<union> set (i # queue)"
    "\<forall>y \<in> visited. (\<exists>x. (y, x) \<in> R) \<and> (\<forall>x. (y, x) \<in> R \<longrightarrow> x \<in> fst ` set nx \<and> depth nx x \<le> Suc (depth nx y))"
    and raw: "sorted (map (depth nx) (i # queue))"
    "\<forall>x \<in> set (i # queue). depth nx x \<le> Suc (depth nx (hd (i # queue)))"
    "\<forall>y \<in> visited. i # queue \<noteq> [] \<longrightarrow> depth nx y \<le> depth nx (hd (i # queue))"
    using s unfolding searched_def by blast+
  have i: "i \<in> fst ` set nx" using S(4) by simp
  have O: "sorted (map (depth nx) (i # queue))" "\<forall>x \<in> set queue. depth nx x \<le> Suc (depth nx i)"
    "\<forall>y \<in> visited. depth nx y \<le> depth nx i"
    using raw by simp_all
  have nx': "nx' = map (\<lambda>p. (p, i)) (rev new) @ nx" using new(1) by (simp add: rev_map)
  have pre: "distinct (rev new)" "set (rev new) \<inter> fst ` set nx = {}" "\<And>p. p \<in> set (rev new) \<Longrightarrow> (i, p) \<in> R"
    using new(3) ps(1) unfolding set_rev new(4) by auto
  have grow: "tree_ok root R nx'" "\<And>x. depth nx' x = (if x \<in> set new then Suc (depth nx i) else depth nx x)"
    using tree_ok_grow [OF S(1) i pre] by (simp_all add: nx')
  have keys: "fst ` set nx' = fst ` set nx \<union> set new" by (auto simp: nx' image_Un image_image)
  have old: "depth nx' x = depth nx x" if "x \<in> fst ` set nx" for x using that unfolding grow(2) new(4) by simp
  have q: "depth nx' x = depth nx x" if "x \<in> set queue" for x using that S(4) old by auto
  have dq: "map (depth nx') queue = map (depth nx) queue" using q by simp
  have dn: "map (depth nx') new = map (\<lambda>_. Suc (depth nx i)) new" by (simp add: grow(2))
  have head: "depth nx i \<le> depth nx' (hd queue')" if "queue' \<noteq> []"
    using that O(1) q grow(2) by (cases queue; cases new) (auto simp: new(2))
  have "sorted (map (depth nx') queue')"
    unfolding new(2) map_append dq dn using O(1,2) by (auto simp: sorted_append sorted_wrt_map)
  moreover have "\<forall>x \<in> set queue'. depth nx' x \<le> Suc (depth nx' (hd queue'))"
  proof
    fix x assume x: "x \<in> set queue'"
    then have "depth nx' x \<le> Suc (depth nx i)" using O(2) q grow(2) by (auto simp: new(2))
    also have "\<dots> \<le> Suc (depth nx' (hd queue'))" using head x by (cases "queue' = []") simp_all
    finally show "depth nx' x \<le> Suc (depth nx' (hd queue'))" .
  qed
  moreover have "\<forall>y \<in> insert i visited. queue' \<noteq> [] \<longrightarrow> depth nx' y \<le> depth nx' (hd queue')"
    using i S(4) O(3) old head by (auto intro: le_trans)
  moreover have "\<forall>y \<in> insert i visited. (\<exists>x. (y, x) \<in> R) \<and> (\<forall>x. (y, x) \<in> R \<longrightarrow> x \<in> fst ` set nx' \<and> depth nx' x \<le> Suc (depth nx' y))"
  proof
    fix y assume "y \<in> insert i visited"
    then consider "y = i" | "y \<in> visited" by blast
    then show "(\<exists>x. (y, x) \<in> R) \<and> (\<forall>x. (y, x) \<in> R \<longrightarrow> x \<in> fst ` set nx' \<and> depth nx' x \<le> Suc (depth nx' y))"
    proof cases
      case 1
      have "x \<in> fst ` set nx' \<and> depth nx' x \<le> Suc (depth nx i)" if "(i, x) \<in> R" for x
      proof (cases "x \<in> set new")
        case False
        then have "x \<in> visited \<union> set (i # queue)" using that ps(1) new(4) S(4) by blast
        then have "depth nx x \<le> Suc (depth nx i)" using O(2,3) by (auto intro: le_SucI)
        then show ?thesis using False that ps(1) new(4) by (auto simp: keys grow(2))
      qed (simp add: keys grow(2))
      moreover have "\<exists>x. (i, x) \<in> R" using ps by (cases ps) auto
      ultimately show ?thesis using 1 old [OF i] by auto
    next
      case 2
      then have "y \<in> fst ` set nx" using S(4) by blast
      then show ?thesis using S(5) 2 old by (auto simp: keys)
    qed
  qed
  moreover have "fst ` set nx' = insert i visited \<union> set queue'" using S(4) keys by (auto simp: new(2))
  ultimately show ?thesis
    unfolding searched_def using grow(1) S(2,3) old [OF S(2)] keys by auto
qed

definition ups :: "Group list \<Rightarrow> Edge list \<Rightarrow> Group \<Rightarrow> (string \<times> string) set" where
  "ups all edges g = {(c, p). p \<in> set (parents edges c) \<and> source_name_of all p = g_source_name g}"

text \<open>A shortest way down from a top, or the group alone where no top lies above it.\<close>

definition down_to :: "(string \<times> string) set \<Rightarrow> string \<Rightarrow> string list \<Rightarrow> bool" where
  "down_to R i path \<longleftrightarrow> leads R path \<and> last path = i \<and> hd path \<notin> Domain R"

definition way_down :: "(string \<times> string) set \<Rightarrow> string \<Rightarrow> string list \<Rightarrow> bool" where
  "way_down R i path \<longleftrightarrow>
     (down_to R i path \<and> (\<forall>other. down_to R i other \<longrightarrow> length path \<le> length other))
     \<or> (path = [i] \<and> (\<forall>other. \<not> down_to R i other))"

lemma set_sameSource: "set (sameSource all edges g i) = {p. (i, p) \<in> ups all edges g}"
  by (auto simp: sameSource_def ups_def)

lemma climb_way_down:
  assumes "searched (g_id g) (ups all edges g) nx queue visited"
    and "[] \<notin> e_parent ` set edges" "[] \<notin> fst ` set nx"
  shows "\<exists>path. climb all edges g nx queue = Some path \<and> way_down (ups all edges g) (g_id g) path"
  using assms
proof (induction all edges g nx queue arbitrary: visited rule: climb.induct)
  case (1 all edges g nx)
  let ?R = "ups all edges g"
  have "\<not> down_to ?R (g_id g) other" for other
  proof
    assume d: "down_to ?R (g_id g) other"
    then have "hd other \<in> visited" using searched_reach [OF 1(1)] by (auto simp: down_to_def)
    then have "hd other \<in> Domain ?R" using 1(1) unfolding searched_def by blast
    with d show False by (simp add: down_to_def)
  qed
  then show ?case by (simp add: way_down_def)
next
  case (2 all edges g nx i queue)
  let ?R = "ups all edges g" and ?ps = "sameSource all edges g i"
  have t: "tree_ok (g_id g) ?R nx" using 2(2) unfolding searched_def by blast
  have i: "i \<in> fst ` set nx" using 2(2) by (simp add: searched_def)
  show ?case
  proof (cases "?ps = []")
    case True
    note S = steps_down_tree [OF t i]
    have top: "i \<notin> Domain ?R" using True set_sameSource [of all edges g i] by auto
    have "depth nx i \<le> length other" if d: "down_to ?R (g_id g) other" for other
    proof -
      have "hd other \<notin> visited" using d 2(2) unfolding searched_def down_to_def by blast
      then show ?thesis using searched_reach [OF 2(2), of other] d by (simp add: down_to_def)
    qed
    then have "way_down ?R (g_id g) (steps_down nx i)" using S top by (simp add: way_down_def down_to_def)
    then show ?thesis using True follow_steps [OF t i 2(4)] by simp
  next
    case False
    obtain nx' queue' where v: "visit_parents i ?ps nx queue = (nx', queue')" by force
    note step = searched_step [OF 2(2) set_sameSource False v]
    have "[] \<notin> fst ` set nx'"
    proof -
      obtain new where n: "nx' = rev (map (\<lambda>p. (p, i)) new) @ nx" "set new = set ?ps - fst ` set nx"
        using visit_parents_props [OF v] by blast
      have "set ?ps \<subseteq> e_parent ` set edges" by (auto simp: sameSource_def parents_def)
      then have "[] \<notin> set new" using n(2) 2(3) by blast
      then show ?thesis using 2(4) by (auto simp: n(1))
    qed
    with 2(1) [OF _ v [symmetric] step 2(3)] False v show ?thesis by simp
  qed
qed

theorem pathDown_ends:
  assumes "g_id g \<noteq> []" "[] \<notin> e_parent ` set edges"
  shows "\<exists>path. pathDown all edges g = Some path \<and> way_down (ups all edges g) (g_id g) path"
proof -
  have "searched (g_id g) (ups all edges g) [(g_id g, [])] [g_id g] {}" by (simp add: searched_def)
  from climb_way_down [OF this] assms show ?thesis by (simp add: pathDown_def)
qed

section \<open>Pages and rights\<close>

lemma page_items_bounds:
  "length (page_items q xs) = (let rest = length xs - nat (bq_offset q)
      in if bq_limit q > 0 then min (nat (bq_limit q)) rest else rest)"
  by (auto simp: page_items_def Let_def min_def max_def)

lemma page_items_nth:
  "k < length (page_items q xs) \<Longrightarrow> page_items q xs ! k = xs ! (nat (bq_offset q) + k)"
  by (auto simp: page_items_def Let_def min_def max_def split: if_splits)

lemma Browse_nobody:
  assumes "\<not> cl_admin caller" "Browse svc caller q w = (w', Inr p)"
    and managed: "\<And>ts is. st_ManagedGroups (sv_ops svc) (w_store w) ts = Inr is \<Longrightarrow> set is = managed ts"
  shows "w' = w \<and> (\<forall>b \<in> set (gp_items p). g_id (bg_group b) \<in> managed (cl_tokens caller) \<and> isLocal svc (bg_group b))"
proof -
  obtain gs edges w1 where run: "ManagedGroups svc caller (bq_query q) w = (w1, Inr gs)" "w' = w1"
    "p = page svc gs edges q"
    using assms(1,2) by (auto simp: Browse_def bindS_Inr readS_run ret_run)
  have "w1 = w \<and> (\<forall>g \<in> set gs. g_id g \<in> managed (cl_tokens caller) \<and> isLocal svc g)"
    using run(1) assms(1) managed
    by (auto simp: ManagedGroups_def find_groups_def bindS_Inr readS_run ret_run split: if_splits)
  moreover have "set (page_items q gs) \<subseteq> set gs" 
    by (auto simp: page_items_def Let_def dest!: in_set_dropD in_set_takeD)
  ultimately show ?thesis using run(2,3) by (auto simp: page_def)
qed

end
