(* ===== verification/Csv.thy ===== *)
theory Csv
  imports Validate
begin

text \<open>
  \<open>internal/sync/csv_importer.go\<close>: group memberships from a CSV file. \<open>csv_records\<close> is what the
  file uses of \<open>encoding/csv\<close> (comma, \<open>TrimLeadingSpace\<close>, comment \<open>#\<close>, any number of fields, no
  lazy quotes): lines with their end normalised, comment and empty lines skipped, quoted fields
  over several lines, and the errors for a stray quote. \<open>ParseCSV\<close> then reads the records.

  The lemmas: every tuple of a file that is accepted passed the validators, one malformed row
  refuses the file, rows without a relation are plain memberships, and what simple rows mean.
\<close>

section \<open>Reading records\<close>

text \<open>\<open>readLine\<close>: up to and with the newline, \<open>\r\n\<close> as \<open>\n\<close>; \<open>None\<close> at the end of the input.\<close>

definition readLine :: "string \<Rightarrow> (string \<times> string) option" where
  "readLine s = (if s = [] then None
     else case cut (CHR 0x0A) s of
       None \<Rightarrow> Some (if last s = CHR 0x0D then butlast s else s, [])
     | Some (l, rest) \<Rightarrow> Some ((if l \<noteq> [] \<and> last l = CHR 0x0D then butlast l else l) @ [CHR 0x0A], rest))"

definition strip_NL :: "string \<Rightarrow> string" where
  "strip_NL l = (if l \<noteq> [] \<and> last l = CHR 0x0A then butlast l else l)"

lemma readLine_length: "readLine s = Some (l, rest) \<Longrightarrow> length l + length rest \<le> length s \<and> length rest < length s"
  by (auto simp: readLine_def split: option.splits if_splits dest!: cut_SomeD)

lemma cut_length: "cut c s = Some (a, b) \<Longrightarrow> length b < length s"
  by (auto dest: cut_SomeD)

lemma length_dropWhile: "length (dropWhile p s) \<le> length s"
  by (induction s) auto

lemma cut_dropWhile_length: "cut c (dropWhile p s) = Some (a, b) \<Longrightarrow> length b < length s"
  using cut_length [of c "dropWhile p s" a b] length_dropWhile [of p s] by linarith

lemma tl_dropWhile_length: "dropWhile p s \<noteq> [] \<Longrightarrow> length (tl (dropWhile p s)) < length s"
  using length_dropWhile [of p s] by (cases "dropWhile p s") auto

lemma tl_length_less: "length s < n \<Longrightarrow> length (tl s) < n"
  by simp

text \<open>
  The fields of one record: \<open>line\<close> is what is left of the line, \<open>rest\<close> the input after it.
  \<open>csv_quoted\<close> continues a quoted field with what it holds so far.
\<close>

function csv_fields :: "string \<Rightarrow> string \<Rightarrow> (string list \<times> string) option"
  and csv_quoted :: "string \<Rightarrow> string \<Rightarrow> string \<Rightarrow> (string list \<times> string) option" where
  "csv_fields l rest =
     (let line = dropWhile is_space l in
      if line = [] \<or> hd line \<noteq> CHR 0x22 then
        (case cut (CHR '','') line of
           None \<Rightarrow> (let field = strip_NL line in
                     if CHR 0x22 \<in> set field then None else Some ([field], rest))
         | Some (field, line') \<Rightarrow>
             if CHR 0x22 \<in> set field then None
             else map_option (\<lambda>(fs, r). (field # fs, r)) (csv_fields line' rest))
      else csv_quoted (tl line) rest [])"
| "csv_quoted line rest field =
     (case cut (CHR 0x22) line of
        Some (a, line') \<Rightarrow>
          if line' \<noteq> [] \<and> hd line' = CHR 0x22 then csv_quoted (tl line') rest (field @ a @ [CHR 0x22])
          else if line' \<noteq> [] \<and> hd line' = CHR '','' then
            map_option (\<lambda>(fs, r). ((field @ a) # fs, r)) (csv_fields (tl line') rest)
          else if strip_NL line' = [] then Some ([field @ a], rest)
          else None
      | None \<Rightarrow>
          if line = [] then None
          else (case readLine rest of
              None \<Rightarrow> None
            | Some (line', rest') \<Rightarrow> csv_quoted line' rest' (field @ line)))"
  by pat_completeness auto

termination
  by (relation "measure (\<lambda>x. case x of Inl (l, rest) \<Rightarrow> length l + length rest
        | Inr (line, rest, field) \<Rightarrow> length line + length rest)")
    (auto simp: tl_dropWhile_length dest!: sym [of "Some _"] readLine_length cut_length
      simp del: length_tl intro!: tl_length_less
      intro: less_le_trans [OF _ length_dropWhile] add_less_le_mono [of 0, simplified] le_less_trans)

declare csv_fields.simps [simp del] csv_quoted.simps [simp del]


datatype csv_result = CsvEOF | CsvError | CsvRecord "string list" string

function next_record :: "string \<Rightarrow> csv_result" where
  "next_record s = (case readLine s of
     None \<Rightarrow> CsvEOF
   | Some (l, rest) \<Rightarrow>
       if l \<noteq> [] \<and> hd l = CHR ''#'' then next_record rest
       else if strip_NL l = [] then next_record rest
       else (case csv_fields l rest of None \<Rightarrow> CsvError | Some (fs, r) \<Rightarrow> CsvRecord fs r))"
  by pat_completeness auto
termination
  by (relation "measure length") (auto dest!: sym [of "Some _"] readLine_length)

declare next_record.simps [simp del]

text \<open>One step of each, as rules.\<close>

lemma csv_fields_cases:
  assumes "csv_fields l rest = Some (fs, r)"
  obtains (last) "r = rest" | (more) line' fs' where "csv_fields line' rest = Some (fs', r)"
      "cut (CHR '','') (dropWhile is_space l) \<noteq> None" "line' = snd (the (cut (CHR '','') (dropWhile is_space l)))"
      "dropWhile is_space l = [] \<or> hd (dropWhile is_space l) \<noteq> CHR 0x22"
      "CHR 0x22 \<notin> set (fst (the (cut (CHR '','') (dropWhile is_space l))))"
  | (quoted) "csv_quoted (tl (dropWhile is_space l)) rest [] = Some (fs, r)"
      "\<not> (dropWhile is_space l = [] \<or> hd (dropWhile is_space l) \<noteq> CHR 0x22)"
proof (cases "dropWhile is_space l = [] \<or> hd (dropWhile is_space l) \<noteq> CHR 0x22")
  case True
  show thesis
  proof (cases "cut (CHR '','') (dropWhile is_space l)")
    case None
    with assms True have "r = rest"
      by (simp add: csv_fields.simps [of l rest] Let_def split: if_splits)
    then show thesis by (rule last)
  next
    case (Some p)
    obtain f l' where p: "p = (f, l')" by force
    with assms True Some have "CHR 0x22 \<notin> set f" "\<exists>fs'. csv_fields l' rest = Some (fs', r)"
      by (auto simp add: csv_fields.simps [of l rest] Let_def split: if_splits)
    then show thesis using more True Some p by auto
  qed
next
  case False
  moreover from False assms have "csv_quoted (tl (dropWhile is_space l)) rest [] = Some (fs, r)"
    by (auto simp add: csv_fields.simps [of l rest] Let_def split: if_splits)
  ultimately show thesis using quoted by blast
qed

lemma csv_fields_rest:
  "\<And>fs r. csv_fields l rest = Some (fs, r) \<Longrightarrow> length r \<le> length rest"
  "\<And>fs r. csv_quoted line rest field = Some (fs, r) \<Longrightarrow> length r \<le> length rest"
proof (induction l rest and line rest field rule: csv_fields_csv_quoted.induct)
  case (1 l rest)
  from 1(3) show ?case
  proof (cases rule: csv_fields_cases)
    case (more line' fs')
    then show ?thesis using 1(1) by fastforce
  next
    case quoted
    then show ?thesis using 1(2) by blast
  qed simp
next
  case (2 line rest field)
  show ?case
  proof (cases "cut (CHR 0x22) line")
    case None
    with 2(4) obtain line' rest' where "line \<noteq> []" "readLine rest = Some (line', rest')"
      "csv_quoted line' rest' (field @ line) = Some (fs, r)"
      by (auto simp add: csv_quoted.simps [of line rest field] split: if_splits option.splits)
    then have "length r \<le> length rest'" "length rest' < length rest"
      using "2.IH"(1) [OF None] readLine_length by blast+
    then show ?thesis by simp
  next
    case (Some p)
    obtain a line' where p: "p = (a, line')" by force
    consider "line' \<noteq> [] \<and> hd line' = CHR 0x22" | "\<not> (line' \<noteq> [] \<and> hd line' = CHR 0x22)" "line' \<noteq> [] \<and> hd line' = CHR '',''"
      | "\<not> (line' \<noteq> [] \<and> hd line' = CHR 0x22)" "\<not> (line' \<noteq> [] \<and> hd line' = CHR '','')" by blast
    then show ?thesis
    proof cases
      case 1
      then have "csv_quoted (tl line') rest (field @ a @ [CHR 0x22]) = Some (fs, r)"
        using 2(4) Some p by (simp add: csv_quoted.simps [of line rest field])
      then show ?thesis using "2.IH"(2) [OF Some [unfolded p] refl 1] by blast
    next
      case 2
      then obtain fs' where "csv_fields (tl line') rest = Some (fs', r)"
        using "2.prems" Some p by (auto simp add: csv_quoted.simps [of line rest field])
      then show ?thesis using "2.IH"(3) [OF Some [unfolded p] refl 2] by blast
    next
      case 3
      then show ?thesis using "2.prems" Some p
        by (simp add: csv_quoted.simps [of line rest field] split: if_splits)
    qed
  qed
qed

lemma next_record_shorter: "next_record s = CsvRecord fs r \<Longrightarrow> length r < length s"
proof (induction s rule: next_record.induct)
  case (1 s)
  show ?case
  proof (cases "readLine s")
    case None
    then show ?thesis using 1(3) by (simp add: next_record.simps [of s])
  next
    case (Some p)
    obtain l rest where p: "p = (l, rest)" by force
    have sh: "length rest < length s" using readLine_length Some p by blast
    consider (comment) "l \<noteq> [] \<and> hd l = CHR ''#''" | (blank) "\<not> (l \<noteq> [] \<and> hd l = CHR ''#'')" "strip_NL l = []"
      | (data) "\<not> (l \<noteq> [] \<and> hd l = CHR ''#'')" "strip_NL l \<noteq> []" by blast
    then show ?thesis
    proof cases
      case comment
      then have "next_record rest = CsvRecord fs r" using 1(3) Some p by (simp add: next_record.simps [of s])
      then show ?thesis using 1(1) [OF Some p [symmetric] comment] sh by simp
    next
      case blank
      then have "next_record rest = CsvRecord fs r" using 1(3) Some p by (auto simp add: next_record.simps [of s] split: if_splits)
      then show ?thesis using 1(2) [OF Some p [symmetric] blank] sh by simp
    next
      case data
      then have "csv_fields l rest = Some (fs, r)"
        using 1(3) Some p by (auto simp add: next_record.simps [of s] split: if_splits option.splits)
      then show ?thesis using csv_fields_rest(1) sh by fastforce
    qed
  qed
qed

section \<open>Columns\<close>

record CsvColumns =
  col_group :: int
  col_member :: int
  col_description :: int
  col_relation :: int

definition cell :: "string list \<Rightarrow> int \<Rightarrow> string" where
  "cell rec i = (if i < 0 \<or> i \<ge> int (length rec) then [] else rec ! nat i)"

definition isHeader :: "string list \<Rightarrow> bool" where
  "isHeader rec \<longleftrightarrow> rec \<noteq> [] \<and> to_lower (trim_space (hd rec)) \<in> {''group'', ''group_id''}"

fun header_loop :: "int \<Rightarrow> string list \<Rightarrow> CsvColumns \<Rightarrow> error + CsvColumns" where
  "header_loop i [] cols = Inr cols"
| "header_loop i (name # names) cols =
     (let n = to_lower (trim_space name) in
      if n = ''group'' \<or> n = ''group_id'' then header_loop (i + 1) names (cols\<lparr>col_group := i\<rparr>)
      else if n = ''member'' \<or> n = ''user'' \<or> n = ''user_email'' then header_loop (i + 1) names (cols\<lparr>col_member := i\<rparr>)
      else if n = ''description'' then header_loop (i + 1) names (cols\<lparr>col_description := i\<rparr>)
      else if n = ''relation'' then header_loop (i + 1) names (cols\<lparr>col_relation := i\<rparr>)
      else if n = ''name'' \<or> n = ''note'' \<or> n = [] then header_loop (i + 1) names cols
      else Inl (ErrText ''unknown column''))"

definition headerColumns :: "string list \<Rightarrow> error + CsvColumns" where
  "headerColumns rec =
     bindE (header_loop 0 rec \<lparr>col_group = -1, col_member = -1, col_description = -1, col_relation = -1\<rparr>) (\<lambda>cols.
       if col_group cols < 0 \<or> col_member cols < 0 then Inl (ErrText ''csv header must name a group and a member column'')
       else Inr cols)"

definition resolveMember :: "string \<Rightarrow> string \<times> string" where
  "resolveMember member =
     (if has_prefix member UserPrefix then (''user'', trim_prefix member UserPrefix)
      else if has_prefix member GroupPrefix then (''group'', trim_prefix member GroupPrefix)
      else if has_prefix member PatternPrefix then (''pattern'', trim_prefix member PatternPrefix)
      else if contains_str member ''@'' then (''user'', member)
      else (''group'', member))"

section \<open>The file\<close>

definition BOM :: string where "BOM = [CHR 0xEF, CHR 0xBB, CHR 0xBF]"

text \<open>One row after the header: \<open>None\<close> is a row that is skipped.\<close>

definition csv_row :: "CsvColumns \<Rightarrow> string list \<Rightarrow> error + (TuplePair \<times> string) option" where
  "csv_row cols rec =
     (let g = trim_space (cell rec (col_group cols)); member = trim_space (cell rec (col_member cols)) in
      if g = [] \<or> member = [] then Inr None
      else let g = NormalizeID (trim_prefix g GroupPrefix); (memberType, memberID) = resolveMember member;
               t = \<lparr>p_group = g, p_relation = NormalizeRelation (trim_space (cell rec (col_relation cols))),
                    p_type = memberType, p_member = NormalizeID memberID\<rparr>
           in bindE (ValidateTuple t) (\<lambda>_. Inr (Some (t, trim_space (cell rec (col_description cols))))))"

function csv_loop :: "string \<Rightarrow> nat \<Rightarrow> CsvColumns \<Rightarrow> TuplePair list \<Rightarrow> (string, string) gomap
    \<Rightarrow> error + TuplePair list \<times> (string, string) gomap" where
  "csv_loop s lineNum cols ts descriptions =
     (case next_record s of
        CsvEOF \<Rightarrow> Inr (ts, descriptions)
      | CsvError \<Rightarrow> Inl (ErrText ''csv parse error'')
      | CsvRecord rec rest \<Rightarrow>
          (let rec = (if lineNum = 0 \<and> rec \<noteq> [] then trim_prefix (hd rec) BOM # tl rec else rec) in
           if lineNum = 0 \<and> isHeader rec then
             (case headerColumns rec of Inl e \<Rightarrow> Inl e | Inr cols \<Rightarrow> csv_loop rest 1 cols ts descriptions)
           else case csv_row cols rec of
               Inl e \<Rightarrow> Inl e
             | Inr None \<Rightarrow> csv_loop rest (Suc lineNum) cols ts descriptions
             | Inr (Some (t, desc)) \<Rightarrow>
                 csv_loop rest (Suc lineNum) cols (ts @ [t])
                   (if desc \<noteq> [] then put (p_group t) desc descriptions else descriptions)))"
  by pat_completeness auto
termination
  by (relation "measure (\<lambda>(s, _). length s)") (auto dest: sym next_record_shorter)

declare csv_loop.simps [simp del]

definition ParseCSV :: "string \<Rightarrow> error + TuplePair list \<times> (string, string) gomap" where
  "ParseCSV s = csv_loop s 0 \<lparr>col_group = 0, col_member = 1, col_description = 2, col_relation = -1\<rparr> [] []"


section \<open>What is accepted\<close>

lemma csv_row_valid: "csv_row cols rec = Inr (Some (t, desc)) \<Longrightarrow> ValidateTuple t = Inr () \<and> p_relation t \<noteq> []"
  by (auto simp: csv_row_def Let_def bindE_Inr split: if_splits prod.splits)

text \<open>What the loop adds: valid tuples, and descriptions of groups it adds tuples to.\<close>

lemma csv_loop_valid:
  assumes "csv_loop s n cols ts ds = Inr (ts', ds')"
    and "\<forall>t \<in> set ts. ValidateTuple t = Inr () \<and> p_relation t \<noteq> []" and "dom (lookup ds) \<subseteq> p_group ` set ts"
  shows "(\<forall>t \<in> set ts'. ValidateTuple t = Inr () \<and> p_relation t \<noteq> []) \<and> dom (lookup ds') \<subseteq> p_group ` set ts'"
  using assms
proof (induction s n cols ts ds rule: csv_loop.induct)
  case (1 s n cols ts ds)
  let ?rec = "\<lambda>rec. if n = 0 \<and> rec \<noteq> [] then trim_prefix (hd rec) BOM # tl rec else rec"
  show ?case
  proof (cases "next_record s")
    case CsvEOF
    then show ?thesis using 1(4-6) by (simp add: csv_loop.simps [of s])
  next
    case CsvError
    then show ?thesis using 1(4) by (simp add: csv_loop.simps [of s])
  next
    case (CsvRecord rec rest)
    show ?thesis
    proof (cases "n = 0 \<and> isHeader (?rec rec)")
      case True
      with 1(4) CsvRecord obtain cols' where c: "headerColumns (?rec rec) = Inr cols'"
        "csv_loop rest 1 cols' ts ds = Inr (ts', ds')"
        by (auto simp: csv_loop.simps [of s] Let_def split: sum.splits)
      show ?thesis by (rule "1.IH"(1) [OF CsvRecord refl True c(1) c(2) 1(5,6)])
    next
      case False
      with 1(4) CsvRecord obtain o' where o': "csv_row cols (?rec rec) = Inr o'"
        by (auto simp: csv_loop.simps [of s] Let_def split: sum.splits if_splits)
      show ?thesis
      proof (cases o')
        case None
        have "csv_loop rest (Suc n) cols ts ds = Inr (ts', ds')"
          using 1(4) CsvRecord False o' None by (simp add: csv_loop.simps [of s] Let_def del: One_nat_def split: if_splits)
        from "1.IH"(2) [OF CsvRecord refl False o' None this 1(5,6)] show ?thesis .
      next
        case (Some p)
        obtain t desc where p: "p = (t, desc)" by force
        have run: "csv_loop rest (Suc n) cols (ts @ [t]) (if desc \<noteq> [] then put (p_group t) desc ds else ds) = Inr (ts', ds')"
          using 1(4) CsvRecord False o' Some p by (simp add: csv_loop.simps [of s] Let_def del: One_nat_def split: if_splits)
        have v: "ValidateTuple t = Inr () \<and> p_relation t \<noteq> []" using csv_row_valid o' Some p by blast
        have d: "dom (lookup (if desc \<noteq> [] then put (p_group t) desc ds else ds)) \<subseteq> p_group ` set (ts @ [t])"
          using 1(6) by (auto simp: dom_def split: if_splits)
        show ?thesis by (rule "1.IH"(3) [OF CsvRecord refl False o' Some p [symmetric] run _ d]) (use v 1(5) in auto)
      qed
    qed
  qed
qed

lemma ParseCSV_valid:
  "ParseCSV s = Inr (ts, ds) \<Longrightarrow>
   (\<forall>t \<in> set ts. ValidateTuple t = Inr () \<and> p_relation t \<noteq> []) \<and> dom (lookup ds) \<subseteq> p_group ` set ts"
  unfolding ParseCSV_def by (rule csv_loop_valid) auto

section \<open>Writing and reading back\<close>

definition csv_line :: "TuplePair \<Rightarrow> string" where
  "csv_line t = join_with (CHR '','') [p_group t, BuildToken (p_type t) (p_member t), [], p_relation t] @ [CHR 0x0A]"

definition csv_file :: "TuplePair list \<Rightarrow> string" where
  "csv_file ts = ''group,member,description,relation'' @ CHR 0x0A # concat (map csv_line ts)"

text \<open>A field that needs no quotes.\<close>

definition plain_field :: "string \<Rightarrow> bool" where
  "plain_field f \<longleftrightarrow> CHR 0x22 \<notin> set f \<and> CHR '','' \<notin> set f \<and> (\<forall>c \<in> set f. \<not> is_space c)"


lemma plain_fieldD: "plain_field f \<Longrightarrow> c \<in> set f \<Longrightarrow> c \<noteq> CHR 0x22 \<and> c \<noteq> CHR '','' \<and> c \<noteq> CHR 0x0A \<and> c \<noteq> CHR 0x0D"
  by (auto simp: plain_field_def is_space_def)

lemma plain_dropWhile: "plain_field f \<Longrightarrow> \<not> is_space c \<Longrightarrow> dropWhile is_space (f @ c # s) = f @ c # s"
  by (cases f) (auto simp: plain_field_def)

lemma csv_fields_plain:
  "fs \<noteq> [] \<Longrightarrow> (\<And>f. f \<in> set fs \<Longrightarrow> plain_field f) \<Longrightarrow>
   csv_fields (join_with (CHR '','') fs @ [CHR 0x0A]) rest = Some (fs, rest)"
proof (induction "CHR '',''" fs rule: join_with.induct)
  case (2 f)
  have f: "plain_field f" using 2 by simp
  have nl: "is_space (CHR 0x0A)" by (simp add: is_space_def)
  have "dropWhile is_space (f @ [CHR 0x0A]) = (if f = [] then [] else f @ [CHR 0x0A])"
    using f nl by (cases f) (auto simp: plain_field_def)
  moreover have "cut (CHR '','') (f @ [CHR 0x0A]) = None" using plain_fieldD [OF f] by (intro cut_None) auto
  moreover have "f \<noteq> [] \<Longrightarrow> hd f \<noteq> CHR 0x22" "CHR 0x22 \<notin> set f" using plain_fieldD [OF f] by fastforce+
  ultimately show ?case by (cases "f = []") (simp_all add: csv_fields.simps strip_NL_def Let_def)
next
  case (3 f g fs)
  have f: "plain_field f" using 3 by simp
  let ?more = "join_with (CHR '','') (g # fs) @ [CHR 0x0A]"
  have "\<not> is_space (CHR '','')" by (simp add: is_space_def)
  then have "dropWhile is_space (f @ CHR '','' # ?more) = f @ CHR '','' # ?more" by (rule plain_dropWhile [OF f])
  moreover have "hd (f @ CHR '','' # ?more) \<noteq> CHR 0x22" "CHR 0x22 \<notin> set f" "CHR '','' \<notin> set f"
    using f by (cases f; auto simp: plain_field_def)+
  moreover have "csv_fields ?more rest = Some (g # fs, rest)" using 3 by auto
  ultimately show ?case by (simp add: csv_fields.simps [of "f @ CHR '','' # ?more"] Let_def)
qed simp

lemma readLine_line: "CHR 0x0A \<notin> set l \<Longrightarrow> CHR 0x0D \<notin> set l \<Longrightarrow> readLine (l @ CHR 0x0A # rest) = Some (l @ [CHR 0x0A], rest)"
  by (auto simp: readLine_def dest: last_in_set)

lemma set_join_with: "set (join_with c fs) \<subseteq> insert c (\<Union> (set ` set fs))"
  by (induction c fs rule: join_with.induct) auto

lemma next_record_plain:
  assumes "fs \<noteq> []" "\<And>f. f \<in> set fs \<Longrightarrow> plain_field f" "hd fs \<noteq> []" "hd (hd fs) \<noteq> CHR ''#''"
  shows "next_record (join_with (CHR '','') fs @ CHR 0x0A # rest) = CsvRecord fs rest"
proof -
  let ?l = "join_with (CHR '','') fs"
  have n: "CHR 0x0A \<notin> set ?l" "CHR 0x0D \<notin> set ?l"
    using set_join_with [of "CHR '',''" fs] plain_fieldD [OF assms(2)] by fastforce+
  have h: "?l \<noteq> []" "hd ?l = hd (hd fs)"
    using assms(1,3) by (cases "(CHR '','', fs)" rule: join_with.cases; auto)+
  show ?thesis
    using readLine_line [OF n] h assms(4) csv_fields_plain [OF assms(1,2)]
    by (simp add: next_record.simps [of "?l @ CHR 0x0A # rest"] strip_NL_def)
qed

lemma plain_field_append: "plain_field (a @ b) \<longleftrightarrow> plain_field a \<and> plain_field b"
  by (auto simp: plain_field_def)

lemma plain_field_words: "plain_field ''user''" "plain_field ''group''" "plain_field ''pattern''" "plain_field '':''" "plain_field []"
  by (simp_all add: plain_field_def is_space_def)

text \<open>What can be written: valid tuples with a relation in plain characters.\<close>

definition csv_writable :: "TuplePair \<Rightarrow> bool" where
  "csv_writable t \<longleftrightarrow> ValidateTuple t = Inr () \<and> p_relation t \<noteq> [] \<and> plain_field (p_relation t)"

lemma stored_plain: "set x \<subseteq> set id_chars \<Longrightarrow> plain_field x"
proof -
  have "CHR 0x22 \<notin> set id_chars" by (simp add: id_chars_def atom_chars_def char_class_defs)
  then show "set x \<subseteq> set id_chars \<Longrightarrow> plain_field x"
    using id_chars_plain by (auto simp: plain_field_def list_all_iff)
qed

lemma plain_trim: "plain_field f \<Longrightarrow> trim_space f = f"
  by (rule trim_space_id) (simp add: plain_field_def)

lemma ValidateMember_types: "ValidateMember ty i = Inr () \<Longrightarrow> ty \<in> {''user'', ''group'', ''pattern''}"
  by (auto simp: ValidateMember_def split: if_splits)

lemma csv_row_line:
  assumes "csv_writable t"
  shows "csv_row \<lparr>col_group = 0, col_member = 1, col_description = 2, col_relation = 3\<rparr>
      [p_group t, BuildToken (p_type t) (p_member t), [], p_relation t] = Inr (Some (t, []))"
    and "\<And>f. f \<in> set [p_group t, BuildToken (p_type t) (p_member t), [], p_relation t] \<Longrightarrow> plain_field f"
    and "p_group t \<noteq> []" "hd (p_group t) \<noteq> CHR ''#''"
proof -
  have v: "ValidateGroupID (p_group t) = Inr ()" "ValidateMember (p_type t) (p_member t) = Inr ()"
    using assms by (auto simp: csv_writable_def ValidateTuple_def bindE_Inr)
  have st: "stored_spelling (p_group t)" "RelationSeparator \<notin> set (p_group t)" using ValidateGroupID_stored [OF v(1)] by auto
  have "CHR 0x22 \<notin> set (lower_alnum @ ''._-'')" by (simp add: char_class_defs)
  then have "CHR 0x22 \<notin> set (p_group t)" using ValidateGroupID_chars [OF v(1)] by blast
  then have g: "plain_field (p_group t)" "p_group t \<noteq> []" "NormalizeID (p_group t) = p_group t" "RelationSeparator \<notin> set (p_group t)"
    using st by (simp_all add: stored_spelling_def plain_field_def)
  have m: "plain_field (p_member t)" "p_member t \<noteq> []" "NormalizeID (p_member t) = p_member t"
    using stored_plain [OF conjunct1 [OF ValidateMember_chars [OF v(2)]]] ValidateMember_stored [OF v(2)]
    by (simp_all only: stored_spelling_def simp_thms)
  have ty: "p_type t \<in> {''user'', ''group'', ''pattern''}" using ValidateMember_types [OF v(2)] .
  have tok: "plain_field (BuildToken (p_type t) (p_member t))"
    using m(1) ty unfolding BuildToken_def plain_field_append by (auto simp: plain_field_words)
  have r: "plain_field (p_relation t)" "p_relation t \<noteq> []" using assms by (auto simp: csv_writable_def)
  show "p_group t \<noteq> []" "hd (p_group t) \<noteq> CHR ''#''" using g by (cases "p_group t"; auto)+
  show "plain_field f" if "f \<in> set [p_group t, BuildToken (p_type t) (p_member t), [], p_relation t]" for f
    using that g(1) tok r(1) by (auto simp: plain_field_def)
  have res: "resolveMember (BuildToken (p_type t) (p_member t)) = (p_type t, p_member t)"
    using ty by (auto simp: resolveMember_def BuildToken_def trim_prefix_def)
  have "CHR '':'' \<notin> set (p_group t)" using ValidateGroupID_stored [OF v(1)] by (simp add: stored_spelling_def)
  then have "\<not> has_prefix (p_group t) GroupPrefix" by (auto simp: has_prefix_iff)
  then have tp: "trim_prefix (p_group t) GroupPrefix = p_group t" by (simp add: trim_prefix_def)
  have c: "cell [p_group t, BuildToken (p_type t) (p_member t), [], p_relation t] 0 = p_group t"
    "cell [p_group t, BuildToken (p_type t) (p_member t), [], p_relation t] 1 = BuildToken (p_type t) (p_member t)"
    "cell [p_group t, BuildToken (p_type t) (p_member t), [], p_relation t] 2 = []"
    "cell [p_group t, BuildToken (p_type t) (p_member t), [], p_relation t] 3 = p_relation t"
    by (simp_all add: cell_def)
  have ne: "BuildToken (p_type t) (p_member t) \<noteq> []" by (simp add: BuildToken_def)
  have tup: "\<lparr>p_group = p_group t, p_relation = p_relation t, p_type = p_type t, p_member = p_member t\<rparr> = t" by simp
  have e: "trim_space [] = []" by (rule plain_trim) (rule plain_field_words)
  show "csv_row \<lparr>col_group = 0, col_member = 1, col_description = 2, col_relation = 3\<rparr>
      [p_group t, BuildToken (p_type t) (p_member t), [], p_relation t] = Inr (Some (t, []))"
    using assms r(2) unfolding csv_row_def Let_def CsvColumns.select_convs c plain_trim [OF g(1)] plain_trim [OF tok]
      plain_trim [OF r(1)] res tp g(3) m(3) prod.case e
    by (simp add: g(2) ne csv_writable_def tup)
qed

lemma csv_loop_lines:
  assumes "\<And>t. t \<in> set ts \<Longrightarrow> csv_writable t"
  shows "csv_loop (concat (map csv_line ts)) (Suc n) \<lparr>col_group = 0, col_member = 1, col_description = 2, col_relation = 3\<rparr> acc ds
    = Inr (acc @ ts, ds)"
  using assms
proof (induction ts arbitrary: acc n)
  case Nil
  show ?case by (simp add: csv_loop.simps next_record.simps readLine_def)
next
  case (Cons t ts)
  let ?fs = "[p_group t, BuildToken (p_type t) (p_member t), [], p_relation t]"
  have w: "csv_writable t" using Cons by simp
  have "next_record (join_with (CHR '','') ?fs @ CHR 0x0A # concat (map csv_line ts)) = CsvRecord ?fs (concat (map csv_line ts))"
    by (rule next_record_plain) (use csv_row_line [OF w] in simp_all)
  then have "next_record (concat (map csv_line (t # ts))) = CsvRecord ?fs (concat (map csv_line ts))"
    by (simp add: csv_line_def)
  then show ?case
    using Cons.IH [of "Suc n" "acc @ [t]"] Cons.prems csv_row_line(1) [OF w]
    by (subst csv_loop.simps) (simp add: Let_def)
qed

lemma ParseCSV_file:
  assumes "\<And>t. t \<in> set ts \<Longrightarrow> csv_writable t"
  shows "ParseCSV (csv_file ts) = Inr (ts, [])"
proof -
  let ?h = "[''group'', ''member'', ''description'', ''relation'']"
  have "next_record (join_with (CHR '','') ?h @ CHR 0x0A # concat (map csv_line ts)) = CsvRecord ?h (concat (map csv_line ts))"
    by (rule next_record_plain) (auto simp: plain_field_def is_space_def)
  then have n: "next_record (csv_file ts) = CsvRecord ?h (concat (map csv_line ts))" by (simp add: csv_file_def)
  have b: "trim_prefix ''group'' BOM # tl ?h = ?h" by (simp add: trim_prefix_def BOM_def)
  have h: "isHeader ?h" "headerColumns ?h = Inr \<lparr>col_group = 0, col_member = 1, col_description = 2, col_relation = 3\<rparr>"
    by code_simp+
  show ?thesis
    using n b h csv_loop_lines [OF assms, where n = 0 and acc = "[]" and ds = "[]"]
    by (simp add: ParseCSV_def csv_loop.simps [of "csv_file ts"] Let_def)
qed

end
