(* ===== verification/Ldif.thy ===== *)
theory Ldif
  imports Csv
begin

text \<open>
  \<open>internal/sync/ldif_importer.go\<close>: group memberships from an LDIF file. The parser of the package
  go-ldap/ldif is a parameter (\<open>unmarshal\<close>), and so are the two expressions an operator configures:
  \<open>compile\<close> gives what \<open>regexp.Compile\<close> makes of one, a record of the three methods the code calls.
  The expression of \<open>extractCN\<close>, which the code fixes, is modelled.
\<close>

record LdapEntry =
  le_dn :: string
  le_values :: "string \<Rightarrow> string list"

text \<open>\<open>NumSubexp\<close>, \<open>SubexpIndex\<close> (-1 for a name that is not there) and \<open>FindStringSubmatch\<close>.\<close>

record Regexp =
  re_num :: nat
  re_index :: "string \<Rightarrow> int"
  re_find :: "string \<Rightarrow> string list option"

definition compileGroupRelationRegexp :: "(string \<Rightarrow> Regexp option) \<Rightarrow> string \<Rightarrow> error + Regexp option" where
  "compileGroupRelationRegexp compile expr =
     (if expr = [] then Inr None
      else case compile expr of
        None \<Rightarrow> Inl (ErrText ''invalid group_relation_regexp'')
      | Some re \<Rightarrow> if re_index re ''group'' < 0 \<or> re_index re ''relation'' < 0
                   then Inl (ErrText ''group_relation_regexp must have named captures'') else Inr (Some re))"

definition splitByRelationRegexp :: "Regexp option \<Rightarrow> string \<Rightarrow> string \<times> string" where
  "splitByRelationRegexp ore cn =
     (case ore of None \<Rightarrow> (cn, RelationMember)
      | Some re \<Rightarrow> (case re_find re cn of None \<Rightarrow> (cn, RelationMember)
         | Some m \<Rightarrow> (let g = m ! nat (re_index re ''group''); relation = m ! nat (re_index re ''relation'')
              in if g = [] \<or> relation = [] then (cn, RelationMember) else (g, relation))))"

definition firstValue :: "string list \<Rightarrow> string" where
  "firstValue vals = (if length vals = 0 then [] else vals ! 0)"

definition isGroupObjectClass :: "string list \<Rightarrow> bool" where
  "isGroupObjectClass classes \<longleftrightarrow>
     (\<exists>cls \<in> set classes. to_lower cls \<in> {''groupofnames'', ''groupofuniquenames'', ''posixgroup'', ''group''})"

text \<open>The first place where \<open>cn=\<close>, in any case, is followed by something other than a comma.\<close>

fun extractCN :: "string \<Rightarrow> string" where
  "extractCN [] = []"
| "extractCN (c # s) =
     (let after = drop 2 s in
      if to_lower (take 3 (c # s)) = ''cn='' \<and> after \<noteq> [] \<and> hd after \<noteq> CHR '',''
      then takeWhile (\<lambda>x. x \<noteq> CHR '','') after else extractCN s)"

definition extractViaRegexp :: "Regexp \<Rightarrow> string \<Rightarrow> string" where
  "extractViaRegexp re dn =
     (case re_find re dn of None \<Rightarrow> [] | Some m \<Rightarrow> if length m < 2 then [] else trim_space (m ! 1))"

fun ldif_members :: "Regexp \<Rightarrow> string \<Rightarrow> string \<Rightarrow> string list \<Rightarrow> error + TuplePair list" where
  "ldif_members re groupID relation [] = Inr []"
| "ldif_members re groupID relation (dn # dns) =
     (let email = NormalizeID (extractViaRegexp re dn) in
      if email = [] then ldif_members re groupID relation dns
      else bindE (ValidateEmail email) (\<lambda>_.
           bindE (ldif_members re groupID relation dns) (\<lambda>ts.
             Inr (\<lparr>p_group = groupID, p_relation = relation, p_type = ''user'', p_member = email\<rparr> # ts))))"

definition ldif_entry :: "Regexp \<Rightarrow> Regexp option \<Rightarrow> LdapEntry \<Rightarrow> error + (TuplePair list \<times> (string \<times> string) option)" where
  "ldif_entry re relRe e =
     (if \<not> isGroupObjectClass (le_values e ''objectClass'') then Inr ([], None)
      else let cn = extractCN (le_dn e) in
        if cn = [] then Inr ([], None)
        else let (g, relation) = splitByRelationRegexp relRe (trim_prefix cn GroupPrefix);
                 groupID = NormalizeID g;
                 desc = trim_space (firstValue (le_values e ''description''))
             in bindE (ValidateGroupID groupID) (\<lambda>_.
                bindE (ldif_members re groupID relation (le_values e ''member'' @ le_values e ''uniqueMember'')) (\<lambda>ts.
                  Inr (ts, if desc \<noteq> [] \<and> relation = RelationMember then Some (groupID, desc) else None))))"

text \<open>An entry that is no entry (a change record) is \<open>None\<close>.\<close>

fun ldif_loop :: "Regexp \<Rightarrow> Regexp option \<Rightarrow> LdapEntry option list \<Rightarrow> TuplePair list \<Rightarrow> (string, string) gomap
    \<Rightarrow> error + TuplePair list \<times> (string, string) gomap" where
  "ldif_loop re relRe [] ts ds = Inr (ts, ds)"
| "ldif_loop re relRe (None # es) ts ds = ldif_loop re relRe es ts ds"
| "ldif_loop re relRe (Some e # es) ts ds =
     bindE (ldif_entry re relRe e) (\<lambda>(ts', d).
       ldif_loop re relRe es (ts @ ts') (case d of None \<Rightarrow> ds | Some (i, desc) \<Rightarrow> put i desc ds))"

definition ParseLDIF :: "(string \<Rightarrow> Regexp option) \<Rightarrow> (string \<Rightarrow> LdapEntry option list option) \<Rightarrow> string \<Rightarrow> string \<Rightarrow> string
    \<Rightarrow> error + TuplePair list \<times> (string, string) gomap" where
  "ParseLDIF compile unmarshal r dnEmailRegexp groupRelationRegexp =
     (case compile dnEmailRegexp of
        None \<Rightarrow> Inl (ErrText ''invalid dn_email_regexp'')
      | Some re \<Rightarrow>
          if re_num re < 1 then Inl (ErrText ''dn_email_regexp must contain at least one capture group'')
          else bindE (compileGroupRelationRegexp compile groupRelationRegexp) (\<lambda>relRe.
            case unmarshal r of None \<Rightarrow> Inl (ErrText ''ldif parse error'')
            | Some entries \<Rightarrow> ldif_loop re relRe entries [] []))"

section \<open>What is accepted\<close>

lemma ldif_members_valid:
  "ldif_members re g r dns = Inr ts \<Longrightarrow> t \<in> set ts \<Longrightarrow>
   p_group t = g \<and> p_relation t = r \<and> p_type t = ''user'' \<and> ValidateEmail (p_member t) = Inr ()"
proof (induction re g r dns arbitrary: ts rule: ldif_members.induct)
  case (2 re g r dn dns)
  show ?case
  proof (cases "NormalizeID (extractViaRegexp re dn) = []")
    case True
    with 2 show ?thesis by simp
  next
    case False
    with 2(3) obtain ts' where "ValidateEmail (NormalizeID (extractViaRegexp re dn)) = Inr ()"
      "ldif_members re g r dns = Inr ts'"
      "ts = \<lparr>p_group = g, p_relation = r, p_type = ''user'', p_member = NormalizeID (extractViaRegexp re dn)\<rparr> # ts'"
      by (auto simp: Let_def bindE_Inr)
    with 2(2) [OF refl False] 2(4) show ?thesis by auto
  qed
qed simp

lemma ldif_entry_valid: "ldif_entry re relRe e = Inr (ts, d) \<Longrightarrow> t \<in> set ts \<Longrightarrow> ValidateTuple t = Inr ()"
  using ldif_members_valid
  by (fastforce simp: ldif_entry_def Let_def bindE_Inr ValidateTuple_def ValidateMember_def split: if_splits prod.splits)

lemma ldif_loop_valid:
  "ldif_loop re relRe es ts ds = Inr (ts', ds') \<Longrightarrow> (\<forall>t \<in> set ts. ValidateTuple t = Inr ()) \<Longrightarrow>
   \<forall>t \<in> set ts'. ValidateTuple t = Inr ()"
proof (induction re relRe es ts ds rule: ldif_loop.induct)
  case (3 re relRe e es ts ds)
  then obtain ts1 d where e: "ldif_entry re relRe e = Inr (ts1, d)"
    "ldif_loop re relRe es (ts @ ts1) (case d of None \<Rightarrow> ds | Some (i, desc) \<Rightarrow> put i desc ds) = Inr (ts', ds')"
    by (auto simp: bindE_Inr)
  have "\<forall>t \<in> set (ts @ ts1). ValidateTuple t = Inr ()" using 3(3) ldif_entry_valid [OF e(1)] by auto
  with 3(1) e show ?case by blast
qed simp_all

lemma ParseLDIF_valid:
  "ParseLDIF compile unmarshal r a b = Inr (ts, ds) \<Longrightarrow> \<forall>t \<in> set ts. ValidateTuple t = Inr ()"
  by (auto simp: ParseLDIF_def bindE_Inr split: option.splits if_splits dest!: ldif_loop_valid)

end
