(* ===== verification/MemoryContract.thy ===== *)
theory MemoryContract
  imports Store
begin

text \<open>
  The in-memory store meets the contract of the theory Store: its invariant \<open>mem_ok\<close> (map keys are
  unique, a group and a source are filed under their own id, no entry is there twice) is preserved
  by every operation, and each operation does to the view \<open>mem_view\<close> what the contract says.
\<close>

section \<open>Invariant and view\<close>

definition mem_ok :: "MemoryStore \<Rightarrow> bool" where
  "mem_ok s \<longleftrightarrow> gomap_ok (groups s) \<and> gomap_ok (sources s) \<and> gomap_ok (managers s)
     \<and> (\<forall>(i, g) \<in> set (groups s). g_id g = i) \<and> (\<forall>(i, src) \<in> set (sources s). s_id src = i)
     \<and> distinct (map tuple_key (tuples s))"

definition tuple_entry :: "MemTuple \<Rightarrow> Entry" where
  "tuple_entry t = \<lparr>en_source = t_source t, en_expires = t_expires t\<rparr>"

definition mem_entries :: "MemTuple list \<Rightarrow> TupleKey \<Rightarrow> Entry option" where
  "mem_entries ts = map_of (map (\<lambda>t. (tuple_key t, tuple_entry t)) ts)"

definition mem_managers :: "(string, Manager list) gomap \<Rightarrow> string \<Rightarrow> string set" where
  "mem_managers m i = m_token ` set (lookup_default [] m i)"

definition mem_view :: "MemoryStore \<Rightarrow> StoreView" where
  "mem_view s = \<lparr>v_groups = lookup (groups s), v_sources = lookup (sources s), v_entries = mem_entries (tuples s),
     v_managers = mem_managers (managers s), v_history = changes s\<rparr>"

lemma mem_view_simps [simp]:
  "v_groups (mem_view s) = lookup (groups s)" "v_sources (mem_view s) = lookup (sources s)"
  "v_entries (mem_view s) = mem_entries (tuples s)" "v_managers (mem_view s) = mem_managers (managers s)"
  "v_history (mem_view s) = changes s"
  by (simp_all add: mem_view_def)

lemma mem_view_eqI:
  "v_groups v = lookup (groups s) \<Longrightarrow> v_sources v = lookup (sources s) \<Longrightarrow> v_entries v = mem_entries (tuples s) \<Longrightarrow>
   v_managers v = mem_managers (managers s) \<Longrightarrow> v_history v = changes s \<Longrightarrow> mem_view s = v"
  by (cases v) (simp add: mem_view_def)

section \<open>Entries\<close>

abbreviation keys_distinct :: "MemTuple list \<Rightarrow> bool" where
  "keys_distinct ts \<equiv> distinct (map tuple_key ts)"

lemma mem_entries_Nil [simp]: "mem_entries [] = Map.empty"
  by (simp add: mem_entries_def)

lemma mem_entries_Cons [simp]: "mem_entries (t # ts) = (mem_entries ts)(tuple_key t \<mapsto> tuple_entry t)"
  by (simp add: mem_entries_def)

lemma mem_entries_append [simp]: "mem_entries (xs @ ys) = mem_entries ys ++ mem_entries xs"
  by (simp add: mem_entries_def)

lemma mem_entries_None: "mem_entries ts k = None \<longleftrightarrow> k \<notin> tuple_key ` set ts"
  by (induction ts) auto

lemma mem_entries_Some:
  "keys_distinct ts \<Longrightarrow> mem_entries ts k = Some e \<longleftrightarrow> (\<exists>t \<in> set ts. tuple_key t = k \<and> tuple_entry t = e)"
  by (induction ts) (auto simp: mem_entries_None image_iff)

lemma mem_entries_in: "keys_distinct ts \<Longrightarrow> t \<in> set ts \<Longrightarrow> mem_entries ts (tuple_key t) = Some (tuple_entry t)"
  by (auto simp: mem_entries_Some)

lemma mem_entries_filter:
  assumes "keys_distinct ts" and "\<And>t. t \<in> set ts \<Longrightarrow> P t \<longleftrightarrow> Q (tuple_key t) (tuple_entry t)"
  shows "mem_entries (filter P ts) =
    (\<lambda>k. case mem_entries ts k of None \<Rightarrow> None | Some e \<Rightarrow> if Q k e then Some e else None)"
  using assms
proof (induction ts)
  case (Cons t ts)
  then have "mem_entries ts (tuple_key t) = None" by (auto simp: mem_entries_None)
  with Cons show ?case by (auto simp: fun_eq_iff)
qed simp

lemma mem_entries_map:
  assumes "\<And>t. t \<in> set ts \<Longrightarrow> tuple_key (f t) = tuple_key t \<and> tuple_entry (f t) = h (tuple_entry t)"
  shows "mem_entries (map f ts) = (\<lambda>k. map_option h (mem_entries ts k))"
  using assms by (induction ts) (auto simp: fun_eq_iff)

lemma mem_entries_update_first:
  assumes "keys_distinct ts" and "\<And>t. p t \<longleftrightarrow> tuple_key t = k"
    and "\<And>t. p t \<Longrightarrow> tuple_key (f t) = k \<and> tuple_entry (f t) = h (tuple_entry t)"
  shows "mem_entries (update_first p f ts) = (mem_entries ts)(k := map_option h (mem_entries ts k))"
  using assms
proof (induction ts)
  case (Cons t ts)
  then have "mem_entries ts (tuple_key t) = None" by (auto simp: mem_entries_None)
  with Cons show ?case by (auto simp: fun_eq_iff)
qed auto

lemma keys_update_first:
  assumes "\<And>t. p t \<Longrightarrow> tuple_key (f t) = tuple_key t"
  shows "map tuple_key (update_first p f ts) = map tuple_key ts"
  using assms by (induction ts) auto

lemma keys_distinct_filter [simp]: "keys_distinct ts \<Longrightarrow> keys_distinct (filter P ts)"
  by (rule distinct_map_filter)

text \<open>An entry is found by its key.\<close>

lemma is_entry_key:
  "is_entry g (NormalizeRelation r) ty (fst (subject ty m)) (snd (subject ty m)) t \<longleftrightarrow> tuple_key t = entry_key g r ty m"
  by (auto simp: is_entry_def tuple_key_def entry_key_def pair_key_def split: prod.split)

lemma is_entry_key':
  "subject ty m = (i, sr) \<Longrightarrow> is_entry g (NormalizeRelation r) ty i sr t \<longleftrightarrow> tuple_key t = entry_key g r ty m"
  using is_entry_key [of g r ty m t] by simp

lemma entry_key_normal [simp]: "entry_key g (NormalizeRelation r) ty m = entry_key g r ty m"
  by (simp add: entry_key_def pair_key_def)


section \<open>Groups\<close>

lemma mem_okD:
  assumes "mem_ok s"
  shows "gomap_ok (groups s)" "gomap_ok (sources s)" "gomap_ok (managers s)" "keys_distinct (tuples s)"
    "\<And>i g. lookup (groups s) i = Some g \<Longrightarrow> g_id g = i"
    "\<And>i src. lookup (sources s) i = Some src \<Longrightarrow> s_id src = i"
  using assms by (auto simp: mem_ok_def dest: map_of_SomeD)

lemma mem_okI:
  assumes "gomap_ok (groups s)" "gomap_ok (sources s)" "gomap_ok (managers s)" "keys_distinct (tuples s)"
    and "\<And>i g. lookup (groups s) i = Some g \<Longrightarrow> g_id g = i"
    and "\<And>i src. lookup (sources s) i = Some src \<Longrightarrow> s_id src = i"
  shows "mem_ok s"
proof -
  have "\<forall>(i, g) \<in> set (groups s). g_id g = i" "\<forall>(i, src) \<in> set (sources s). s_id src = i"
    using assms(5,6) in_gomap_iff [OF assms(1)] in_gomap_iff [OF assms(2)] by blast+
  with assms(1-4) show ?thesis by (simp add: mem_ok_def)
qed

lemma mem_ok_groups: "mem_ok s \<Longrightarrow> g_id g = i \<Longrightarrow> mem_ok (s\<lparr>groups := put i g (groups s)\<rparr>)"
  by (rule mem_okI) (auto simp: mem_okD split: if_splits)

lemma mem_CreateGroup_spec:
  "mem_ok s \<Longrightarrow> mem_CreateGroup now g s = Inr (s', g') \<Longrightarrow>
   mem_ok s' \<and> v_groups (mem_view s) (g_id g) = None \<and> mem_view s' = spec_CreateGroup now g (mem_view s)
   \<and> v_groups (mem_view s') (g_id g) = Some g'"
  using mem_ok_groups [where s = s and i = "g_id g" and g = "g\<lparr>g_created := now, g_updated := now, g_token := GroupPrefix @ g_id g\<rparr>"]
  by (auto simp: mem_CreateGroup_def Let_def spec_CreateGroup_def split: if_splits intro!: mem_view_eqI)

lemma mem_UpdateGroup_spec:
  "mem_ok s \<Longrightarrow> mem_UpdateGroup now i d desc s = Inr s' \<Longrightarrow>
   mem_ok s' \<and> v_groups (mem_view s) i \<noteq> None \<and> mem_view s' = spec_UpdateGroup now i d desc (mem_view s)"
  using mem_ok_groups [where s = s and i = i] mem_okD(5) [of s i]
  by (auto simp: mem_UpdateGroup_def spec_UpdateGroup_def split: option.splits intro!: mem_view_eqI)

lemma key_in_or_of [simp]: "key_in_or_of i (tuple_key t) \<longleftrightarrow> in_or_of_group i t"
  by (simp add: key_in_or_of_def in_or_of_group_def tuple_key_def)

lemma mem_managers_def': "mem_managers m i = (case lookup m i of None \<Rightarrow> {} | Some ms \<Rightarrow> m_token ` set ms)"
  by (simp add: mem_managers_def lookup_default_def split: option.split)

lemma mem_managers_put [simp]: "mem_managers (put i ms m) = (mem_managers m)(i := m_token ` set ms)"
  by (auto simp: mem_managers_def' fun_eq_iff)

lemma gomap_ok_map_vals [simp]: "gomap_ok m \<Longrightarrow> gomap_ok (map_vals f m)"
  by (simp only: keys_map_vals)

lemma mem_managers_DeleteGroup:
  "mem_managers (map_vals (\<lambda>gid ms. filter (\<lambda>m. \<not> names_group i (m_token m)) ms) (del i m)) =
   (\<lambda>g. if g = i then {} else {t \<in> mem_managers m g. \<not> names_group i t})"
  by (auto simp: mem_managers_def' fun_eq_iff split: option.split)

lemma mem_DeleteGroup_spec:
  assumes "mem_ok s"
  shows "mem_ok (mem_DeleteGroup i s) \<and> mem_view (mem_DeleteGroup i s) = spec_DeleteGroup i (mem_view s)"
proof
  show "mem_ok (mem_DeleteGroup i s)"
    using mem_okD [OF assms] by (intro mem_okI) (auto simp: mem_DeleteGroup_def split: if_splits)
  have "mem_entries (filter (\<lambda>t. \<not> in_or_of_group i t) (tuples s)) =
      (\<lambda>k. if key_in_or_of i k then None else mem_entries (tuples s) k)"
    using mem_entries_filter [OF mem_okD(4) [OF assms], of "\<lambda>t. \<not> in_or_of_group i t" "\<lambda>k _. \<not> key_in_or_of i k"]
    by (auto simp: fun_eq_iff split: option.split)
  then show "mem_view (mem_DeleteGroup i s) = spec_DeleteGroup i (mem_view s)"
    by (intro mem_view_eqI) (auto simp: mem_DeleteGroup_def spec_DeleteGroup_def mem_managers_DeleteGroup fun_eq_iff)
qed

section \<open>Members\<close>

lemma mem_AddMember_spec:
  assumes ok: "mem_ok s"
  shows "mem_ok (mem_AddMember now new g r ty m src ex s) \<and>
    mem_view (mem_AddMember now new g r ty m src ex s) = spec_AddMember (entry_key g r ty m) src ex (mem_view s)"
proof -
  obtain i sr where sub: "subject ty m = (i, sr)" by force
  note key = is_entry_key' [OF sub, of g r]
  let ?k = "entry_key g r ty m" and ?p = "is_entry g (NormalizeRelation r) ty i sr"
  note d = mem_okD [OF ok]
  show ?thesis
  proof (cases "\<exists>t \<in> set (tuples s). ?p t")
    case True
    then obtain e where e: "mem_entries (tuples s) ?k = Some e"
      using key by (metis mem_entries_None image_eqI option.exhaust)
    have r: "mem_AddMember now new g r ty m src ex s =
        s\<lparr>tuples := update_first ?p (\<lambda>t. t\<lparr>t_expires := ex\<rparr>) (tuples s)\<rparr>"
      using True by (simp add: mem_AddMember_def sub)
    have "mem_entries (update_first ?p (\<lambda>t. t\<lparr>t_expires := ex\<rparr>) (tuples s)) =
        (mem_entries (tuples s))(?k := map_option (\<lambda>e. e\<lparr>en_expires := ex\<rparr>) (mem_entries (tuples s) ?k))"
      by (rule mem_entries_update_first [OF d(4) key]) (auto simp: key, simp_all add: tuple_key_def tuple_entry_def)
    moreover have "map tuple_key (update_first ?p (\<lambda>t. t\<lparr>t_expires := ex\<rparr>) (tuples s)) = map tuple_key (tuples s)"
      by (rule keys_update_first) (simp add: tuple_key_def)
    ultimately show ?thesis unfolding r
      using d e by (auto simp: spec_AddMember_def intro!: mem_okI mem_view_eqI)
  next
    case False
    let ?t = "\<lparr>t_id = new, t_obj = g, t_rel = NormalizeRelation r, t_stype = ty, t_sid = i, t_srel = sr,
      t_source = src, t_created = now, t_expires = ex\<rparr>"
    have k: "tuple_key ?t = ?k" by (simp add: key [symmetric] is_entry_def)
    have n: "?k \<notin> tuple_key ` set (tuples s)" using False key by auto
    have r: "mem_AddMember now new g r ty m src ex s = s\<lparr>tuples := tuples s @ [?t]\<rparr>"
      using False by (simp add: mem_AddMember_def sub)
    show ?thesis unfolding r using d n k
      by (auto simp: spec_AddMember_def mem_entries_None [THEN iffD2] tuple_entry_def fun_eq_iff map_add_def
          split: option.split intro!: mem_okI mem_view_eqI)
  qed
qed

lemma mem_RemoveMember_spec:
  assumes ok: "mem_ok s"
  shows "mem_ok (mem_RemoveMember g r ty m s) \<and>
    mem_view (mem_RemoveMember g r ty m s) = spec_RemoveMember (entry_key g r ty m) (mem_view s)"
proof -
  obtain i sr where sub: "subject ty m = (i, sr)" by force
  note d = mem_okD [OF ok]
  have "mem_entries (filter (\<lambda>t. \<not> is_entry g (NormalizeRelation r) ty i sr t) (tuples s)) =
      (mem_entries (tuples s))(entry_key g r ty m := None)"
    using mem_entries_filter [OF d(4), of "\<lambda>t. \<not> is_entry g (NormalizeRelation r) ty i sr t"
        "\<lambda>k _. k \<noteq> entry_key g r ty m"] is_entry_key' [OF sub, of g r]
    by (auto simp: fun_eq_iff split: option.split)
  then show ?thesis using d
    by (auto simp: mem_RemoveMember_def sub spec_RemoveMember_def intro!: mem_okI mem_view_eqI)
qed


lemma find_index_None: "find_index p xs = None \<longleftrightarrow> (\<forall>x \<in> set xs. \<not> p x)"
  by (induction xs) auto

lemma find_index_SomeD: "find_index p xs = Some i \<Longrightarrow> i < length xs \<and> p (xs ! i)"
  by (induction xs arbitrary: i) (auto split: if_splits)

lemma find_index_update: "find_index p xs = Some i \<Longrightarrow> xs[i := f (xs ! i)] = update_first p f xs"
  by (induction xs arbitrary: i) (auto split: if_splits)

lemma find_index_delete:
  "find_index (\<lambda>t. tuple_key t = k) ts = Some i \<Longrightarrow> keys_distinct ts \<Longrightarrow>
   take i ts @ drop (Suc i) ts = filter (\<lambda>t. tuple_key t \<noteq> k) ts"
proof (induction ts arbitrary: i)
  case (Cons t ts)
  have "filter (\<lambda>u. tuple_key u \<noteq> tuple_key t) ts = ts"
    using Cons.prems(2) by (intro filter_True) (metis distinct.simps(2) image_eqI list.set_map list.simps(9))
  with Cons show ?case by (auto split: if_splits)
qed simp

lemma find_index_update_other:
  assumes "\<And>x. p (f x) \<longleftrightarrow> p x"
  shows "find_index p (update_first q f xs) = find_index p xs"
  using assms by (induction xs) auto

text \<open>An entry moves to a key nobody has.\<close>

lemma mem_entries_move:
  assumes "keys_distinct ts" and "k' \<notin> tuple_key ` set ts" and "k \<in> tuple_key ` set ts"
    and "\<And>t. tuple_key t = k \<Longrightarrow> tuple_key (f t) = k' \<and> tuple_entry (f t) = tuple_entry t"
  shows "keys_distinct (update_first (\<lambda>t. tuple_key t = k) f ts) \<and>
    tuple_key ` set (update_first (\<lambda>t. tuple_key t = k) f ts) = insert k' (tuple_key ` set ts - {k}) \<and>
    mem_entries (update_first (\<lambda>t. tuple_key t = k) f ts) = (mem_entries ts)(k := None, k' := mem_entries ts k)"
  using assms
proof (induction ts)
  case (Cons t ts)
  show ?case
  proof (cases "tuple_key t = k")
    case True
    then have "mem_entries ts k = None" using Cons.prems by (auto simp: mem_entries_None)
    then show ?thesis using True Cons.prems by (auto simp: fun_eq_iff)
  next
    case False
    then show ?thesis using Cons by (auto simp: fun_eq_iff)
  qed
qed simp

lemma mem_ChangeRelation_spec:
  assumes ok: "mem_ok s"
  shows "case mem_ChangeRelation g ty m from to s of
      Inl e \<Rightarrow> e = ErrRecordNotFound \<and> v_entries (mem_view s) (entry_key g from ty m) = None
    | Inr s' \<Rightarrow> mem_ok s' \<and> v_entries (mem_view s) (entry_key g from ty m) \<noteq> None
        \<and> mem_view s' = spec_ChangeRelation (entry_key g from ty m) (entry_key g to ty m) (mem_view s)"
proof -
  obtain i sr where sub: "subject ty m = (i, sr)" by force
  note d = mem_okD [OF ok]
  define old where "old = entry_key g from ty m"
  define new where "new = entry_key g to ty m"
  let ?ts = "tuples s" and ?find = "\<lambda>k. find_index (\<lambda>t. tuple_key t = k) (tuples s)"
  have p: "is_entry g (NormalizeRelation from) ty i sr = (\<lambda>t. tuple_key t = old)"
    "is_entry g (NormalizeRelation to) ty i sr = (\<lambda>t. tuple_key t = new)"
    unfolding old_def new_def using is_entry_key' [OF sub, of g] by blast+
  have same: "NormalizeRelation from = NormalizeRelation to \<longleftrightarrow> old = new"
    by (auto simp: old_def new_def entry_key_def pair_key_def split: prod.splits)
  have unf: "mem_ChangeRelation g ty m from to s = (case ?find old of None \<Rightarrow> Inl ErrRecordNotFound
      | Some o' \<Rightarrow> if old = new then Inr s else (case ?find new of
          None \<Rightarrow> Inr (s\<lparr>tuples := ?ts[o' := (?ts ! o')\<lparr>t_rel := NormalizeRelation to\<rparr>]\<rparr>)
        | Some n \<Rightarrow> let ts = ?ts[n := (?ts ! n)\<lparr>t_expires := laterExpiry (t_expires (?ts ! o')) (t_expires (?ts ! n))\<rparr>]
            in Inr (s\<lparr>tuples := take o' ts @ drop (Suc o') ts\<rparr>)))"
    by (simp only: mem_ChangeRelation_def sub p Let_def same prod.case)
  show ?thesis
  proof (cases "?find old")
    case None
    then have "mem_entries ?ts old = None" by (auto simp: find_index_None mem_entries_None)
    then show ?thesis unfolding unf old_def [symmetric] new_def [symmetric] using None by simp
  next
    case (Some o')
    then have o': "o' < length ?ts" "tuple_key (?ts ! o') = old"
      using find_index_SomeD [of "\<lambda>t. tuple_key t = old"] by auto
    then have eo: "mem_entries ?ts old = Some (tuple_entry (?ts ! o'))"
      using mem_entries_in [OF d(4), of "?ts ! o'"] by simp
    consider "old = new" | (move) "old \<noteq> new" "?find new = None" | (merge) n where "old \<noteq> new" "?find new = Some n"
      by blast
    then show ?thesis
    proof cases
      case 1
      then show ?thesis unfolding unf old_def [symmetric] new_def [symmetric]
        using Some ok eo by (simp add: spec_ChangeRelation_def)
    next
      case move
      let ?f = "\<lambda>t. t\<lparr>t_rel := NormalizeRelation to\<rparr>"
      have f: "tuple_key t = old \<Longrightarrow> tuple_key (?f t) = new \<and> tuple_entry (?f t) = tuple_entry t" for t
        by (auto simp: old_def new_def tuple_key_def tuple_entry_def entry_key_def pair_key_def split: prod.splits)
      have n: "new \<notin> tuple_key ` set ?ts" "old \<in> tuple_key ` set ?ts"
        using move(2) o' by (auto simp: find_index_None)
      note mv = mem_entries_move [OF d(4) n f]
      show ?thesis unfolding unf old_def [symmetric] new_def [symmetric]
        using Some move eo mv d n find_index_update [OF Some, of ?f]
        by (auto simp: spec_ChangeRelation_def mem_entries_None [THEN iffD2] intro!: mem_okI mem_view_eqI)
    next
      case merge
      let ?f = "\<lambda>t. t\<lparr>t_expires := laterExpiry (t_expires (?ts ! o')) (t_expires t)\<rparr>"
      let ?h = "\<lambda>e. e\<lparr>en_expires := laterExpiry (t_expires (?ts ! o')) (en_expires e)\<rparr>"
      let ?us = "update_first (\<lambda>t. tuple_key t = new) ?f ?ts"
      have f: "tuple_key (?f t) = tuple_key t" "tuple_entry (?f t) = ?h (tuple_entry t)" for t
        by (simp_all add: tuple_key_def tuple_entry_def)
      have us: "mem_entries ?us = (mem_entries ?ts)(new := map_option ?h (mem_entries ?ts new))"
        by (rule mem_entries_update_first [OF d(4)]) (simp_all add: f)
      have du: "keys_distinct ?us" using d(4) by (simp add: keys_update_first f)
      have fo: "find_index (\<lambda>t. tuple_key t = old) ?us = Some o'"
        using Some by (simp add: find_index_update_other f)
      have "mem_entries (filter (\<lambda>t. tuple_key t \<noteq> old) ?us) = (mem_entries ?us)(old := None)"
        using mem_entries_filter [OF du, of "\<lambda>t. tuple_key t \<noteq> old" "\<lambda>k _. k \<noteq> old"]
        by (auto simp: fun_eq_iff split: option.split)
      moreover obtain en where "mem_entries ?ts new = Some en"
        using merge(2) find_index_SomeD [OF merge(2)] mem_entries_in [OF d(4)] nth_mem by blast
      ultimately have "mem_entries (filter (\<lambda>t. tuple_key t \<noteq> old) ?us) =
          v_entries (spec_ChangeRelation old new (mem_view s))"
        using us merge(1) eo by (auto simp: spec_ChangeRelation_def fun_eq_iff tuple_entry_def)
      then show ?thesis unfolding unf old_def [symmetric] new_def [symmetric]
        using Some merge eo d du find_index_update [OF merge(2), of ?f] find_index_delete [OF fo du]
        by (auto simp: Let_def intro!: mem_okI mem_view_eqI) (auto simp: spec_ChangeRelation_def)
    qed
  qed
qed


section \<open>Managers, history, sources, logs\<close>

lemma mem_ok_managers: "mem_ok s \<Longrightarrow> mem_ok (s\<lparr>managers := put i ms (managers s)\<rparr>)"
  by (rule mem_okI) (simp_all add: mem_okD)

lemma lookup_default_put [simp]: "lookup_default d (put k v m) k' = (if k' = k then v else lookup_default d m k')"
  by (simp add: lookup_default_def)

lemma mem_AddManager_spec:
  "mem_ok s \<Longrightarrow> mem_ok (mem_AddManager now i m s) \<and>
   mem_view (mem_AddManager now i m s) = spec_AddManager i (m_token m) (mem_view s)"
  by (auto simp: mem_AddManager_def Let_def mem_ok_managers spec_AddManager_def mem_managers_def
      fun_eq_iff intro!: mem_view_eqI) (metis image_eqI)

lemma mem_RemoveManager_spec:
  "mem_ok s \<Longrightarrow> mem_ok (mem_RemoveManager i t s) \<and>
   mem_view (mem_RemoveManager i t s) = spec_RemoveManager i t (mem_view s)"
  by (auto simp: mem_RemoveManager_def mem_ok_managers spec_RemoveManager_def mem_managers_def
      fun_eq_iff intro!: mem_view_eqI)

lemma mem_AddChange_spec:
  "mem_ok s \<Longrightarrow> mem_ok (mem_AddChange now new c s) \<and>
   mem_view (mem_AddChange now new c s) = spec_AddChange now new c (mem_view s)"
  by (auto simp: mem_AddChange_def mem_ok_def spec_AddChange_def intro!: mem_view_eqI)

lemma mem_DeleteSource_spec:
  assumes ok: "mem_ok s"
  shows "mem_ok (mem_DeleteSource i s) \<and> mem_view (mem_DeleteSource i s) = spec_DeleteSource i (mem_view s)"
proof
  note d = mem_okD [OF ok]
  show "mem_ok (mem_DeleteSource i s)"
    using d by (intro mem_okI) (auto simp: mem_DeleteSource_def split: if_splits)
  have "mem_entries (filter (\<lambda>t. t_source t \<noteq> Some i) (tuples s)) =
      (\<lambda>k. case mem_entries (tuples s) k of None \<Rightarrow> None | Some e \<Rightarrow> if en_source e \<noteq> Some i then Some e else None)"
    by (rule mem_entries_filter [OF d(4)]) (simp add: tuple_entry_def)
  then show "mem_view (mem_DeleteSource i s) = spec_DeleteSource i (mem_view s)"
    by (intro mem_view_eqI) (auto simp: mem_DeleteSource_def spec_DeleteSource_def fun_eq_iff split: option.split)
qed

lemma mem_CreateSyncLog_spec: "mem_ok s \<Longrightarrow> mem_ok (mem_CreateSyncLog l s) \<and> mem_view (mem_CreateSyncLog l s) = mem_view s"
  by (simp add: mem_CreateSyncLog_def mem_ok_def mem_view_def)

lemma mem_UpdateSyncLog_spec: "mem_ok s \<Longrightarrow> mem_UpdateSyncLog l s = Inr s' \<Longrightarrow> mem_ok s' \<and> mem_view s' = mem_view s"
  by (auto simp: mem_UpdateSyncLog_def mem_ok_def mem_view_def split: if_splits)

lemma mem_ok_sources: "mem_ok s \<Longrightarrow> s_id src = i \<Longrightarrow> mem_ok (s\<lparr>sources := put i src (sources s)\<rparr>)"
  by (rule mem_okI) (auto simp: mem_okD split: if_splits)

lemma mem_UpdateSourceSyncStatus_spec:
  assumes "mem_ok s" and "mem_UpdateSourceSyncStatus now i st at s = Inr s'"
  shows "mem_ok s' \<and> mem_view s' = (mem_view s)\<lparr>v_sources := (v_sources (mem_view s))(i :=
        map_option (\<lambda>src. src\<lparr>s_last_status := st, s_last_synced := Some at, s_updated := now\<rparr>) (v_sources (mem_view s) i))\<rparr>"
  using assms mem_okD(6) [OF assms(1), of i] mem_ok_sources [OF assms(1), where i = i]
  by (auto simp: mem_UpdateSourceSyncStatus_def split: option.splits intro!: mem_view_eqI)

section \<open>Moving between sources\<close>

lemma mem_MoveToSource_spec:
  assumes ok: "mem_ok s" and mv: "mem_MoveToSource from to s = (s', is)"
  shows "mem_ok s' \<and> mem_view s' = spec_MoveToSource from to (mem_view s)
    \<and> set is = {i. \<exists>g. v_groups (mem_view s) i = Some g \<and> g_source g = from}"
proof -
  note d = mem_okD [OF ok]
  let ?f = "\<lambda>t. if t_source t = from then t\<lparr>t_source := Some to\<rparr> else t"
  have key: "tuple_key (?f t) = tuple_key t" for t by (simp add: tuple_key_def)
  have s': "s' = s\<lparr>groups := map_vals (\<lambda>_ g. if g_source g = from then g\<lparr>g_source := Some to\<rparr> else g) (groups s),
      tuples := map ?f (tuples s)\<rparr>"
    and is': "is = sort (map g_id (filter (\<lambda>g. g_source g = from) (map snd (groups s))))"
    using mv by (auto simp: mem_MoveToSource_def)
  have ents: "mem_entries (map ?f (tuples s)) =
      (\<lambda>k. map_option (\<lambda>e. if en_source e = from then e\<lparr>en_source := Some to\<rparr> else e) (mem_entries (tuples s) k))"
    by (rule mem_entries_map) (simp add: tuple_key_def tuple_entry_def)
  have keys: "map tuple_key (map ?f (tuples s)) = map tuple_key (tuples s)" using key by simp
  have "mem_ok s'" unfolding s'
    using d keys by (intro mem_okI) (auto simp del: map_map split: if_splits)
  moreover have "mem_view s' = spec_MoveToSource from to (mem_view s)"
    unfolding s' using ents
    by (intro mem_view_eqI) (simp_all add: spec_MoveToSource_def fun_eq_iff map_option_case split: option.split)
  moreover have "set is = {i. \<exists>g. lookup (groups s) i = Some g \<and> g_source g = from}"
  proof -
    have "set is = {g_id g | i g. lookup (groups s) i = Some g \<and> g_source g = from}"
      using in_gomap_iff [OF d(1)] by (force simp: is')
    then show ?thesis using d(5) by fastforce
  qed
  ultimately show ?thesis by simp
qed


section \<open>Replacing a source's tuples\<close>

lemma lookup_sync_group:
  "lookup (sync_group now src d i gs) j = (if j = i then synced_group now src d i (lookup gs i) else lookup gs j)"
  by (simp add: sync_group_def synced_group_def split: option.split)

lemma gomap_ok_sync_group [simp]: "gomap_ok gs \<Longrightarrow> gomap_ok (sync_group now src d i gs)"
  by (simp add: sync_group_def split: option.split)

lemma synced_group_idem [simp]: "synced_group now src d i (synced_group now src d i og) = synced_group now src d i og"
  by (simp add: synced_group_def sync_group_def lookup_default_def split: option.split)

lemma synced_group_Some: "\<exists>g. synced_group now src d i og = Some g"
  by (simp add: synced_group_def sync_group_def split: option.split)

lemma synced_group_id: "synced_group now src d i og = Some g \<Longrightarrow> (\<And>x. og = Some x \<Longrightarrow> g_id x = i) \<Longrightarrow> g_id g = i"
  by (auto simp: synced_group_def sync_group_def split: option.splits if_splits)

lemma k_group_pair_key [simp]: "k_group (pair_key p) = p_group p"
  by (simp add: pair_key_def split: prod.split)

lemma replace_loop_groups:
  assumes "replace_loop now ids src d ex ps newSet gs added = (nS, gs', added')"
    and "\<And>k. k \<in> set newSet \<Longrightarrow> synced_group now src d (k_group k) (lookup gs (k_group k)) = lookup gs (k_group k)"
    and "gomap_ok gs"
  shows "gomap_ok gs' \<and> lookup gs' i = (if i \<in> p_group ` set ps then synced_group now src d i (lookup gs i) else lookup gs i)"
  using assms
proof (induction ps arbitrary: newSet gs added)
  case (Cons p ps)
  show ?case
  proof (cases "pair_key p \<in> set newSet")
    case True
    then have "synced_group now src d (p_group p) (lookup gs (p_group p)) = lookup gs (p_group p)"
      using Cons.prems(2) [of "pair_key p"] by simp
    moreover have "gomap_ok gs' \<and> lookup gs' i =
        (if i \<in> p_group ` set ps then synced_group now src d i (lookup gs i) else lookup gs i)"
      using Cons True by (simp add: Let_def)
    ultimately show ?thesis by auto
  next
    case False
    then show ?thesis
      using Cons.prems by (auto simp: Let_def lookup_sync_group dest!: Cons.IH)
  qed
qed simp

definition added_ok :: "uuid \<Rightarrow> TupleKey list \<Rightarrow> TupleKey list \<Rightarrow> MemTuple list \<Rightarrow> bool" where
  "added_ok src ex newSet added \<longleftrightarrow> keys_distinct added \<and> tuple_key ` set added = set newSet - set ex
     \<and> (\<forall>t \<in> set added. tuple_entry t = \<lparr>en_source = Some src, en_expires = None\<rparr>)"

lemma tuple_key_of:
  "tuple_key \<lparr>t_id = n, t_obj = k_group k, t_rel = k_rel k, t_stype = k_type k, t_sid = k_sid k, t_srel = k_srel k,
     t_source = src, t_created = c, t_expires = x\<rparr> = k"
  by (simp add: tuple_key_def)

lemma replace_loop_added:
  assumes "replace_loop now ids src d ex ps newSet gs added = (nS, gs', added')" and "added_ok src ex newSet added"
  shows "set nS = set newSet \<union> pair_key ` set ps \<and> added_ok src ex nS added'"
  using assms
proof (induction ps arbitrary: newSet gs added)
  case (Cons p ps)
  show ?case
  proof (cases "pair_key p \<in> set newSet")
    case True
    with Cons show ?thesis by (auto simp: Let_def)
  next
    case False
    let ?k = "pair_key p"
    let ?added = "if ?k \<in> set ex then added else added @ [\<lparr>t_id = ids (length added), t_obj = k_group ?k,
      t_rel = k_rel ?k, t_stype = k_type ?k, t_sid = k_sid ?k, t_srel = k_srel ?k,
      t_source = Some src, t_created = now, t_expires = None\<rparr>]"
    have "added_ok src ex (?k # newSet) ?added"
      using Cons.prems(2) False by (auto simp: added_ok_def tuple_key_of tuple_entry_def simp del: k_group_pair_key)
    moreover have "replace_loop now ids src d ex ps (?k # newSet) (sync_group now src d (p_group p) gs) ?added = (nS, gs', added')"
      using Cons.prems(1) False by (simp add: Let_def)
    ultimately show ?thesis using Cons.IH by fastforce
  qed
qed simp

lemma lookup_filter:
  "gomap_ok m \<Longrightarrow> map_of (filter (\<lambda>(k, v). P k v) m) k =
    (case map_of m k of None \<Rightarrow> None | Some v \<Rightarrow> if P k v then Some v else None)"
proof (induction m)
  case (Cons x m)
  obtain a b where x: "x = (a, b)" by force
  with Cons.prems have "map_of m a = None" by (auto simp: map_of_eq_None_iff)
  with Cons x show ?case by auto
qed simp

lemma dom_mem_entries: "dom (mem_entries ts) = tuple_key ` set ts"
  using mem_entries_None [of ts] by (auto simp: dom_def)

lemma group_used_mentioned:
  assumes "gomap_ok m"
  shows "group_used ts m i \<longleftrightarrow> mentioned (mem_entries ts) (mem_managers m) i"
proof -
  have "(\<exists>gm \<in> set m. \<exists>x \<in> set (snd gm). names_group i (m_token x)) \<longleftrightarrow>
      (\<exists>g ms. lookup m g = Some ms \<and> (\<exists>x \<in> set ms. names_group i (m_token x)))"
    using in_gomap_iff [OF assms] by (metis prod.collapse snd_conv)
  also have "\<dots> \<longleftrightarrow> (\<exists>g. \<exists>t \<in> mem_managers m g. names_group i t)"
    by (rule iff_exI) (auto simp: mem_managers_def' split: option.split)
  finally show ?thesis
    by (simp add: group_used_def mentioned_def dom_mem_entries)
qed

lemma no_managers: "lookup_default [] m i = [] \<longleftrightarrow> mem_managers m i = {}"
  by (simp add: mem_managers_def)

lemma own_keys:
  "keys_distinct ts \<Longrightarrow> k \<in> tuple_key ` set (filter (\<lambda>t. t_source t = Some src) ts) \<longleftrightarrow>
    (\<exists>e. mem_entries ts k = Some e \<and> en_source e = Some src)"
  by (auto simp: mem_entries_Some tuple_entry_def)

lemma replaced_tuples:
  assumes d: "keys_distinct ts"
    and own: "\<And>p e. p \<in> set ps \<Longrightarrow> mem_entries ts (pair_key p) = Some e \<Longrightarrow> en_source e = Some src"
    and nS: "set nS = pair_key ` set ps"
    and a: "added_ok src (map tuple_key (filter (\<lambda>t. t_source t = Some src) ts)) nS added"
  shows "keys_distinct (ts @ added) \<and>
    mem_entries (filter (\<lambda>t. \<not> (t_source t = Some src \<and> tuple_key t \<notin> set nS)) (ts @ added)) =
      replaced_entries src ps (mem_entries ts)"
proof -
  let ?new = "\<lparr>en_source = Some src, en_expires = None\<rparr>"
  have ak: "k \<in> tuple_key ` set added \<longleftrightarrow> k \<in> pair_key ` set ps \<and> mem_entries ts k = None" for k
  proof -
    have "k \<in> tuple_key ` set added \<longleftrightarrow> k \<in> pair_key ` set ps \<and> \<not> (\<exists>e. mem_entries ts k = Some e \<and> en_source e = Some src)"
      using a own_keys [OF d, of k src] by (simp add: added_ok_def nS)
    then show ?thesis using own by (cases "mem_entries ts k") auto
  qed
  have ad: "keys_distinct added" using a by (simp add: added_ok_def)
  have ae: "mem_entries added k = (if k \<in> tuple_key ` set added then Some ?new else None)" for k
  proof (cases "k \<in> tuple_key ` set added")
    case True
    then obtain t where "t \<in> set added" "tuple_key t = k" by auto
    then show ?thesis using a True mem_entries_in [OF ad] by (auto simp: added_ok_def)
  qed (simp add: mem_entries_None)
  have dd: "keys_distinct (ts @ added)"
    using d ad ak by (auto simp: mem_entries_None image_iff)
  have "mem_entries (filter (\<lambda>t. \<not> (t_source t = Some src \<and> tuple_key t \<notin> set nS)) (ts @ added)) =
      (\<lambda>k. case mem_entries (ts @ added) k of None \<Rightarrow> None
         | Some e \<Rightarrow> if \<not> (en_source e = Some src \<and> k \<notin> set nS) then Some e else None)"
    by (rule mem_entries_filter [OF dd]) (simp add: tuple_entry_def)
  also have "\<dots> = replaced_entries src ps (mem_entries ts)"
    using own by (auto simp: fun_eq_iff replaced_entries_def map_add_def ae ak nS split: option.split)
  finally show ?thesis using dd by blast
qed


lemma mem_ReplaceTuples_spec:
  assumes ok: "mem_ok s"
    and own: "\<And>p e. p \<in> set ps \<Longrightarrow> v_entries (mem_view s) (pair_key p) = Some e \<Longrightarrow> en_source e = Some src"
    and run: "mem_ReplaceTuples now ids src ps d s = (s', n, m)"
  shows "mem_ok s' \<and> mem_view s' = spec_ReplaceTuples now src ps d (mem_view s)"
proof -
  note dk = mem_okD [OF ok]
  let ?ex = "map tuple_key (filter (\<lambda>t. t_source t = Some src) (tuples s))"
  obtain nS gs added where loop: "replace_loop now ids src d ?ex ps [] (groups s) [] = (nS, gs, added)"
    by (metis prod_cases3)
  have nS: "set nS = pair_key ` set ps" and a: "added_ok src ?ex nS added"
    using replace_loop_added [OF loop] by (auto simp: added_ok_def)
  have gs: "gomap_ok gs" "lookup gs i = (if i \<in> p_group ` set ps then synced_group now src d i (lookup (groups s) i)
      else lookup (groups s) i)" for i
    using replace_loop_groups [OF loop _ dk(1)] by simp_all
  define kept where "kept = filter (\<lambda>t. \<not> (t_source t = Some src \<and> tuple_key t \<notin> set nS)) (tuples s @ added)"
  have kept: "keys_distinct kept" "mem_entries kept = replaced_entries src ps (mem_entries (tuples s))"
    unfolding kept_def using replaced_tuples [OF dk(4) own nS a] by (auto simp only: mem_view_simps keys_distinct_filter)
  define gs' where "gs' = filter (\<lambda>(i, g). \<not> (g_source g = Some src
      \<and> length (lookup_default [] (managers s) i) = 0 \<and> \<not> group_used kept (managers s) i)) gs"
  have s': "s' = s\<lparr>groups := gs', tuples := kept\<rparr>"
    using run unfolding mem_ReplaceTuples_def loop kept_def gs'_def Let_def prod.case by blast
  have gs'l: "lookup gs' i = replaced_groups now src ps d (mem_view s) i" for i
    unfolding gs'_def lookup_filter [OF gs(1)] replaced_groups_def
    by (auto simp add: gs(2) no_managers group_used_mentioned [OF dk(3)] kept(2) split: option.split)
  have "g_id g = i" if g: "lookup gs' i = Some g" for i g
  proof -
    have "lookup gs i = Some g"
      using g lookup_filter [OF gs(1)] by (auto simp: gs'_def split: option.splits if_splits)
    then show ?thesis using gs(2) [of i] dk(5) synced_group_id [of now src d i] by (auto split: if_splits)
  qed
  then have "mem_ok s'" unfolding s'
    using dk kept(1) gs(1) by (intro mem_okI) (simp_all add: gs'_def)
  moreover have "mem_view s' = spec_ReplaceTuples now src ps d (mem_view s)"
    unfolding s' by (rule mem_view_eqI) (simp_all add: spec_ReplaceTuples_def fun_eq_iff gs'l kept(2))
  ultimately show ?thesis ..
qed

section \<open>Reading\<close>

lemma entry_live_mem: "mem_ok s \<Longrightarrow> entry_live now (mem_view s) k \<longleftrightarrow> (\<exists>t \<in> set (tuples s). tuple_key t = k \<and> live now t)"
  by (auto simp: entry_live_def mem_entries_Some [OF mem_okD(4)] tuple_entry_def live_def)

lemma entry_live_tuple: "mem_ok s \<Longrightarrow> t \<in> set (tuples s) \<Longrightarrow> live now t \<Longrightarrow> entry_live now (mem_view s) (tuple_key t)"
  by (auto simp: entry_live_mem)

lemma tuple_key_sel [simp]:
  "k_group (tuple_key t) = t_obj t" "k_rel (tuple_key t) = t_rel t" "k_type (tuple_key t) = t_stype t"
  "k_sid (tuple_key t) = t_sid t" "k_srel (tuple_key t) = t_srel t"
  by (simp_all add: tuple_key_def)

lemma holds_in_group:
  assumes ok: "mem_ok s"
  shows "holds now (tuples s) email g r \<longleftrightarrow> in_group now (mem_view s) email g r"
proof
  assume "holds now (tuples s) email g r"
  then show "in_group now (mem_view s) email g r"
  proof (induction rule: holds.induct)
    case (direct t)
    then show ?case
      using in_group.entered [OF entry_live_tuple [OF ok], of t now email] by (auto simp: user_hits_def)
  next
    case (via g r t)
    then have "t \<in> set (tuples s)" "live now t" "t_stype t = ''group''" "t_sid t = g" "implies r (t_srel t)"
      by (auto simp: parent_hits_iff)
    then show ?case
      using in_group.nested [OF via.IH entry_live_tuple [OF ok], of t] by simp
  qed
next
  assume "in_group now (mem_view s) email g r"
  then show "holds now (tuples s) email g r"
  proof (induction rule: in_group.induct)
    case (entered k)
    then obtain t where "t \<in> set (tuples s)" "k = tuple_key t" "live now t" by (auto simp: entry_live_mem [OF ok])
    then show ?case using holds.direct [of t now "tuples s" email] entered(2) by (auto simp: user_hits_def)
  next
    case (nested g r k)
    then obtain t where "t \<in> set (tuples s)" "k = tuple_key t" "live now t" by (auto simp: entry_live_mem [OF ok])
    then show ?case using holds.via [OF nested.IH, of t] nested(3-5) by (auto simp: parent_hits_iff)
  qed
qed

lemma member_hits_raw: "t \<in> set (member_hits now ts (g, r)) \<longleftrightarrow>
    t \<in> set ts \<and> t_obj t = g \<and> t_stype t \<noteq> ''pattern'' \<and> live now t \<and> relationMatches (t_rel t) (filterFor r)"
  by (auto simp: member_hits_def)

lemma counts_counts_in:
  assumes ok: "mem_ok s"
  shows "counts_in now (mem_view s) g r k \<longleftrightarrow> (\<exists>t. counts now (tuples s) g r t \<and> k = tuple_key t)"
proof
  assume "counts_in now (mem_view s) g r k"
  then show "\<exists>t. counts now (tuples s) g r t \<and> k = tuple_key t"
  proof (induction rule: counts_in.induct)
    case (listed k r)
    then obtain t where t: "t \<in> set (tuples s)" "k = tuple_key t" "live now t" by (auto simp: entry_live_mem [OF ok])
    then have "t \<in> set (member_hits now (tuples s) (t_obj t, r))" using listed by (simp add: member_hits_raw)
    then show ?case using counts.own [of t] t by fastforce
  next
    case (below k r u)
    then obtain t x where t: "t \<in> set (tuples s)" "k = tuple_key t" "live now t"
      and x: "counts now (tuples s) (k_sid k) (k_srel k) x" "u = tuple_key x" by (auto simp: entry_live_mem [OF ok])
    then have "t \<in> set (member_hits now (tuples s) (t_obj t, r))" using below by (simp add: member_hits_raw)
    from counts.sub [OF this, of x] show ?case using t x below by auto
  qed
next
  assume "\<exists>t. counts now (tuples s) g r t \<and> k = tuple_key t"
  then obtain t where "counts now (tuples s) g r t" and k: "k = tuple_key t" by blast
  then have "counts_in now (mem_view s) g r (tuple_key t)"
  proof (induction rule: counts.induct)
    case (own t g r)
    then show ?case
      using counts_in.listed [OF entry_live_tuple [OF ok], of t now r] by (auto simp: member_hits_raw)
  next
    case (sub t g r u)
    then show ?case
      using counts_in.below [OF entry_live_tuple [OF ok], of t now r] by (auto simp: member_hits_raw)
  qed
  with k show "counts_in now (mem_view s) g r k" by simp
qed


lemma lookup_GroupOwners_fold:
  "lookup (fold (\<lambda>i out. case lookup gs i of Some g \<Rightarrow> put i (g_source g) out | None \<Rightarrow> out) is out) i =
    (if i \<in> set is \<and> lookup gs i \<noteq> None then map_option g_source (lookup gs i) else lookup out i)"
  by (induction "is" arbitrary: out) (auto split: option.splits)

lemma mem_GroupOwners_spec:
  "lookup (mem_GroupOwners s is) i = (if i \<in> set is then map_option g_source (lookup (groups s) i) else None)"
  by (auto simp: mem_GroupOwners_def lookup_GroupOwners_fold)

lemma set_vals: "gomap_ok m \<Longrightarrow> snd ` set m = ran (map_of m)"
  by (simp add: ran_distinct)

lemma mem_ListGroups_all: "mem_ok s \<Longrightarrow> set (mem_ListGroups s [] None 0) = ran (lookup (groups s))"
  by (simp add: mem_ListGroups_def Let_def group_hit_def group_in_source_def trim_space_def trim_both_def trim_left_def
      to_lower_def set_vals [OF mem_okD(1), symmetric])

lemma mem_ListSources_set: "mem_ok s \<Longrightarrow> set (mem_ListSources s) = ran (lookup (sources s))"
  by (simp add: mem_ListSources_def set_vals [OF mem_okD(2), symmetric])

lemma mem_ManagedGroups_set:
  assumes "mem_ok s"
  shows "set (mem_ManagedGroups s ts) = {i. mem_managers (managers s) i \<inter> set ts \<noteq> {}}"
proof -
  have "set (mem_ManagedGroups s ts) = {i. \<exists>ms. lookup (managers s) i = Some ms \<and> (\<exists>m \<in> set ms. m_token m \<in> set ts)}"
    using in_gomap_iff [OF mem_okD(3) [OF assms]] by (force simp: mem_ManagedGroups_def)
  also have "\<dots> = {i. mem_managers (managers s) i \<inter> set ts \<noteq> {}}"
    by (rule Collect_cong) (auto simp: mem_managers_def' split: option.split)
  finally show ?thesis .
qed

lemma mem_GroupEdges_set: "mem_ok s \<Longrightarrow> set (mem_GroupEdges now s) = view_edges now (mem_view s)"
  by (force simp: mem_GroupEdges_def view_edges_def entry_live_mem)

lemma mem_GetUserTokens_spec:
  "mem_ok s \<Longrightarrow> set (mem_GetUserTokens now s email) = {UserPrefix @ email}
     \<union> {GroupPrefix @ i | i r. in_group now (mem_view s) email i r}
     \<union> {GroupToken i r | i r. in_group now (mem_view s) email i r \<and> r \<noteq> RelationMember}"
  unfolding set_GetUserTokens by (simp only: holds_in_group)

lemma mem_GetAllMembers_spec:
  "mem_ok s \<Longrightarrow> set (mem_GetAllMembers now s i r) =
     {memberToken (k_type k) (k_sid k) (k_srel k) | k. counts_in now (mem_view s) i (NormalizeRelation r) k}"
  unfolding set_GetAllMembers counts_counts_in by (force simp: counts_counts_in)

section \<open>The store\<close>

definition memory_ops :: "MemoryStore StoreOps" where
  "memory_ops = \<lparr>
     st_CreateGroup = mem_CreateGroup,
     st_GetGroup = mem_GetGroup,
     st_ListGroups = (\<lambda>s q src n. Inr (mem_ListGroups s q src n)),
     st_UpdateGroup = mem_UpdateGroup,
     st_DeleteGroup = (\<lambda>i s. Inr (mem_DeleteGroup i s)),
     st_GroupRelations = (\<lambda>now s. Inr (mem_GroupRelations now s)),
     st_GroupOwners = (\<lambda>s is. Inr (mem_GroupOwners s is)),
     st_AddMember = (\<lambda>now new i r ty m src ex s. Inr (mem_AddMember now new i r ty m src ex s)),
     st_RemoveMember = (\<lambda>i r ty m s. Inr (mem_RemoveMember i r ty m s)),
     st_ChangeRelation = mem_ChangeRelation,
     st_GetDirectMembers = (\<lambda>now s i r. Inr (mem_GetDirectMembers now s i r)),
     st_ListMemberships = (\<lambda>now s i. Inr (mem_ListMemberships now s i)),
     st_GetAllMembers = (\<lambda>now s i r. Inr (mem_GetAllMembers now s i r)),
     st_GetUserTokens = (\<lambda>now s e. Inr (mem_GetUserTokens now s e)),
     st_SearchUsers = (\<lambda>now s q n. Inr (mem_SearchUsers now s q n)),
     st_CreateSource = (\<lambda>now src s. Inr (mem_CreateSource now src s)),
     st_GetSource = mem_GetSource,
     st_ListSources = (\<lambda>s. Inr (mem_ListSources s)),
     st_UpdateSource = mem_UpdateSource,
     st_DeleteSource = (\<lambda>i s. Inr (mem_DeleteSource i s)),
     st_UpdateSourceSyncStatus = mem_UpdateSourceSyncStatus,
     st_CreateSyncLog = (\<lambda>l s. Inr (mem_CreateSyncLog l s)),
     st_UpdateSyncLog = mem_UpdateSyncLog,
     st_ListSyncLogs = (\<lambda>s i n. Inr (mem_ListSyncLogs s i n)),
     st_ReplaceTuples = (\<lambda>now ids src ps d s. Inr (mem_ReplaceTuples now ids src ps d s)),
     st_MoveToSource = (\<lambda>from to s. Inr (mem_MoveToSource from to s)),
     st_ListManagers = (\<lambda>s i. Inr (mem_ListManagers s i)),
     st_AddManager = (\<lambda>now i m s. Inr (mem_AddManager now i m s)),
     st_RemoveManager = (\<lambda>i t s. Inr (mem_RemoveManager i t s)),
     st_ManagedGroups = (\<lambda>s ts. Inr (mem_ManagedGroups s ts)),
     st_GroupEdges = (\<lambda>now s. Inr (mem_GroupEdges now s)),
     st_AddChange = (\<lambda>now new c s. Inr (mem_AddChange now new c s)),
     st_ListChanges = (\<lambda>s i n. Inr (mem_ListChanges s i n))\<rparr>"

lemma memory_ops_simps [simp]:
  "st_CreateGroup memory_ops = mem_CreateGroup"
  "st_GetGroup memory_ops = mem_GetGroup"
  "st_ListGroups memory_ops s q src lim = Inr (mem_ListGroups s q src lim)"
  "st_UpdateGroup memory_ops = mem_UpdateGroup"
  "st_DeleteGroup memory_ops i s = Inr (mem_DeleteGroup i s)"
  "st_GroupRelations memory_ops now s = Inr (mem_GroupRelations now s)"
  "st_GroupOwners memory_ops s is = Inr (mem_GroupOwners s is)"
  "st_AddMember memory_ops now new i r ty m jo ex s = Inr (mem_AddMember now new i r ty m jo ex s)"
  "st_RemoveMember memory_ops i r ty m s = Inr (mem_RemoveMember i r ty m s)"
  "st_ChangeRelation memory_ops = mem_ChangeRelation"
  "st_GetDirectMembers memory_ops now s i r = Inr (mem_GetDirectMembers now s i r)"
  "st_ListMemberships memory_ops now s i = Inr (mem_ListMemberships now s i)"
  "st_GetAllMembers memory_ops now s i r = Inr (mem_GetAllMembers now s i r)"
  "st_GetUserTokens memory_ops now s e = Inr (mem_GetUserTokens now s e)"
  "st_SearchUsers memory_ops now s q lim = Inr (mem_SearchUsers now s q lim)"
  "st_CreateSource memory_ops now sc s = Inr (mem_CreateSource now sc s)"
  "st_GetSource memory_ops = mem_GetSource"
  "st_ListSources memory_ops s = Inr (mem_ListSources s)"
  "st_UpdateSource memory_ops = mem_UpdateSource"
  "st_DeleteSource memory_ops j s = Inr (mem_DeleteSource j s)"
  "st_UpdateSourceSyncStatus memory_ops = mem_UpdateSourceSyncStatus"
  "st_CreateSyncLog memory_ops l s = Inr (mem_CreateSyncLog l s)"
  "st_UpdateSyncLog memory_ops = mem_UpdateSyncLog"
  "st_ListSyncLogs memory_ops s j lim = Inr (mem_ListSyncLogs s j lim)"
  "st_ReplaceTuples memory_ops now ids j ps d s = Inr (mem_ReplaceTuples now ids j ps d s)"
  "st_MoveToSource memory_ops jo j s = Inr (mem_MoveToSource jo j s)"
  "st_ListManagers memory_ops s i = Inr (mem_ListManagers s i)"
  "st_AddManager memory_ops now i mg s = Inr (mem_AddManager now i mg s)"
  "st_RemoveManager memory_ops i t s = Inr (mem_RemoveManager i t s)"
  "st_ManagedGroups memory_ops s ts = Inr (mem_ManagedGroups s ts)"
  "st_GroupEdges memory_ops now s = Inr (mem_GroupEdges now s)"
  "st_AddChange memory_ops now new c s = Inr (mem_AddChange now new c s)"
  "st_ListChanges memory_ops s i lim = Inr (mem_ListChanges s i lim)"
  by (simp_all add: memory_ops_def)

lemma mem_GetGroup_Inr: "mem_ok s \<Longrightarrow> mem_GetGroup s i = Inr g \<Longrightarrow> lookup (groups s) i = Some g \<and> g_id g = i"
  by (auto simp: mem_GetGroup_def mem_okD split: option.splits)

lemma mem_GetSource_Inr: "mem_ok s \<Longrightarrow> mem_GetSource s j = Inr src \<Longrightarrow> lookup (sources s) j = Some src \<and> s_id src = j"
  by (auto simp: mem_GetSource_def mem_okD split: option.splits)

interpretation memory: store memory_ops mem_view mem_ok
proof (unfold_locales, goal_cases)
  case 1
  then show ?case unfolding memory_ops_simps by (rule mem_CreateGroup_spec)
next
  case 2
  then show ?case unfolding memory_ops_simps by (rule mem_UpdateGroup_spec)
next
  case 3
  then show ?case by (clarsimp simp: mem_DeleteGroup_spec)
next
  case 4
  then show ?case by (clarsimp simp: mem_AddMember_spec)
next
  case 5
  then show ?case by (clarsimp simp: mem_RemoveMember_spec)
next
  case (6 s i ty m from' to' s')
  then show ?case using mem_ChangeRelation_spec [OF 6(1), of i from' ty m to'] by (simp del: mem_view_simps)
next
  case (7 s ps j now ids descs s' n n')
  then show ?case using mem_ReplaceTuples_spec [OF 7(1), of ps j now ids descs s' n n'] by simp
next
  case (8 s jo j s' "is")
  then show ?case using mem_MoveToSource_spec [OF 8(1), of jo j s' "is"] by simp
next
  case 9
  then show ?case by (clarsimp simp: mem_AddManager_spec)
next
  case 10
  then show ?case by (clarsimp simp: mem_RemoveManager_spec)
next
  case 11
  then show ?case by (clarsimp simp: mem_AddChange_spec)
next
  case 12
  then show ?case by (clarsimp simp: mem_DeleteSource_spec)
next
  case 13
  then show ?case by (clarsimp simp: mem_CreateSyncLog_spec)
next
  case 14
  then show ?case unfolding memory_ops_simps by (rule mem_UpdateSyncLog_spec)
next
  case 15
  then show ?case unfolding memory_ops_simps by (rule mem_UpdateSourceSyncStatus_spec)
next
  case 16
  then show ?case unfolding memory_ops_simps mem_view_simps by (rule mem_GetGroup_Inr)
next
  case 17
  then show ?case unfolding memory_ops_simps mem_view_simps by (rule mem_GetSource_Inr)
next
  case 18
  then show ?case by (clarsimp simp: mem_ListSources_set)
next
  case 19
  then show ?case by (auto simp: mem_ListManagers_def mem_managers_def)
next
  case 20
  then show ?case by (clarsimp simp: mem_ManagedGroups_set)
next
  case 21
  then show ?case by (clarsimp simp: mem_GroupEdges_set)
next
  case 22
  then show ?case by (clarsimp simp: mem_GroupOwners_spec)
next
  case 23
  then show ?case by (clarsimp simp: mem_ListGroups_all)
next
  case 24
  then show ?case by (clarsimp simp: mem_GetUserTokens_spec)
next
  case 25
  then show ?case by (clarsimp simp: mem_GetAllMembers_spec)
qed


lemma ex_triple: "\<exists>a b c. (x :: 'x \<times> 'y \<times> 'z) = (a, b, c)"
  by (cases x) auto

interpretation memory_total: reliable_store memory_ops mem_view mem_ok
proof (unfold_locales, goal_cases)
  case (6 s i ty m from' to' e)
  then show ?case using mem_ChangeRelation_spec [OF 6(1), of i from' ty m to'] by (simp del: mem_view_simps)
qed (auto simp: mem_CreateGroup_def mem_UpdateGroup_def mem_GetGroup_def mem_GetSource_def Let_def ex_triple
  split: option.splits)

end
