(* ===== verification/Invariant.thy ===== *)
theory Invariant
  imports MemoryContract
begin

text \<open>
  The invariant of the service's data, over the view of any store, and that every writing
  operation keeps it when it is called the way the service and the sync engine call it:

  every entry belongs to the source its group belongs to (so a group has one writer), the group of
  an entry exists, group ids hold no \<open>#\<close>, and an entry's key is one the validators let in.

  Where a group has one writer, the database's silent skipping of an imported tuple that exists
  already and the in-memory store's keeping of it are the same thing.
\<close>

definition wf_key :: "TupleKey \<Rightarrow> bool" where
  "wf_key k \<longleftrightarrow> RelationSeparator \<notin> set (k_group k) \<and> k_rel k \<noteq> []
     \<and> k_type k \<in> {''user'', ''group'', ''pattern''}
     \<and> (if k_type k = ''group'' then RelationSeparator \<notin> set (k_sid k) \<and> k_srel k \<noteq> [] else k_srel k = [])"

definition entry_owned :: "StoreView \<Rightarrow> TupleKey \<Rightarrow> Entry \<Rightarrow> bool" where
  "entry_owned v k e \<longleftrightarrow> (\<exists>g. v_groups v (k_group k) = Some g \<and> g_source g = en_source e)"

definition view_ok :: "StoreView \<Rightarrow> bool" where
  "view_ok v \<longleftrightarrow> (\<forall>k e. v_entries v k = Some e \<longrightarrow> entry_owned v k e \<and> wf_key k)
     \<and> (\<forall>i \<in> dom (v_groups v). RelationSeparator \<notin> set i)"

lemma view_okI:
  assumes "\<And>k e. v_entries v k = Some e \<Longrightarrow> entry_owned v k e" "\<And>k e. v_entries v k = Some e \<Longrightarrow> wf_key k"
    and "\<And>i g. v_groups v i = Some g \<Longrightarrow> RelationSeparator \<notin> set i"
  shows "view_ok v"
  using assms by (auto simp: view_ok_def)

lemma view_okD:
  assumes "view_ok v"
  shows "v_entries v k = Some e \<Longrightarrow> \<exists>g. v_groups v (k_group k) = Some g \<and> g_source g = en_source e"
    "v_entries v k = Some e \<Longrightarrow> wf_key k" "v_groups v i = Some g \<Longrightarrow> RelationSeparator \<notin> set i"
  using assms by (auto simp: view_ok_def entry_owned_def)

lemma view_ok_absent: "view_ok v \<Longrightarrow> v_groups v (k_group k) = None \<Longrightarrow> v_entries v k = None"
  by (cases "v_entries v k") (auto dest: view_okD(1))

lemma view_ok_history [simp]: "view_ok (v\<lparr>v_history := h\<rparr>) \<longleftrightarrow> view_ok v"
  by (simp add: view_ok_def entry_owned_def)

lemma view_ok_managers [simp]: "view_ok (v\<lparr>v_managers := h\<rparr>) \<longleftrightarrow> view_ok v"
  by (simp add: view_ok_def entry_owned_def)

lemma view_ok_sources [simp]: "view_ok (v\<lparr>v_sources := h\<rparr>) \<longleftrightarrow> view_ok v"
  by (simp add: view_ok_def entry_owned_def)

lemma k_group_entry_key [simp]: "k_group (entry_key g r ty m) = g"
  by (simp add: entry_key_def pair_key_def split: prod.split)

lemma k_type_entry_key [simp]: "k_type (entry_key g r ty m) = ty"
  by (simp add: entry_key_def pair_key_def split: prod.split)

lemma k_rel_entry_key [simp]: "k_rel (entry_key g r ty m) = NormalizeRelation r"
  by (simp add: entry_key_def pair_key_def split: prod.split)

lemma subject_wf: "subject ty m = (i, sr) \<Longrightarrow>
    (if ty = ''group'' then RelationSeparator \<notin> set i \<and> sr \<noteq> [] else sr = [])"
  by (auto simp: subject_def dest: MemberGroup_no_sep MemberGroup_relation_ne split: if_splits)

lemma wf_entry_key: "wf_key (entry_key g r ty m) \<longleftrightarrow> RelationSeparator \<notin> set g \<and> ty \<in> {''user'', ''group'', ''pattern''}"
proof (cases "subject ty m")
  case (Pair i sr)
  then show ?thesis using subject_wf [OF Pair] by (simp add: wf_key_def entry_key_def pair_key_def)
qed

lemma wf_pair_key: "wf_key (pair_key p) \<longleftrightarrow> RelationSeparator \<notin> set (p_group p) \<and> p_type p \<in> {''user'', ''group'', ''pattern''}"
  using wf_entry_key [of "p_group p" "p_relation p" "p_type p" "p_member p"]
  by (cases p) (simp add: entry_key_def)

section \<open>Each operation keeps it\<close>

lemma view_ok_CreateGroup:
  assumes "view_ok v" "v_groups v (g_id g) = None" "RelationSeparator \<notin> set (g_id g)"
  shows "view_ok (spec_CreateGroup now g v)"
proof (rule view_okI)
  fix k e assume "v_entries (spec_CreateGroup now g v) k = Some e"
  then have e: "v_entries v k = Some e" by (simp add: spec_CreateGroup_def)
  obtain x where "v_groups v (k_group k) = Some x" "g_source x = en_source e" using view_okD(1) [OF assms(1) e] by blast
  then show "entry_owned (spec_CreateGroup now g v) k e"
    using assms(2) by (auto simp: spec_CreateGroup_def entry_owned_def)
  show "wf_key k" using view_okD(2) [OF assms(1) e] .
qed (use view_okD(3) [OF assms(1)] assms(3) in \<open>auto simp: spec_CreateGroup_def split: if_splits\<close>)

lemma view_ok_UpdateGroup: "view_ok v \<Longrightarrow> view_ok (spec_UpdateGroup now i d desc v)"
proof (rule view_okI)
  assume ok: "view_ok v"
  fix k e assume "v_entries (spec_UpdateGroup now i d desc v) k = Some e"
  then have e: "v_entries v k = Some e" by (simp add: spec_UpdateGroup_def)
  obtain x where "v_groups v (k_group k) = Some x" "g_source x = en_source e" using view_okD(1) [OF ok e] by blast
  then show "entry_owned (spec_UpdateGroup now i d desc v) k e"
    by (auto simp: spec_UpdateGroup_def entry_owned_def)
  show "wf_key k" using view_okD(2) [OF ok e] .
next
  fix j g assume "view_ok v" "v_groups (spec_UpdateGroup now i d desc v) j = Some g"
  then show "RelationSeparator \<notin> set j"
    using view_okD(3) by (auto simp: spec_UpdateGroup_def split: if_splits)
qed

lemma view_ok_DeleteGroup:
  assumes "view_ok v"
  shows "view_ok (spec_DeleteGroup i v)"
proof (rule view_okI)
  fix k e assume "v_entries (spec_DeleteGroup i v) k = Some e"
  then have e: "v_entries v k = Some e" "k_group k \<noteq> i"
    by (auto simp: spec_DeleteGroup_def key_in_or_of_def split: if_splits)
  obtain g where "v_groups v (k_group k) = Some g" "g_source g = en_source e"
    using view_okD(1) [OF assms e(1)] by blast
  with e(2) show "entry_owned (spec_DeleteGroup i v) k e"
    by (auto simp: spec_DeleteGroup_def entry_owned_def)
  show "wf_key k" using view_okD(2) [OF assms e(1)] .
qed (use view_okD(3) [OF assms] in \<open>auto simp: spec_DeleteGroup_def split: if_splits\<close>)

lemma view_ok_AddMember:
  assumes "view_ok v" "v_groups v (k_group k) = Some g" "g_source g = src" "wf_key k"
  shows "view_ok (spec_AddMember k src ex v)"
proof (rule view_okI)
  fix x e assume x: "v_entries (spec_AddMember k src ex v) x = Some e"
  then show "wf_key x"
    using view_okD(2) [OF assms(1)] assms(4) by (auto simp: spec_AddMember_def split: if_splits)
  from x consider "v_entries v x = Some e" | y where "x = k" "v_entries v k = Some y" "en_source e = en_source y"
    | "x = k" "en_source e = src"
    by (auto simp: spec_AddMember_def split: if_splits option.splits)
  then show "entry_owned (spec_AddMember k src ex v) x e"
    using view_okD(1) [OF assms(1)] assms(2,3) by cases (force simp: spec_AddMember_def entry_owned_def)+
qed (use view_okD(3) [OF assms(1)] in \<open>auto simp: spec_AddMember_def\<close>)

lemma view_ok_RemoveMember:
  assumes "view_ok v"
  shows "view_ok (spec_RemoveMember k v)"
  using assms by (auto simp: view_ok_def spec_RemoveMember_def entry_owned_def)

lemma view_ok_ChangeRelation:
  assumes "view_ok v" "k_group k' = k_group k" "wf_key k'"
  shows "view_ok (spec_ChangeRelation k k' v)"
proof (cases "k = k'")
  case False
  show ?thesis
  proof (rule view_okI)
    fix x e assume x: "v_entries (spec_ChangeRelation k k' v) x = Some e"
    then consider "x \<noteq> k'" "v_entries v x = Some e"
      | y y' where "x = k'" "v_entries v y = Some y'" "k_group y = k_group k'" "en_source y' = en_source e"
      using False assms(2) by (auto simp: spec_ChangeRelation_def split: if_splits option.splits)
    then show "entry_owned (spec_ChangeRelation k k' v) x e"
      using view_okD(1) [OF assms(1)] by cases (fastforce simp: spec_ChangeRelation_def entry_owned_def)+
    show "wf_key x"
      using x view_okD(2) [OF assms(1)] assms(3) False
      by (auto simp: spec_ChangeRelation_def split: if_splits)
  qed (use view_okD(3) [OF assms(1)] in \<open>auto simp: spec_ChangeRelation_def split: if_splits\<close>)
qed (simp add: spec_ChangeRelation_def assms(1))

lemma view_ok_AddManager [simp]: "view_ok (spec_AddManager i t v) = view_ok v"
  by (simp add: spec_AddManager_def)

lemma view_ok_RemoveManager [simp]: "view_ok (spec_RemoveManager i t v) = view_ok v"
  by (simp add: spec_RemoveManager_def)

lemma view_ok_AddChange [simp]: "view_ok (spec_AddChange now new c v) = view_ok v"
  by (simp add: spec_AddChange_def)

lemma view_ok_MoveToSource:
  assumes "view_ok v"
  shows "view_ok (spec_MoveToSource from to v)"
proof (rule view_okI)
  fix k e assume "v_entries (spec_MoveToSource from to v) k = Some e"
  then obtain e' where e': "v_entries v k = Some e'" "e = (if en_source e' = from then e'\<lparr>en_source := Some to\<rparr> else e')"
    by (auto simp: spec_MoveToSource_def)
  obtain g where "v_groups v (k_group k) = Some g" "g_source g = en_source e'"
    using view_okD(1) [OF assms e'(1)] by blast
  with e'(2) show "entry_owned (spec_MoveToSource from to v) k e"
    by (auto simp: spec_MoveToSource_def entry_owned_def)
  show "wf_key k" using view_okD(2) [OF assms e'(1)] .
qed (use view_okD(3) [OF assms] in \<open>auto simp: spec_MoveToSource_def\<close>)

lemma view_ok_DeleteSource:
  assumes "view_ok v"
  shows "view_ok (spec_DeleteSource i v)"
proof (rule view_okI)
  fix k e assume "v_entries (spec_DeleteSource i v) k = Some e"
  then have e: "v_entries v k = Some e" "en_source e \<noteq> Some i"
    by (auto simp: spec_DeleteSource_def split: option.splits if_splits)
  obtain g where "v_groups v (k_group k) = Some g" "g_source g = en_source e"
    using view_okD(1) [OF assms e(1)] by blast
  with e(2) show "entry_owned (spec_DeleteSource i v) k e"
    by (auto simp: spec_DeleteSource_def entry_owned_def)
  show "wf_key k" using view_okD(2) [OF assms e(1)] .
qed (use view_okD(3) [OF assms] in \<open>auto simp: spec_DeleteSource_def\<close>)


section \<open>An import\<close>

text \<open>What the checks of a sync run leave to import: groups nobody else owns, entries that are well-formed.\<close>

definition importable :: "uuid \<Rightarrow> TuplePair list \<Rightarrow> StoreView \<Rightarrow> bool" where
  "importable src ps v \<longleftrightarrow> (\<forall>p \<in> set ps. wf_key (pair_key p)
     \<and> (\<forall>g. v_groups v (p_group p) = Some g \<longrightarrow> g_source g = Some src))"

lemma importable_own:
  assumes "view_ok v" "importable src ps v" "p \<in> set ps" "v_entries v (pair_key p) = Some e"
  shows "en_source e = Some src"
proof -
  obtain g where "v_groups v (k_group (pair_key p)) = Some g" "g_source g = en_source e"
    using view_okD(1) [OF assms(1,4)] by blast
  moreover have "k_group (pair_key p) = p_group p" by (simp add: pair_key_def split: prod.split)
  ultimately show ?thesis using assms(2,3) by (auto simp: importable_def)
qed

lemma synced_group_source:
  "synced_group now src d i og = Some g \<Longrightarrow> g_source g = (case og of None \<Rightarrow> Some src | Some x \<Rightarrow> g_source x)"
  by (auto simp: synced_group_def sync_group_def split: option.splits if_splits)

lemma synced_group_exists: "\<exists>g. synced_group now src d i og = Some g"
  by (simp add: synced_group_def sync_group_def split: option.split)

lemma pair_key_group: "k_group (pair_key p) = p_group p"
  by (simp add: pair_key_def split: prod.split)

lemma replaced_entries_cases:
  assumes "replaced_entries src ps E k = Some e"
  obtains "E k = Some e" | "E k = None" "k \<in> pair_key ` set ps" "e = \<lparr>en_source = Some src, en_expires = None\<rparr>"
  using assms by (auto simp: replaced_entries_def split: if_splits option.splits)

lemma view_ok_ReplaceTuples:
  assumes ok: "view_ok v" and imp: "importable src ps v"
  shows "view_ok (spec_ReplaceTuples now src ps d v)"
proof (rule view_okI)
  let ?E = "replaced_entries src ps (v_entries v)"
  fix k e assume "v_entries (spec_ReplaceTuples now src ps d v) k = Some e"
  then have e: "?E k = Some e" by (simp add: spec_ReplaceTuples_def)
  then have m: "mentioned ?E (v_managers v) (k_group k)" by (auto simp: mentioned_def key_in_or_of_def)
  let ?base = "if k_group k \<in> p_group ` set ps then synced_group now src d (k_group k) (v_groups v (k_group k))
    else v_groups v (k_group k)"
  have rg: "v_groups (spec_ReplaceTuples now src ps d v) (k_group k) = ?base"
    using m by (auto simp: spec_ReplaceTuples_def replaced_groups_def split: option.split)
  show "wf_key k"
    using e view_okD(2) [OF ok] imp by (auto simp: importable_def elim!: replaced_entries_cases)
  show "entry_owned (spec_ReplaceTuples now src ps d v) k e"
    using e
  proof (cases rule: replaced_entries_cases)
    case 1
    then obtain g where g: "v_groups v (k_group k) = Some g" "g_source g = en_source e"
      using view_okD(1) [OF ok] by blast
    then have "\<exists>x. ?base = Some x \<and> g_source x = en_source e"
      using synced_group_exists [of now src d "k_group k" "v_groups v (k_group k)"] synced_group_source
      by (auto split: option.splits)
    then show ?thesis unfolding entry_owned_def rg .
  next
    case 2
    then obtain p where p: "p \<in> set ps" "k = pair_key p" by blast
    then obtain x where x: "synced_group now src d (k_group k) (v_groups v (k_group k)) = Some x"
      using synced_group_exists by blast
    have "g_source x = Some src"
      using synced_group_source [OF x] imp p by (auto simp: importable_def pair_key_group split: option.splits)
    then show ?thesis using x p 2(3) unfolding entry_owned_def rg by (auto simp: pair_key_group)
  qed
next
  fix i g assume "v_groups (spec_ReplaceTuples now src ps d v) i = Some g"
  then have "i \<in> p_group ` set ps \<or> v_groups v i = Some g"
    by (auto simp: spec_ReplaceTuples_def replaced_groups_def split: option.splits if_splits)
  then show "RelationSeparator \<notin> set i"
    using view_okD(3) [OF ok] imp by (auto simp: importable_def wf_key_def pair_key_group)
qed

text \<open>Afterwards the source's entries are exactly the imported ones.\<close>

lemma ReplaceTuples_exact:
  assumes ok: "view_ok v" and imp: "importable src ps v"
  shows "(\<exists>e. v_entries (spec_ReplaceTuples now src ps d v) k = Some e \<and> en_source e = Some src) \<longleftrightarrow>
    k \<in> pair_key ` set ps"
proof (cases "k \<in> pair_key ` set ps")
  case True
  then obtain p where p: "p \<in> set ps" "k = pair_key p" by blast
  show ?thesis using True importable_own [OF ok imp p(1)] p(2)
    by (cases "v_entries v k") (auto simp: spec_ReplaceTuples_def replaced_entries_def)
next
  case False
  then show ?thesis
    by (cases "v_entries v k") (auto simp: spec_ReplaceTuples_def replaced_entries_def)
qed

text \<open>Groups of other sources, their entries and every manager stay as they are.\<close>

lemma ReplaceTuples_others:
  assumes ok: "view_ok v" and imp: "importable src ps v"
    and g: "v_groups v i = Some g" "g_source g \<noteq> Some src"
  shows "v_groups (spec_ReplaceTuples now src ps d v) i = Some g"
    and "k_group k = i \<Longrightarrow> v_entries (spec_ReplaceTuples now src ps d v) k = v_entries v k"
proof -
  have i: "i \<notin> p_group ` set ps" using imp g by (auto simp: importable_def)
  with g show "v_groups (spec_ReplaceTuples now src ps d v) i = Some g"
    by (simp add: spec_ReplaceTuples_def replaced_groups_def)
  assume k: "k_group k = i"
  then have "k \<notin> pair_key ` set ps" using i by (auto simp: pair_key_group)
  moreover have "en_source e \<noteq> Some src" if "v_entries v k = Some e" for e
    using view_okD(1) [OF ok that] k g by auto
  ultimately show "v_entries (spec_ReplaceTuples now src ps d v) k = v_entries v k"
    by (auto simp: spec_ReplaceTuples_def replaced_entries_def split: option.split)
qed

end
