(* ===== verification/Engine.thy ===== *)
theory Engine
  imports Ldif Action Invariant
begin

text \<open>
  \<open>internal/sync/engine.go\<close>: a sync run from reading the data to the sync log, with its checks of
  relations and of who owns a group, and the names a source reserves.

  What the outside gives is part of the record \<open>Engine\<close>: the file system (\<open>eg_file\<close>), the LDIF
  parser and expression compiler of Ldif, the registered Keycloak reader (its answer for this
  run), how an error prints in the log, and the callback after a run.

  The lemmas: what a run that gets through its checks imports may be imported (\<open>importable\<close>); a
  refused run leaves every group, entry, manager and history entry as it was; a successful one
  leaves exactly the imported entries of the source and the other sources' groups untouched.
\<close>

record 's Engine =
  eg_ops :: "'s StoreOps"
  eg_relations :: Relations
  eg_file :: "string \<Rightarrow> string option"
  eg_compile :: "string \<Rightarrow> Regexp option"
  eg_ldif :: "string \<Rightarrow> LdapEntry option list option"
  eg_keycloak :: "(error + TuplePair list \<times> (string, string) gomap \<times> string list) option"
  eg_message :: "error \<Rightarrow> string"
  eg_afterSync :: "('s, unit) action"

section \<open>Reading the data\<close>

definition import_error :: "error + 'a \<Rightarrow> error + 'a" where
  "import_error = on_error ImportError"

definition parseTuples :: "'s Engine \<Rightarrow> Source \<Rightarrow> string option \<Rightarrow> error + TuplePair list \<times> (string, string) gomap" where
  "parseTuples eng src content =
     bindE (case content of
         Some c \<Rightarrow> Inr c
       | None \<Rightarrow> if s_file_path src \<noteq> [] then
                   (case eg_file eng (s_file_path src) of None \<Rightarrow> Inl (ErrText ''open file'') | Some c \<Rightarrow> Inr c)
                 else Inl (ErrText ''source has neither uploaded content nor a file_path'')) (\<lambda>r.
       if s_type src = SourceTypeCSV then ParseCSV r
       else if s_type src = SourceTypeLDIF then
         (if s_dn_regexp src = [] then Inl (ErrText ''ldif source requires dn_email_regexp to be set'')
          else ParseLDIF (eg_compile eng) (eg_ldif eng) r (s_dn_regexp src) (s_rel_regexp src))
       else Inl (ErrText ''unsupported source type''))"

definition fetchKeycloak :: "'s Engine \<Rightarrow> string option \<Rightarrow> error + TuplePair list \<times> (string, string) gomap \<times> string list" where
  "fetchKeycloak eng content =
     (if content \<noteq> None then Inl (ImportError (ErrText ''a keycloak source takes no upload''))
      else case eg_keycloak eng of None \<Rightarrow> Inl (ErrText ''no keycloak connection is configured'') | Some r \<Rightarrow> r)"

definition normalize_tuple :: "TuplePair \<Rightarrow> TuplePair" where
  "normalize_tuple t = t\<lparr>p_group := NormalizeID (p_group t), p_member := NormalizeID (p_member t)\<rparr>"

definition normalizeIDs :: "TuplePair list \<Rightarrow> (string, string) gomap \<Rightarrow> TuplePair list \<times> (string, string) gomap" where
  "normalizeIDs ts ds = (map normalize_tuple ts, fold (\<lambda>(i, desc) m. put (NormalizeID i) desc m) ds [])"

definition checkRelations1 :: "Relations \<Rightarrow> TuplePair \<Rightarrow> error + TuplePair" where
  "checkRelations1 rels t =
     bindE (import_error (Check rels (p_relation t))) (\<lambda>rel.
       if p_type t = ''group'' then
         (let (g, memberRel) = MemberGroup (p_member t) in
          bindE (import_error (Check rels memberRel)) (\<lambda>memberRel.
            Inr (t\<lparr>p_relation := rel, p_member := JoinGroupRelation g memberRel\<rparr>)))
       else Inr (t\<lparr>p_relation := rel\<rparr>))"

fun checkRelations :: "Relations \<Rightarrow> TuplePair list \<Rightarrow> error + TuplePair list" where
  "checkRelations rels [] = Inr []"
| "checkRelations rels (t # ts) =
     bindE (checkRelations1 rels t) (\<lambda>t'. bindE (checkRelations rels ts) (\<lambda>ts'. Inr (t' # ts')))"

definition groupIDs :: "TuplePair list \<Rightarrow> string list" where
  "groupIDs ts = uniq (map p_group ts)"

section \<open>Ownership\<close>

definition is_reserved :: "Source list \<Rightarrow> uuid \<Rightarrow> string \<Rightarrow> bool" where
  "is_reserved srcs sourceID i \<longleftrightarrow>
     (\<exists>src \<in> set srcs. s_id src \<noteq> sourceID \<and> (\<exists>glob \<in> set (s_reserved src). MatchGlob glob i))"

fun ownership_loop :: "(string, uuid option) gomap \<Rightarrow> Source list \<Rightarrow> uuid \<Rightarrow> string list \<Rightarrow> error + unit" where
  "ownership_loop owners srcs sourceID [] = Inr ()"
| "ownership_loop owners srcs sourceID (i # is) =
     (case lookup owners i of
        Some owner \<Rightarrow>
          if owner \<noteq> Some sourceID then Inl (ImportError (ErrText ''group belongs to someone else''))
          else if is_reserved srcs sourceID i then Inl (ImportError (ErrText ''group is reserved''))
          else ownership_loop owners srcs sourceID is
      | None \<Rightarrow>
          if is_reserved srcs sourceID i then Inl (ImportError (ErrText ''group is reserved''))
          else ownership_loop owners srcs sourceID is)"

definition CheckOwnership :: "'s StoreOps \<Rightarrow> 's \<Rightarrow> uuid \<Rightarrow> string list \<Rightarrow> error + unit" where
  "CheckOwnership ops s sourceID is =
     bindE (st_GroupOwners ops s is) (\<lambda>owners.
     bindE (st_ListSources ops s) (\<lambda>srcs. ownership_loop owners srcs sourceID is))"

section \<open>The run\<close>

text \<open>The notes a reader left, and the data or the error that refuses it.\<close>

definition sync_read :: "'s Engine \<Rightarrow> Source \<Rightarrow> string option \<Rightarrow> string list \<times> (error + TuplePair list \<times> (string, string) gomap)" where
  "sync_read eng src content =
     (if s_type src = SourceTypeKeycloak
      then (case fetchKeycloak eng content of Inl e \<Rightarrow> ([], Inl e) | Inr (ts, ds, notes) \<Rightarrow> (notes, Inr (ts, ds)))
      else ([], import_error (parseTuples eng src content)))"

definition sync_check :: "'s Engine \<Rightarrow> 's \<Rightarrow> Source \<Rightarrow> error + TuplePair list \<times> (string, string) gomap
    \<Rightarrow> error + TuplePair list \<times> (string, string) gomap" where
  "sync_check eng s src r =
     bindE r (\<lambda>(ts, ds).
     let (ts, ds) = normalizeIDs ts ds in
     bindE (checkRelations (eg_relations eng) ts) (\<lambda>ts.
     bindE (CheckOwnership (eg_ops eng) s (s_id src) (groupIDs ts)) (\<lambda>_. Inr (ts, ds))))"

text \<open>The log entry and the source's status; neither failing is told.\<close>

definition finish_run :: "'s Engine \<Rightarrow> uuid \<Rightarrow> SyncLog \<Rightarrow> string \<Rightarrow> ('s, unit) action" where
  "finish_run eng sourceID entry status =
     bindS (readS (\<lambda>now _. Inr now)) (\<lambda>now.
     bindS (bestEffort (writeS (\<lambda>_. st_UpdateSyncLog (eg_ops eng) (entry\<lparr>l_finished := Some now\<rparr>)))) (\<lambda>_.
     bestEffort (writeS (\<lambda>now'. st_UpdateSourceSyncStatus (eg_ops eng) now' sourceID status now))))"

text \<open>\<open>ReplaceTuples\<close>, whose error the run still logs; it draws an id for each tuple it adds.\<close>

definition replaceS :: "'s StoreOps \<Rightarrow> uuid \<Rightarrow> TuplePair list \<Rightarrow> (string, string) gomap \<Rightarrow> ('s, error + nat \<times> nat) action" where
  "replaceS ops sourceID ts ds w =
     (case st_ReplaceTuples ops (w_now w) (w_ids w) sourceID ts ds (w_store w) of
        Inl e \<Rightarrow> (w, Inr (Inl e))
      | Inr (s, added, removed) \<Rightarrow> (w\<lparr>w_store := s, w_ids := \<lambda>n. w_ids w (n + added)\<rparr>, Inr (Inr (added, removed))))"

text \<open>The end of a run: refused by its checks, failed in the store, or stored.\<close>

definition sync_store :: "'s Engine \<Rightarrow> uuid \<Rightarrow> SyncLog \<Rightarrow> error + TuplePair list \<times> (string, string) gomap \<Rightarrow> ('s, unit) action" where
  "sync_store eng sourceID entry checked =
     (case checked of
        Inl e \<Rightarrow>
          bindS (finish_run eng sourceID (entry\<lparr>l_error := eg_message eng e\<rparr>) SyncStatusError) (\<lambda>_. pureS (Inl e))
      | Inr (ts, ds) \<Rightarrow>
          bindS (replaceS (eg_ops eng) sourceID ts ds) (\<lambda>result.
          case result of
            Inl e \<Rightarrow>
              bindS (finish_run eng sourceID (entry\<lparr>l_error := ''storing the import failed''\<rparr>) SyncStatusError)
                (\<lambda>_. pureS (Inl e))
          | Inr (added, removed) \<Rightarrow>
              bindS (finish_run eng sourceID (entry\<lparr>l_added := added, l_removed := removed\<rparr>) SyncStatusOK) (\<lambda>_.
              bestEffort (eg_afterSync eng))))"

definition RunSync :: "'s Engine \<Rightarrow> uuid \<Rightarrow> string option \<Rightarrow> ('s, unit) action" where
  "RunSync eng sourceID content =
     bindS (readS (\<lambda>_ s. st_GetSource (eg_ops eng) s sourceID)) (\<lambda>src.
     if s_type src = SourceTypeLocal then pureS (Inl (ImportError (ErrText ''it has nothing to sync'')))
     else
       bindS drawID (\<lambda>logID.
       bindS (readS (\<lambda>now _. Inr \<lparr>l_id = logID, l_source = sourceID, l_started = now, l_finished = None,
                        l_added = 0, l_removed = 0, l_error = [], l_notes = []\<rparr>)) (\<lambda>entry.
       bindS (bestEffort (writeS (\<lambda>_. st_CreateSyncLog (eg_ops eng) entry))) (\<lambda>_.
       let (notes, data) = sync_read eng src content in
       bindS (readS (\<lambda>_ s. Inr (sync_check eng s src data))) (\<lambda>checked.
       sync_store eng sourceID (entry\<lparr>l_notes := notes\<rparr>) checked)))))"

section \<open>Reserved names\<close>

fun NormalizeReservedNames_loop :: "string list \<Rightarrow> string list \<Rightarrow> error + string list" where
  "NormalizeReservedNames_loop [] out = Inr out"
| "NormalizeReservedNames_loop (g # gs) out =
     (let g = NormalizeID (trim_prefix (trim_space g) GroupPrefix) in
      if g = [] then NormalizeReservedNames_loop gs out
      else bindE (ValidateReservedName g) (\<lambda>_.
        NormalizeReservedNames_loop gs (if g \<notin> set out then out @ [g] else out)))"

definition NormalizeReservedNames :: "string list \<Rightarrow> error + string list" where
  "NormalizeReservedNames globs = NormalizeReservedNames_loop globs []"

definition CheckReservation :: "'s StoreOps \<Rightarrow> 's \<Rightarrow> uuid \<Rightarrow> string list \<Rightarrow> error + unit" where
  "CheckReservation ops s sourceID globs =
     (if length globs = 0 then Inr ()
      else bindE (st_ListGroups ops s [] None 0) (\<lambda>gs.
        let taken = filter (\<lambda>g. \<not> (g_source g = Some sourceID) \<and> (\<exists>glob \<in> set globs. MatchGlob glob (g_id g))) gs
        in if length taken > 0 then Inl ErrReservationConflict else Inr ()))"

end
