(* ===== verification/Scheduler.thy ===== *)
theory Scheduler
  imports Engine
begin

text \<open>
  \<open>internal/sync/scheduler.go\<close>: which source is synced by which cron entry. The package robfig/cron
  is a parameter, the record of what the scheduler uses of it; \<open>cron_laws\<close> is what it documents:
  an entry is added under a new id unless its schedule does not parse, and removed by its id. The
  function an entry runs is told by the source it syncs. The lock makes each operation one step.

  The lemmas: however often sources are registered and unregistered, what runs is a plan with at
  most one schedule for a source (\<open>plan\<close>), and the operations are updates of this plan.
\<close>

record 'c Cron =
  cn_parses :: "string \<Rightarrow> bool"
  cn_AddFunc :: "string \<Rightarrow> uuid \<Rightarrow> 'c \<Rightarrow> ('c \<times> nat) option"
  cn_Remove :: "nat \<Rightarrow> 'c \<Rightarrow> 'c"
  cn_Entries :: "'c \<Rightarrow> nat \<Rightarrow> (string \<times> uuid) option"

definition cron_laws :: "'c Cron \<Rightarrow> bool" where
  "cron_laws cn \<longleftrightarrow>
     (\<forall>sched j c. cn_AddFunc cn sched j c = None \<longleftrightarrow> \<not> cn_parses cn sched) \<and>
     (\<forall>sched j c c' e. cn_AddFunc cn sched j c = Some (c', e) \<longrightarrow>
        cn_Entries cn c e = None \<and> cn_Entries cn c' = (cn_Entries cn c)(e \<mapsto> (sched, j))) \<and>
     (\<forall>e c. cn_Entries cn (cn_Remove cn e c) = (cn_Entries cn c)(e := None))"

record 'c Scheduler =
  sd_cron :: 'c
  sd_jobs :: "(uuid, nat) gomap"

section \<open>The operations\<close>

definition ValidateSchedule :: "'c Cron \<Rightarrow> string \<Rightarrow> error + unit" where
  "ValidateSchedule cn schedule = (if cn_parses cn schedule then Inr () else Inl (ErrText ''invalid schedule''))"

definition NewScheduler :: "'c \<Rightarrow> 'c Scheduler" where
  "NewScheduler c0 = \<lparr>sd_cron = c0, sd_jobs = []\<rparr>"

definition unregisterLocked :: "'c Cron \<Rightarrow> uuid \<Rightarrow> 'c Scheduler \<Rightarrow> 'c Scheduler" where
  "unregisterLocked cn sourceID s =
     (case lookup (sd_jobs s) sourceID of
        None \<Rightarrow> s
      | Some e \<Rightarrow> s\<lparr>sd_cron := cn_Remove cn e (sd_cron s), sd_jobs := del sourceID (sd_jobs s)\<rparr>)"

definition Register :: "'c Cron \<Rightarrow> uuid \<Rightarrow> string \<Rightarrow> 'c Scheduler \<Rightarrow> 'c Scheduler \<times> (error + unit)" where
  "Register cn sourceID schedule s =
     (case cn_AddFunc cn schedule sourceID (sd_cron s) of
        None \<Rightarrow> (s, Inl (ErrText ''invalid schedule''))
      | Some (c, entryID) \<Rightarrow>
          (let s = unregisterLocked cn sourceID (s\<lparr>sd_cron := c\<rparr>)
           in (s\<lparr>sd_jobs := put sourceID entryID (sd_jobs s)\<rparr>, Inr ())))"

definition Unregister :: "'c Cron \<Rightarrow> uuid \<Rightarrow> 'c Scheduler \<Rightarrow> 'c Scheduler" where
  "Unregister cn sourceID s = unregisterLocked cn sourceID s"

text \<open>\<open>Start\<close>: a source whose schedule cannot be registered is logged and left out.\<close>

definition start_source :: "'c Cron \<Rightarrow> Source \<Rightarrow> 'c Scheduler \<Rightarrow> 'c Scheduler" where
  "start_source cn src s = (if s_schedule src \<noteq> [] then fst (Register cn (s_id src) (s_schedule src) s) else s)"

definition Start :: "'c Cron \<Rightarrow> 's StoreOps \<Rightarrow> 's \<Rightarrow> 'c Scheduler \<Rightarrow> error + 'c Scheduler" where
  "Start cn ops s sched = bindE (st_ListSources ops s) (\<lambda>srcs. Inr (fold (start_source cn) srcs sched))"

section \<open>The plan\<close>

definition plan :: "'c Cron \<Rightarrow> 'c Scheduler \<Rightarrow> uuid \<Rightarrow> string option" where
  "plan cn s j = (case lookup (sd_jobs s) j of None \<Rightarrow> None
     | Some e \<Rightarrow> map_option fst (cn_Entries cn (sd_cron s) e))"

text \<open>Every job is the entry of its source, every entry the job of its source.\<close>

definition sched_ok :: "'c Cron \<Rightarrow> 'c Scheduler \<Rightarrow> bool" where
  "sched_ok cn s \<longleftrightarrow>
     (\<forall>j e. lookup (sd_jobs s) j = Some e \<longrightarrow> (\<exists>sched. cn_Entries cn (sd_cron s) e = Some (sched, j))) \<and>
     (\<forall>e sched j. cn_Entries cn (sd_cron s) e = Some (sched, j) \<longrightarrow> lookup (sd_jobs s) j = Some e)"

lemma sched_okD:
  assumes "sched_ok cn s"
  shows "lookup (sd_jobs s) j = Some e \<Longrightarrow> \<exists>sched. cn_Entries cn (sd_cron s) e = Some (sched, j)"
    "cn_Entries cn (sd_cron s) e = Some (sched, j) \<Longrightarrow> lookup (sd_jobs s) j = Some e"
  using assms unfolding sched_ok_def by blast+

lemma plan_iff:
  assumes "sched_ok cn s"
  shows "plan cn s j = Some sched \<longleftrightarrow> (\<exists>e. cn_Entries cn (sd_cron s) e = Some (sched, j))"
  using sched_okD [OF assms] by (fastforce simp: plan_def split: option.splits)

lemma cron_lawsD:
  assumes "cron_laws cn"
  shows "cn_AddFunc cn sched j c = None \<longleftrightarrow> \<not> cn_parses cn sched"
    "cn_AddFunc cn sched j c = Some (c', e) \<Longrightarrow> cn_Entries cn c e = None"
    "cn_AddFunc cn sched j c = Some (c', e) \<Longrightarrow> cn_Entries cn c' = (cn_Entries cn c)(e \<mapsto> (sched, j))"
    "cn_Entries cn (cn_Remove cn e c) = (cn_Entries cn c)(e := None)"
  using assms unfolding cron_laws_def by blast+

lemma Unregister_plan:
  assumes "cron_laws cn" "sched_ok cn s"
  shows "sched_ok cn (Unregister cn j s) \<and> plan cn (Unregister cn j s) = (plan cn s)(j := None)"
proof (cases "lookup (sd_jobs s) j")
  case None
  then have "Unregister cn j s = s" "plan cn s j = None" by (simp_all add: Unregister_def unregisterLocked_def plan_def)
  then show ?thesis using assms(2) by auto
next
  case (Some e)
  note D = sched_okD [OF assms(2)]
  let ?s = "Unregister cn j s"
  have s: "sd_jobs ?s = del j (sd_jobs s)" "cn_Entries cn (sd_cron ?s) = (cn_Entries cn (sd_cron s))(e := None)"
    using Some by (simp_all add: Unregister_def unregisterLocked_def cron_lawsD(4) [OF assms(1)])
  have other: "e' \<noteq> e" if "lookup (sd_jobs s) i = Some e'" "i \<noteq> j" for i e'
    using D(1) [OF that(1)] D(1) [OF Some] that(2) by auto
  have ok: "sched_ok cn ?s"
    unfolding sched_ok_def s
  proof (intro conjI allI impI)
    fix i e' assume "lookup (del j (sd_jobs s)) i = Some e'"
    then have i: "i \<noteq> j" "lookup (sd_jobs s) i = Some e'" by (auto simp: lookup_del split: if_splits)
    with other D(1) [OF i(2)] show "\<exists>sched. ((cn_Entries cn (sd_cron s))(e := None)) e' = Some (sched, i)" by simp
  next
    fix e' sched i assume a: "((cn_Entries cn (sd_cron s))(e := None)) e' = Some (sched, i)"
    then have l: "lookup (sd_jobs s) i = Some e'" "e' \<noteq> e" using D(2) by (auto split: if_splits)
    then show "lookup (del j (sd_jobs s)) i = Some e'" using Some by (auto simp: lookup_del)
  qed
  moreover have "plan cn ?s i = ((plan cn s)(j := None)) i" for i
    using other by (auto simp: plan_def s lookup_del split: option.splits)
  ultimately show ?thesis by blast
qed

lemma Register_plan:
  assumes laws: "cron_laws cn" and ok: "sched_ok cn s" and run: "Register cn j sched s = (s', r)"
  shows "sched_ok cn s' \<and>
    (if cn_parses cn sched then r = Inr () \<and> plan cn s' = (plan cn s)(j \<mapsto> sched) else (\<exists>e. r = Inl e) \<and> s' = s)"
proof (cases "cn_AddFunc cn sched j (sd_cron s)")
  case None
  then have "s' = s" "\<exists>e. r = Inl e" using run by (auto simp: Register_def)
  moreover have "\<not> cn_parses cn sched" using None cron_lawsD(1) [OF laws] by blast
  ultimately show ?thesis using ok by simp
next
  case (Some p)
  obtain c e where p: "p = (c, e)" by force
  have parses: "cn_parses cn sched" using Some cron_lawsD(1) [OF laws, of sched j "sd_cron s"] by auto
  note new = cron_lawsD(2,3) [OF laws Some [unfolded p]]
  note D = sched_okD [OF ok]
  let ?E = "cn_Entries cn (sd_cron s)" and ?gone = "lookup (sd_jobs s) j"
  let ?E' = "\<lambda>x. if Some x = ?gone then None else (?E(e \<mapsto> (sched, j))) x"
  have s': "r = Inr ()" "sd_jobs s' = put j e (sd_jobs (unregisterLocked cn j (s\<lparr>sd_cron := c\<rparr>)))"
    "sd_cron s' = sd_cron (unregisterLocked cn j (s\<lparr>sd_cron := c\<rparr>))"
    using run Some p by (auto simp: Register_def Let_def)
  have jobs: "lookup (sd_jobs s') i = (if i = j then Some e else lookup (sd_jobs s) i)" for i
    unfolding s' by (simp add: unregisterLocked_def lookup_put lookup_del split: option.split)
  have entries: "cn_Entries cn (sd_cron s') = ?E'"
    unfolding s' using new by (auto simp: unregisterLocked_def fun_eq_iff cron_lawsD(4) [OF laws] split: option.split)
  have fresh: "lookup (sd_jobs s) i \<noteq> Some e" for i using D(1) [of i e] new(1) by auto
  have other: "Some e' \<noteq> ?gone" "e' \<noteq> e" if "lookup (sd_jobs s) i = Some e'" "i \<noteq> j" for i e'
    using D(1) [OF that(1)] D(1) [of j e'] that fresh by fastforce+
  have ok': "sched_ok cn s'"
    unfolding sched_ok_def jobs entries
  proof (intro conjI allI impI)
    fix i e' assume a: "(if i = j then Some e else lookup (sd_jobs s) i) = Some e'"
    show "\<exists>sched. ?E' e' = Some (sched, i)"
      using a fresh [of j] other [of i e'] D(1) [of i e'] by (auto split: if_splits)
  next
    fix e' sched' i assume a: "?E' e' = Some (sched', i)"
    show "(if i = j then Some e else lookup (sd_jobs s) i) = Some e'"
      using a D(2) [of e' sched' i] by (auto split: if_splits)
  qed
  have "plan cn s' i = ((plan cn s)(j \<mapsto> sched)) i" for i
    using other fresh [of j] by (auto simp: plan_def jobs entries split: option.splits)
  then show ?thesis using ok' parses s'(1) by (auto intro!: ext)
qed

lemma sched_ok_new: "cn_Entries cn c0 = Map.empty \<Longrightarrow> sched_ok cn (NewScheduler c0) \<and> plan cn (NewScheduler c0) = Map.empty"
  by (auto simp: sched_ok_def NewScheduler_def plan_def)

lemma start_sources:
  assumes "cron_laws cn" "sched_ok cn s" "distinct (map s_id srcs)"
    and "\<And>src. src \<in> set srcs \<Longrightarrow> s_schedule src \<noteq> [] \<Longrightarrow> cn_parses cn (s_schedule src)"
  shows "sched_ok cn (fold (start_source cn) srcs s) \<and>
    plan cn (fold (start_source cn) srcs s) j =
      (case find (\<lambda>src. s_id src = j \<and> s_schedule src \<noteq> []) srcs of Some src \<Rightarrow> Some (s_schedule src) | None \<Rightarrow> plan cn s j)"
  using assms(2-)
proof (induction srcs arbitrary: s)
  case (Cons src srcs)
  let ?s = "start_source cn src s"
  have step: "sched_ok cn ?s \<and> plan cn ?s = (if s_schedule src \<noteq> [] then (plan cn s)(s_id src \<mapsto> s_schedule src) else plan cn s)"
    using Register_plan [OF assms(1) Cons.prems(1) prod.collapse [symmetric], of "s_id src" "s_schedule src"] Cons.prems(1,3)
    by (auto simp: start_source_def)
  have "find (\<lambda>src'. s_id src' = s_id src \<and> s_schedule src' \<noteq> []) srcs = None"
    using Cons.prems(2) by (auto simp: find_None_iff) (metis image_eqI)
  with Cons.IH [of ?s] step Cons.prems show ?case by (auto split: option.split)
qed simp

lemma Start_plan:
  assumes "cron_laws cn" "sched_ok cn s" "plan cn s = Map.empty" "distinct (map s_id srcs)"
    and "\<And>src. src \<in> set srcs \<Longrightarrow> s_schedule src \<noteq> [] \<Longrightarrow> cn_parses cn (s_schedule src)"
    and "st_ListSources ops st = Inr srcs"
  shows "\<exists>s'. Start cn ops st s = Inr s' \<and> sched_ok cn s' \<and>
    (\<forall>j sched. plan cn s' j = Some sched \<longleftrightarrow> (\<exists>src \<in> set srcs. s_id src = j \<and> s_schedule src = sched \<and> sched \<noteq> []))"
proof -
  let ?s = "fold (start_source cn) srcs s"
  note run = start_sources [OF assms(1,2,4,5)]
  have "plan cn ?s j = Some sched \<longleftrightarrow> (\<exists>src \<in> set srcs. s_id src = j \<and> s_schedule src = sched \<and> sched \<noteq> [])" for j sched
  proof (cases "find (\<lambda>src. s_id src = j \<and> s_schedule src \<noteq> []) srcs")
    case None
    have "plan cn ?s j = None" using run [of j] assms(3) unfolding None by simp
    moreover have "\<not> (\<exists>src \<in> set srcs. s_id src = j \<and> s_schedule src \<noteq> [])" using None unfolding find_None_iff by blast
    ultimately show ?thesis by auto
  next
    case (Some src)
    then have src: "src \<in> set srcs" "s_id src = j" "s_schedule src \<noteq> []" by (auto simp: find_Some_iff)
    have uniq: "src' = src" if "src' \<in> set srcs" "s_id src' = j" for src'
      using that src assms(4) unfolding distinct_map inj_on_def by metis
    have "plan cn ?s j = Some (s_schedule src)" using run [of j] unfolding Some by simp
    then show ?thesis using src uniq by (metis option.inject)
  qed
  with run show ?thesis by (simp add: Start_def assms(6) bindE_def)
qed

end
