(* ===== verification/KeycloakMapping.thy ===== *)
theory KeycloakMapping
  imports Validate
begin

text \<open>
  \<open>internal/keycloak/mapping.go\<close>: from the attribute values of a person to their memberships. The JSON
  decoder of \<open>ParseMapping\<close> is a parameter: it gives the decoded value, or nothing.

  The lemmas: a mapping that was accepted names valid groups and known relations only; \<open>Derive\<close> gives
  exactly the memberships the two tables place, each once, and counts what they do not place.
\<close>

record MappedGroup =
  mg_group :: string
  mg_desc :: string

record Mapping =
  mp_attribute :: string
  mp_all :: "MappedGroup option"
  mp_locations :: "(string, MappedGroup) gomap"
  mp_roles :: "(string, string) gomap"
  mp_ignored_scopes :: "string list"
  mp_ignored_values :: "string list"

record Unmapped =
  um_scopes :: "(string, nat) gomap"
  um_values :: "(string, nat) gomap"

section \<open>ParseMapping\<close>

definition parse_group :: "MappedGroup \<Rightarrow> error + MappedGroup" where
  "parse_group g =
     (let i = NormalizeID (mg_group g) in
      if i = [] then Inl (ErrText ''keycloak mapping: no group'')
      else bindE (ValidateGroupID i) (\<lambda>_. Inr (g\<lparr>mg_group := i\<rparr>)))"

fun parse_locations :: "(string \<times> MappedGroup) list \<Rightarrow> (string, MappedGroup) gomap \<Rightarrow> error + (string, MappedGroup) gomap" where
  "parse_locations [] out = Inr out"
| "parse_locations ((scope, g) # ls) out =
     bindE (parse_group g) (\<lambda>g. parse_locations ls (put (NormalizeID scope) g out))"

fun parse_roles :: "Relations \<Rightarrow> (string \<times> string) list \<Rightarrow> (string, string) gomap \<Rightarrow> error + (string, string) gomap" where
  "parse_roles rels [] out = Inr out"
| "parse_roles rels ((value, relation) # rs) out =
     bindE (Check rels relation) (\<lambda>rel. parse_roles rels rs (put (NormalizeID value) rel out))"

definition parse_all :: "MappedGroup option \<Rightarrow> error + MappedGroup option" where
  "parse_all ag = (case ag of None \<Rightarrow> Inr None | Some g \<Rightarrow> bindE (parse_group g) (\<lambda>g. Inr (Some g)))"

definition ParseMapping :: "(string \<Rightarrow> Mapping option) \<Rightarrow> string \<Rightarrow> Relations \<Rightarrow> error + Mapping" where
  "ParseMapping decode raw rels =
     (case decode raw of None \<Rightarrow> Inl (ErrText ''keycloak mapping'')
      | Some m \<Rightarrow>
        if trim_space (mp_attribute m) = [] then Inl (ErrText ''keycloak mapping: attribute must be set'')
        else if length (mp_locations m) = 0 then Inl (ErrText ''keycloak mapping: no locations'')
        else bindE (parse_locations (mp_locations m) []) (\<lambda>locations.
          bindE (parse_all (mp_all m)) (\<lambda>allGroup.
          bindE (parse_roles rels (sort_key fst (mp_roles m)) []) (\<lambda>roles.
          Inr (m\<lparr>mp_locations := locations, mp_all := allGroup, mp_roles := roles,
                 mp_ignored_scopes := map NormalizeID (mp_ignored_scopes m),
                 mp_ignored_values := map NormalizeID (mp_ignored_values m)\<rparr>)))))"

section \<open>Unmapped\<close>

definition newUnmapped :: Unmapped where
  "newUnmapped = \<lparr>um_scopes = [], um_values = []\<rparr>"

text \<open>The verb \<open>%d\<close>.\<close>

fun decimal :: "nat \<Rightarrow> string" where
  "decimal n = (if n < 10 then [char_of (48 + n)] else decimal (n div 10) @ [char_of (48 + n mod 10)])"

declare decimal.simps [simp del]

definition note_line :: "string \<Rightarrow> string \<times> nat \<Rightarrow> string" where
  "note_line kind p = kind @ '' '' @ CHR 0x22 # fst p @ [CHR 0x22] @ '': '' @ decimal (snd p) @ '' user(s)''"

definition kind_notes :: "string \<Rightarrow> (string, nat) gomap \<Rightarrow> string list" where
  "kind_notes kind counts = map (note_line kind) (sort_key (\<lambda>p. - int (snd p)) (sort_key fst counts))"

definition Notes :: "Unmapped \<Rightarrow> string list" where
  "Notes u = kind_notes ''unknown scope'' (um_scopes u) @ kind_notes ''unmapped value'' (um_values u)"

section \<open>Derive\<close>

text \<open>What the loop over a person's values has gathered: \<open>held\<close>, \<open>order\<close>, the unknown scopes and values.\<close>

record Derivation =
  dv_held :: "(string, string list) gomap"
  dv_order :: "string list"
  dv_scopes :: "string list"
  dv_values :: "string list"

definition join_group :: "string \<Rightarrow> string \<Rightarrow> Derivation \<Rightarrow> Derivation" where
  "join_group g role d =
     (let d = (if lookup (dv_held d) g = None then d\<lparr>dv_held := put g [] (dv_held d), dv_order := dv_order d @ [g]\<rparr> else d)
      in if role \<noteq> [] then d\<lparr>dv_held := put g (List.insert role (lookup_default [] (dv_held d) g)) (dv_held d)\<rparr> else d)"

definition derive_value :: "Mapping \<Rightarrow> string \<Rightarrow> Derivation \<Rightarrow> Derivation" where
  "derive_value m raw d =
     (case cut (CHR ''@'') (NormalizeID raw) of None \<Rightarrow> d
      | Some (value, scope) \<Rightarrow>
        if scope = [] then d
        else case lookup (mp_locations m) scope of
          None \<Rightarrow> if scope \<notin> set (mp_ignored_scopes m) then d\<lparr>dv_scopes := List.insert scope (dv_scopes d)\<rparr> else d
        | Some loc \<Rightarrow>
          (let role = lookup_default [] (mp_roles m) value;
               d = (if lookup (mp_roles m) value = None \<and> value \<notin> set (mp_ignored_values m)
                    then d\<lparr>dv_values := List.insert (value @ ''@'' @ scope) (dv_values d)\<rparr> else d);
               d = join_group (mg_group loc) role d
           in case mp_all m of None \<Rightarrow> d | Some a \<Rightarrow> join_group (mg_group a) role d))"

definition derived_group :: "string \<Rightarrow> Derivation \<Rightarrow> string \<Rightarrow> TuplePair list" where
  "derived_group email d g =
     (let roles = lookup_default [] (dv_held d) g; pair = (\<lambda>r. \<lparr>p_group = g, p_relation = r, p_type = ''user'', p_member = email\<rparr>)
      in if length roles = 0 then [pair RelationMember] else map pair (sort roles))"

definition count_up :: "string \<Rightarrow> (string, nat) gomap \<Rightarrow> (string, nat) gomap" where
  "count_up k counts = put k (lookup_default 0 counts k + 1) counts"

definition Derive :: "Mapping \<Rightarrow> string \<Rightarrow> string list \<Rightarrow> Unmapped \<Rightarrow> TuplePair list \<times> Unmapped" where
  "Derive m email values unmapped =
     (let d = fold (derive_value m) values \<lparr>dv_held = [], dv_order = [], dv_scopes = [], dv_values = []\<rparr>
      in (concat (map (derived_group email d) (dv_order d)),
          unmapped\<lparr>um_scopes := fold count_up (dv_scopes d) (um_scopes unmapped),
                   um_values := fold count_up (dv_values d) (um_values unmapped)\<rparr>))"

definition Descriptions :: "Mapping \<Rightarrow> (string, string) gomap" where
  "Descriptions m =
     (let out = fold (\<lambda>(_, g) out. if mg_desc g \<noteq> [] then put (mg_group g) (mg_desc g) out else out) (mp_locations m) []
      in case mp_all m of None \<Rightarrow> out | Some g \<Rightarrow> if mg_desc g \<noteq> [] then put (mg_group g) (mg_desc g) out else out)"

definition MappedGroups :: "Mapping \<Rightarrow> string list" where
  "MappedGroups m = remdups_adj (sort (map (\<lambda>(_, g). mg_group g) (mp_locations m)
     @ (case mp_all m of None \<Rightarrow> [] | Some g \<Rightarrow> [mg_group g])))"

section \<open>An accepted mapping\<close>

definition mapping_ok :: "Relations \<Rightarrow> Mapping \<Rightarrow> bool" where
  "mapping_ok rels m \<longleftrightarrow> (\<forall>g \<in> set (MappedGroups m). ValidateGroupID g = Inr ())
     \<and> (\<forall>r \<in> ran (lookup (mp_roles m)). r \<in> set (allowed rels) \<and> r \<noteq> [])"

lemma set_MappedGroups: "set (MappedGroups m) = mg_group ` snd ` set (mp_locations m) \<union> mg_group ` set_option (mp_all m)"
  by (force simp: MappedGroups_def split: option.split)

lemma parse_group_Inr: "parse_group g = Inr g' \<Longrightarrow> ValidateGroupID (mg_group g') = Inr ()"
  by (auto simp: parse_group_def Let_def bindE_Inr split: if_splits)

lemma snd_put: "snd ` set (put k v m) \<subseteq> insert v (snd ` set m)"
  by (induction k v m rule: put.induct) auto

lemma parse_locations_Inr:
  "parse_locations ls out = Inr out' \<Longrightarrow> (\<forall>g \<in> snd ` set out. ValidateGroupID (mg_group g) = Inr ()) \<Longrightarrow>
   \<forall>g \<in> snd ` set out'. ValidateGroupID (mg_group g) = Inr ()"
proof (induction ls out rule: parse_locations.induct)
  case (2 scope g ls out)
  then obtain g' where g': "parse_group g = Inr g'" "parse_locations ls (put (NormalizeID scope) g' out) = Inr out'"
    by (auto simp: bindE_Inr)
  have "\<forall>x \<in> snd ` set (put (NormalizeID scope) g' out). ValidateGroupID (mg_group x) = Inr ()"
    using snd_put [of "NormalizeID scope" g' out] 2(3) parse_group_Inr [OF g'(1)] by blast
  with 2(1) g' show ?case by blast
qed simp

lemma parse_roles_Inr:
  "parse_roles rels rs out = Inr out' \<Longrightarrow> (\<forall>r \<in> ran (lookup out). r \<in> set (allowed rels) \<and> r \<noteq> []) \<Longrightarrow>
   \<forall>r \<in> ran (lookup out'). r \<in> set (allowed rels) \<and> r \<noteq> []"
proof (induction rels rs out rule: parse_roles.induct)
  case (2 rels v relation rs out)
  then obtain rel where rel: "Check rels relation = Inr rel" "parse_roles rels rs (put (NormalizeID v) rel out) = Inr out'"
    by (auto simp: bindE_Inr)
  have "rel \<in> set (allowed rels) \<and> rel \<noteq> []" using rel(1) by (auto simp: Check_Inr)
  then have "\<forall>r \<in> ran (lookup (put (NormalizeID v) rel out)). r \<in> set (allowed rels) \<and> r \<noteq> []"
    using 2(3) by (auto simp: ran_def)
  with 2(1) rel show ?case by blast
qed simp

lemma ParseMapping_ok: "ParseMapping decode raw rels = Inr m \<Longrightarrow> mapping_ok rels m"
proof -
  assume "ParseMapping decode raw rels = Inr m"
  then obtain m0 where "bindE (parse_locations (mp_locations m0) []) (\<lambda>locations.
          bindE (parse_all (mp_all m0)) (\<lambda>allGroup.
          bindE (parse_roles rels (sort_key fst (mp_roles m0)) []) (\<lambda>roles.
          Inr (m0\<lparr>mp_locations := locations, mp_all := allGroup, mp_roles := roles,
                 mp_ignored_scopes := map NormalizeID (mp_ignored_scopes m0),
                 mp_ignored_values := map NormalizeID (mp_ignored_values m0)\<rparr>)))) = Inr m"
    by (auto simp: ParseMapping_def split: option.splits if_splits)
  then obtain locs ag roles where l: "parse_locations (mp_locations m0) [] = Inr locs"
    and a: "parse_all (mp_all m0) = Inr ag" and r: "parse_roles rels (sort_key fst (mp_roles m0)) [] = Inr roles"
    and m: "mp_locations m = locs" "mp_all m = ag" "mp_roles m = roles"
    by (auto simp: bindE_Inr)
  have "\<forall>g \<in> set_option ag. ValidateGroupID (mg_group g) = Inr ()"
    using a parse_group_Inr by (auto simp: parse_all_def bindE_Inr split: option.splits)
  then show ?thesis using parse_locations_Inr [OF l] parse_roles_Inr [OF r] m
    by (auto simp: mapping_ok_def set_MappedGroups)
qed

section \<open>What Derive gives\<close>

text \<open>A value \<open>value@scope\<close> places a person in its location's group and the group for all, with a role or (\<open>[]\<close>) none.\<close>

definition places :: "Mapping \<Rightarrow> string \<Rightarrow> string \<Rightarrow> string \<Rightarrow> bool" where
  "places m raw g role \<longleftrightarrow> (\<exists>v scope loc. cut (CHR ''@'') (NormalizeID raw) = Some (v, scope) \<and> scope \<noteq> []
     \<and> lookup (mp_locations m) scope = Some loc \<and> role = lookup_default [] (mp_roles m) v
     \<and> (g = mg_group loc \<or> g \<in> mg_group ` set_option (mp_all m)))"

definition group_held :: "(string \<times> string) set \<Rightarrow> string \<Rightarrow> string list option \<Rightarrow> bool" where
  "group_held P g ors \<longleftrightarrow> (case ors of None \<Rightarrow> \<forall>r. (g, r) \<notin> P
     | Some rs \<Rightarrow> (\<exists>r. (g, r) \<in> P) \<and> distinct rs \<and> (\<forall>r. r \<in> set rs \<longleftrightarrow> r \<noteq> [] \<and> (g, r) \<in> P))"

definition held_ok :: "(string \<times> string) set \<Rightarrow> Derivation \<Rightarrow> bool" where
  "held_ok P d \<longleftrightarrow> distinct (dv_order d) \<and> (\<forall>g. g \<in> set (dv_order d) \<longleftrightarrow> lookup (dv_held d) g \<noteq> None)
     \<and> (\<forall>g. group_held P g (lookup (dv_held d) g))"

lemma held_ok_cong: "held_ok P d \<Longrightarrow> dv_order d' = dv_order d \<Longrightarrow> dv_held d' = dv_held d \<Longrightarrow> held_ok P d'"
  by (simp add: held_ok_def)

lemma group_held_other: "h \<noteq> g \<Longrightarrow> group_held (insert (g, r) P) h ors = group_held P h ors"
  by (simp add: group_held_def split: option.split)

lemma group_held_same:
  assumes "group_held P g ors" and "rs = (case ors of None \<Rightarrow> [] | Some rs \<Rightarrow> rs)"
  shows "group_held (insert (g, r) P) g (Some (if r \<noteq> [] then List.insert r rs else rs))"
  using assms by (cases ors) (auto simp: group_held_def)

lemma join_group_held: "lookup (dv_held (join_group g role d)) h =
    (if h = g then Some (if role \<noteq> [] then List.insert role (lookup_default [] (dv_held d) g) else lookup_default [] (dv_held d) g)
     else lookup (dv_held d) h)"
  by (simp add: join_group_def Let_def lookup_default_def split: option.split)

lemma join_group_order: "dv_order (join_group g role d) = (if lookup (dv_held d) g = None then dv_order d @ [g] else dv_order d)"
  by (simp add: join_group_def Let_def)

lemma held_ok_join:
  assumes "held_ok P d"
  shows "held_ok (insert (g, role) P) (join_group g role d)"
proof -
  have "group_held (insert (g, role) P) h (lookup (dv_held (join_group g role d)) h)" for h
    using assms group_held_same [of P g "lookup (dv_held d) g" _ role] group_held_other [of h g role P]
    unfolding join_group_held lookup_default_def held_ok_def by (cases "h = g") simp_all
  then show ?thesis using assms
    unfolding held_ok_def join_group_order join_group_held by auto
qed

lemma derive_value_held:
  assumes "held_ok P d"
  shows "held_ok (P \<union> {(g, r). places m raw g r}) (derive_value m raw d)"
proof (cases "cut (CHR ''@'') (NormalizeID raw)")
  case None
  then have "{(g, r). places m raw g r} = {}" by (auto simp: places_def)
  then show ?thesis using assms None by (simp add: derive_value_def)
next
  case (Some p)
  obtain v scope where p: "p = (v, scope)" by force
  consider "scope = []" | "scope \<noteq> []" "lookup (mp_locations m) scope = None"
    | loc where "scope \<noteq> []" "lookup (mp_locations m) scope = Some loc" by blast
  then show ?thesis
  proof cases
    case 1
    then have "{(g, r). places m raw g r} = {}" using Some p by (auto simp: places_def)
    then show ?thesis using assms Some p 1 by (simp add: derive_value_def)
  next
    case 2
    then have "{(g, r). places m raw g r} = {}" using Some p by (auto simp: places_def)
    then show ?thesis using held_ok_cong [OF assms] Some p 2 by (simp add: derive_value_def)
  next
    case (3 loc)
    let ?role = "lookup_default [] (mp_roles m) v"
    have pl: "{(g, r). places m raw g r} = insert (mg_group loc, ?role) ((\<lambda>a. (mg_group a, ?role)) ` set_option (mp_all m))"
      using Some p 3 by (auto simp: places_def)
    define d1 where "d1 = (if lookup (mp_roles m) v = None \<and> v \<notin> set (mp_ignored_values m)
                    then d\<lparr>dv_values := List.insert (v @ ''@'' @ scope) (dv_values d)\<rparr> else d)"
    have d1: "held_ok P d1" using held_ok_cong [OF assms] by (simp add: d1_def)
    have e: "derive_value m raw d = (case mp_all m of None \<Rightarrow> join_group (mg_group loc) ?role d1
        | Some a \<Rightarrow> join_group (mg_group a) ?role (join_group (mg_group loc) ?role d1))"
      using Some p 3 by (simp add: derive_value_def d1_def [symmetric] Let_def)
    show ?thesis unfolding e pl
      using held_ok_join [OF d1] held_ok_join [OF held_ok_join [OF d1]]
      by (cases "mp_all m") (simp_all add: insert_commute Un_commute)
  qed
qed

lemma derive_values_held:
  "held_ok P d \<Longrightarrow> held_ok (P \<union> {(g, r). \<exists>raw \<in> set vals. places m raw g r}) (fold (derive_value m) vals d)"
proof (induction vals arbitrary: P d)
  case (Cons raw vals)
  have "P \<union> {(g, r). \<exists>x \<in> set (raw # vals). places m x g r}
      = (P \<union> {(g, r). places m raw g r}) \<union> {(g, r). \<exists>x \<in> set vals. places m x g r}" by auto
  then show ?case using Cons.IH [OF derive_value_held [OF Cons.prems]] by simp
qed simp

text \<open>
  The memberships of a person: each role placed, and plain membership exactly where they are placed
  without any role; no membership twice.
\<close>

definition derives :: "Mapping \<Rightarrow> string list \<Rightarrow> string \<Rightarrow> string \<Rightarrow> bool" where
  "derives m vals g r \<longleftrightarrow> (r \<noteq> [] \<and> (\<exists>raw \<in> set vals. places m raw g r))
     \<or> (r = RelationMember \<and> (\<exists>raw \<in> set vals. places m raw g []) \<and> (\<forall>raw \<in> set vals. \<forall>r'. places m raw g r' \<longrightarrow> r' = []))"

lemma derived_group_set:
  assumes "held_ok P d" "lookup (dv_held d) g = Some rs"
  shows "distinct (derived_group email d g)"
    and "t \<in> set (derived_group email d g) \<longleftrightarrow> p_group t = g \<and> p_type t = ''user'' \<and> p_member t = email
      \<and> ((p_relation t \<noteq> [] \<and> (g, p_relation t) \<in> P) \<or> (p_relation t = RelationMember \<and> (\<forall>r. (g, r) \<in> P \<longrightarrow> r = [])))"
proof -
  have "group_held P g (Some rs)" using assms by (metis held_ok_def)
  then have rs: "distinct rs" "set rs = {r. r \<noteq> [] \<and> (g, r) \<in> P}" by (auto simp: group_held_def)
  show "distinct (derived_group email d g)"
    using rs(1) assms(2) by (auto simp: derived_group_def lookup_default_def distinct_map inj_on_def)
  have "t \<in> set (derived_group email d g) \<longleftrightarrow> p_group t = g \<and> p_type t = ''user'' \<and> p_member t = email
      \<and> p_relation t \<in> (if set rs = {} then {RelationMember} else set rs)"
    using assms(2) by (cases t) (auto simp: derived_group_def lookup_default_def)
  then show "t \<in> set (derived_group email d g) \<longleftrightarrow> p_group t = g \<and> p_type t = ''user'' \<and> p_member t = email
      \<and> ((p_relation t \<noteq> [] \<and> (g, p_relation t) \<in> P) \<or> (p_relation t = RelationMember \<and> (\<forall>r. (g, r) \<in> P \<longrightarrow> r = [])))"
    unfolding rs(2) by auto
qed

lemma Derive_held: "held_ok {(g, r). \<exists>raw \<in> set vals. places m raw g r}
    (fold (derive_value m) vals \<lparr>dv_held = [], dv_order = [], dv_scopes = [], dv_values = []\<rparr>)"
  using derive_values_held [of "{}" "\<lparr>dv_held = [], dv_order = [], dv_scopes = [], dv_values = []\<rparr>" vals m]
  by (simp add: held_ok_def group_held_def)

lemma Derive_set: "t \<in> set (fst (Derive m email vals u)) \<longleftrightarrow>
    p_type t = ''user'' \<and> p_member t = email \<and> derives m vals (p_group t) (p_relation t)"
proof -
  let ?P = "{(g, r). \<exists>raw \<in> set vals. places m raw g r}"
  let ?d = "fold (derive_value m) vals \<lparr>dv_held = [], dv_order = [], dv_scopes = [], dv_values = []\<rparr>"
  note ok = Derive_held [of vals m]
  have ord: "g \<in> set (dv_order ?d) \<longleftrightarrow> (\<exists>rs. lookup (dv_held ?d) g = Some rs)" for g
    using ok by (simp add: held_ok_def)
  have pl: "(\<exists>rs. lookup (dv_held ?d) g = Some rs) \<longleftrightarrow> (\<exists>r. (g, r) \<in> ?P)" for g
  proof -
    have "group_held ?P g (lookup (dv_held ?d) g)" using ok unfolding held_ok_def by blast
    then show ?thesis by (cases "lookup (dv_held ?d) g") (auto simp: group_held_def)
  qed
  have "t \<in> set (fst (Derive m email vals u)) \<longleftrightarrow> (\<exists>g \<in> set (dv_order ?d). t \<in> set (derived_group email ?d g))"
    by (simp add: Derive_def Let_def)
  also have "\<dots> \<longleftrightarrow> p_type t = ''user'' \<and> p_member t = email \<and> (\<exists>r. (p_group t, r) \<in> ?P)
      \<and> ((p_relation t \<noteq> [] \<and> (p_group t, p_relation t) \<in> ?P) \<or> (p_relation t = RelationMember \<and> (\<forall>r. (p_group t, r) \<in> ?P \<longrightarrow> r = [])))"
  proof
    assume "\<exists>g \<in> set (dv_order ?d). t \<in> set (derived_group email ?d g)"
    then obtain g rs where g: "t \<in> set (derived_group email ?d g)" "lookup (dv_held ?d) g = Some rs" using ord by blast
    then show "p_type t = ''user'' \<and> p_member t = email \<and> (\<exists>r. (p_group t, r) \<in> ?P)
      \<and> ((p_relation t \<noteq> [] \<and> (p_group t, p_relation t) \<in> ?P) \<or> (p_relation t = RelationMember \<and> (\<forall>r. (p_group t, r) \<in> ?P \<longrightarrow> r = [])))"
      using iffD1 [OF derived_group_set(2) [OF ok g(2)] g(1)] pl by blast
  next
    assume r: "p_type t = ''user'' \<and> p_member t = email \<and> (\<exists>r. (p_group t, r) \<in> ?P)
      \<and> ((p_relation t \<noteq> [] \<and> (p_group t, p_relation t) \<in> ?P) \<or> (p_relation t = RelationMember \<and> (\<forall>r. (p_group t, r) \<in> ?P \<longrightarrow> r = [])))"
    then obtain rs where rs: "lookup (dv_held ?d) (p_group t) = Some rs" using pl by blast
    have "t \<in> set (derived_group email ?d (p_group t))"
      using iffD2 [OF derived_group_set(2) [OF ok rs]] r by blast
    then show "\<exists>g \<in> set (dv_order ?d). t \<in> set (derived_group email ?d g)" using ord rs by blast
  qed
  also have "\<dots> \<longleftrightarrow> p_type t = ''user'' \<and> p_member t = email \<and> derives m vals (p_group t) (p_relation t)"
    unfolding derives_def by blast
  finally show ?thesis .
qed

lemma derived_group_group: "t \<in> set (derived_group email d g) \<Longrightarrow> p_group t = g"
  by (auto simp: derived_group_def Let_def split: if_splits)

lemma distinct_concat_groups:
  "distinct gs \<Longrightarrow> (\<And>g. g \<in> set gs \<Longrightarrow> distinct (derived_group email d g)) \<Longrightarrow>
   distinct (concat (map (derived_group email d) gs))"
  by (induction gs) (auto dest: derived_group_group)

lemma distinct_derived: "held_ok P d \<Longrightarrow> distinct (concat (map (derived_group email d) (dv_order d)))"
  using derived_group_set(1) [of P d] by (intro distinct_concat_groups) (auto simp: held_ok_def)

lemma Derive_distinct: "distinct (fst (Derive m email vals u))"
  using distinct_derived [OF Derive_held] by (simp add: Derive_def Let_def)

text \<open>With an accepted mapping every membership is valid, in a group the mapping names, with a known relation.\<close>

lemma places_group: "places m raw g r \<Longrightarrow> g \<in> set (MappedGroups m)"
  using map_of_SomeD [of "mp_locations m"] by (force simp: places_def set_MappedGroups)

lemma places_role: "places m raw g r \<Longrightarrow> r \<noteq> [] \<Longrightarrow> r \<in> ran (lookup (mp_roles m))"
  by (auto simp: places_def lookup_default_def ran_def split: option.splits)

lemma Derive_valid:
  assumes "mapping_ok rels m" "RelationMember \<in> set (allowed rels)" "ValidateEmail email = Inr ()"
    and "t \<in> set (fst (Derive m email vals u))"
  shows "ValidateTuple t = Inr () \<and> p_group t \<in> set (MappedGroups m) \<and> p_relation t \<in> set (allowed rels)"
proof -
  have t: "p_type t = ''user''" "p_member t = email" "derives m vals (p_group t) (p_relation t)"
    using assms(4) by (simp_all add: Derive_set)
  then have g: "p_group t \<in> set (MappedGroups m)" using places_group by (auto simp: derives_def)
  have "p_relation t \<in> set (allowed rels)"
    using t(3) places_role assms(1,2) by (fastforce simp: derives_def mapping_ok_def)
  then show ?thesis using t g assms(1,3) by (auto simp: ValidateTuple_def ValidateMember_def mapping_ok_def)
qed

text \<open>Two roles of one person in one group are two memberships, and \<open>member\<close> beside a role is never added.\<close>

lemma sum_count_up: "lookup_default 0 (fold count_up ks c) k = lookup_default 0 c k + length (filter (\<lambda>x. x = k) ks)"
  by (induction ks arbitrary: c) (auto simp: count_up_def lookup_default_def)

end
