(* ===== verification/Http.thy ===== *)
theory Http
  imports Browse Scheduler KeycloakMapping
begin

text \<open>
  \<open>internal/webserver\<close>, the parts every route shares: requests and responses, the configuration of
  \<open>SetupRouter\<close>, the errors' statuses (\<open>errors.go\<close>), the API tokens (\<open>authentication.go\<close>) and the
  sign-in of people (\<open>person_auth.go\<close>).

  The packages the code calls are the record \<open>Library\<close>: gin's JSON binding and form files, which
  answer under the body limit they are given, \<open>uuid.Parse\<close>, and \<open>authn\<close>, \<open>oidcauth\<close> and \<open>ginweb\<close> of the
  shared library. The router has matched the request: \<open>rq_route\<close> is \<open>c.FullPath()\<close>, \<open>rq_param\<close> its
  path parameters. What is only logged is left out.
\<close>

section \<open>Requests and responses\<close>

record HttpRequest =
  rq_method :: string
  rq_route :: string
  rq_authorization :: string
  rq_actAs :: string
  rq_param :: "string \<Rightarrow> string"
  rq_query :: "string \<Rightarrow> string option"
  rq_body :: string

text \<open>\<open>c.Query\<close> and \<open>c.DefaultQuery\<close>.\<close>

definition Query :: "HttpRequest \<Rightarrow> string \<Rightarrow> string" where
  "Query r n = (case rq_query r n of None \<Rightarrow> [] | Some v \<Rightarrow> v)"

definition DefaultQuery :: "HttpRequest \<Rightarrow> string \<Rightarrow> string \<Rightarrow> string" where
  "DefaultQuery r n d = (case rq_query r n of None \<Rightarrow> d | Some v \<Rightarrow> v)"

record manageMeResponse =
  me_actor :: string
  me_acting_as :: string
  me_may_act_as :: bool
  me_admin :: bool
  me_manages_any :: bool
  me_relations :: "string list"
  me_source_name :: string

datatype Body =
    NoBody | Message string | Failed error | Document string
  | GroupBody Group | GroupsBody "Group list" | StringsBody "string list"
  | SourceBody Source | SourcesBody "Source list" | LogsBody "SyncLog list"
  | PrincipalsBody "Group list" "string list" | DetailBody GroupDetail | ChangesBody "Change list"
  | PageBody GroupPage | SummariesBody "SourceSummary list" | MeBody manageMeResponse | StatsBody nat nat nat

datatype Response = Response (status: nat) (body: Body)

text \<open>\<open>strconv.Atoi\<close> and \<open>strconv.Itoa\<close>: decimal digits after a sign, in 64 bits.\<close>

fun digits_value :: "nat \<Rightarrow> string \<Rightarrow> nat option" where
  "digits_value n [] = Some n"
| "digits_value n (c # cs) = (if 48 \<le> (of_char c :: nat) \<and> of_char c \<le> (57 :: nat)
     then digits_value (10 * n + (of_char c - 48)) cs else None)"

definition unsigned_value :: "string \<Rightarrow> int option" where
  "unsigned_value s = (if s = [] then None else map_option int (digits_value 0 s))"

definition Atoi :: "string \<Rightarrow> int option" where
  "Atoi s =
     (case (case s of c # cs \<Rightarrow> if c = CHR ''-'' then map_option uminus (unsigned_value cs)
                         else if c = CHR ''+'' then unsigned_value cs else unsigned_value s
            | [] \<Rightarrow> None) of
        None \<Rightarrow> None
      | Some n \<Rightarrow> if - (2 ^ 63) \<le> n \<and> n < 2 ^ 63 then Some n else None)"

definition Itoa :: "int \<Rightarrow> string" where
  "Itoa n = (if n < 0 then CHR ''-'' # decimal (nat (- n)) else decimal (nat n))"

section \<open>Configuration\<close>

record createGroupRequest =
  cg_id :: string
  cg_display :: string
  cg_desc :: string
  cg_managers :: "string list"

record updateGroupRequest =
  ug_display :: string
  ug_desc :: string

record addMemberRequest =
  am_member :: string
  am_relation :: string
  am_expires :: "time option"

record changeRelationRequest =
  cr_member :: string
  cr_relation :: string
  cr_new :: string

record sourceRequest =
  so_name :: string
  so_type :: string
  so_schedule :: string
  so_dn_regexp :: string
  so_file_path :: string
  so_rel_regexp :: string
  so_reserved :: "string list"

datatype BindError = BodyTooLarge nat | BadBody string

datatype FormFileError = FormTooLarge nat | FormMissing

datatype VerifyError = ErrKeysUnavailable | RejectedToken

datatype ActAsError = ErrActAsInvalid | ErrActAsForbidden

record Library =
  lb_createGroup :: "nat \<Rightarrow> string \<Rightarrow> BindError + createGroupRequest"
  lb_updateGroup :: "nat \<Rightarrow> string \<Rightarrow> BindError + updateGroupRequest"
  lb_addMember :: "nat \<Rightarrow> string \<Rightarrow> BindError + addMemberRequest"
  lb_changeRelation :: "nat \<Rightarrow> string \<Rightarrow> BindError + changeRelationRequest"
  lb_addManager :: "nat \<Rightarrow> string \<Rightarrow> BindError + string"
  lb_createSource :: "nat \<Rightarrow> string \<Rightarrow> BindError + sourceRequest"
  lb_updateSource :: "nat \<Rightarrow> string \<Rightarrow> BindError + sourceRequest"
  lb_FormFile :: "nat \<Rightarrow> string \<Rightarrow> FormFileError + (error + string)"
  lb_uuid_Parse :: "string \<Rightarrow> uuid option"
  lb_CutBearerPrefix :: "string \<Rightarrow> string option"
  lb_ActAs :: "string \<Rightarrow> string \<Rightarrow> bool \<Rightarrow> ActAsError + string"
  lb_CORS :: "HttpRequest \<Rightarrow> Response option"
  lb_RejectCrossOriginWrites :: "HttpRequest \<Rightarrow> Response option"

record SourceUploadToken =
  ut_source :: string
  ut_token :: string

record ('s, 'c) SetupConfig =
  sc_APITokens :: "string list"
  sc_APIWriteTokens :: "string list"
  sc_SourceUploadTokens :: "SourceUploadToken list"
  sc_GroupSvc :: "'s Service"
  sc_Store :: "'s StoreOps"
  sc_SyncEngine :: "'s Engine"
  sc_Scheduler :: "'c Cron"
  sc_MaxResponseLimit :: int
  sc_Verifier :: "(string \<Rightarrow> VerifyError + string) option"
  sc_AdminTokens :: "string list"
  sc_LocalSourceName :: string
  sc_Stats :: "'s \<Rightarrow> nat \<times> nat \<times> nat"
  sc_Documents :: "string \<Rightarrow> string"
  sc_Library :: Library

text \<open>The values the middleware leaves in gin's context.\<close>

record Keys =
  ky_canWrite :: bool
  ky_uploadSource :: "string option"
  ky_caller :: "Caller option"
  ky_mayActAs :: bool

definition no_keys :: Keys where
  "no_keys = \<lparr>ky_canWrite = False, ky_uploadSource = None, ky_caller = None, ky_mayActAs = False\<rparr>"

section \<open>Errors\<close>

definition maxJSONBody :: nat where "maxJSONBody = 2 ^ 20"
definition maxUploadBody :: nat where "maxUploadBody = 10 * 2 ^ 20"
definition uploadRoute :: string where "uploadRoute = ''/v1/sync/sources/:id/upload''"

text \<open>What \<open>errors.Is\<close> finds below the wrapper of an import.\<close>

fun sentinel :: "error \<Rightarrow> error" where
  "sentinel (ImportError e) = sentinel e"
| "sentinel e = e"

definition internalError :: "error \<Rightarrow> Response" where
  "internalError e = Response 500 (Message ''internal server error'')"

definition respondError :: "error \<Rightarrow> Response" where
  "respondError e =
     (if sentinel e = ErrNotFound \<or> sentinel e = ErrRecordNotFound then Response 404 (Failed e)
      else if sentinel e = ErrForbidden then Response 403 (Failed e)
      else if sentinel e \<in> {ErrAlreadyExists, ErrOwnedBySource, ErrReserved, ErrCycle} then Response 409 (Failed e)
      else if sentinel e \<in> {ErrInvalidToken, ErrInvalidRelation, ErrInvalidExpiry, ErrInvalidID} then Response 400 (Failed e)
      else internalError e)"

definition respondSyncError :: "error \<Rightarrow> Response" where
  "respondSyncError e = (case e of ImportError _ \<Rightarrow> Response 422 (Failed e) | _ \<Rightarrow> respondError e)"

definition tooLarge :: "nat \<Rightarrow> Response" where
  "tooLarge limit = Response 413 (Message (''request body exceeds '' @ decimal limit @ '' bytes''))"

definition limitRequestBody :: "HttpRequest \<Rightarrow> nat" where
  "limitRequestBody r = (if rq_route r = uploadRoute then maxUploadBody else maxJSONBody)"

definition bindJSON :: "(nat \<Rightarrow> string \<Rightarrow> BindError + 'a) \<Rightarrow> HttpRequest \<Rightarrow> Response + 'a" where
  "bindJSON decode r =
     (case decode (limitRequestBody r) (rq_body r) of
        Inr x \<Rightarrow> Inr x
      | Inl (BodyTooLarge limit) \<Rightarrow> Inl (tooLarge limit)
      | Inl (BadBody m) \<Rightarrow> Inl (Response 400 (Message m)))"

section \<open>API tokens\<close>

definition newTokenSet :: "string list \<Rightarrow> string list" where
  "newTokenSet toks = filter (\<lambda>t. t \<noteq> []) toks"

definition setContains :: "string list \<Rightarrow> string \<Rightarrow> bool" where
  "setContains toks token \<longleftrightarrow> fold (\<lambda>t m. if t = token then True else m) toks False"

text \<open>The last token that matches wins.\<close>

definition uploadSourceFor :: "SourceUploadToken list \<Rightarrow> string \<Rightarrow> string option" where
  "uploadSourceFor toks token =
     fold (\<lambda>t found. if ut_token t \<noteq> [] \<and> ut_token t = token then Some (ut_source t) else found) toks None"

definition presented_token :: "string \<Rightarrow> string" where
  "presented_token auth =
     (let token = trim_space auth
      in if length token \<ge> 7 \<and> to_lower (take 7 token) = ''bearer '' then trim_space (drop 7 token) else token)"

definition BearerAuthMiddleware :: "string list \<Rightarrow> string list \<Rightarrow> SourceUploadToken list \<Rightarrow> HttpRequest \<Rightarrow> Keys \<Rightarrow> Response + Keys" where
  "BearerAuthMiddleware readTokens writeTokens uploadTokens r ks =
     (if rq_authorization r = [] then Inl (Response 401 (Message ''missing Authorization header''))
      else
        let token = presented_token (rq_authorization r); canWrite = setContains (newTokenSet writeTokens) token in
        if \<not> canWrite \<and> \<not> setContains (newTokenSet readTokens) token then
          (case uploadSourceFor uploadTokens token of
             Some source \<Rightarrow>
               if rq_method r \<noteq> ''POST'' \<or> rq_route r \<noteq> uploadRoute
               then Inl (Response 403 (Message ''this API token may only upload to its source''))
               else Inr (ks\<lparr>ky_canWrite := False, ky_uploadSource := Some source\<rparr>)
           | None \<Rightarrow> Inl (Response 401 (Message ''invalid API token'')))
        else Inr (ks\<lparr>ky_canWrite := canWrite\<rparr>))"

definition requireWriteToken :: "Keys \<Rightarrow> Response option" where
  "requireWriteToken ks = (if \<not> ky_canWrite ks then Some (Response 403 (Message ''this API token may only read'')) else None)"

definition requireWriteOrOwnSource :: "('s, 'c) SetupConfig \<Rightarrow> HttpRequest \<Rightarrow> Keys \<Rightarrow> 's \<Rightarrow> Response option" where
  "requireWriteOrOwnSource cfg r ks s =
     (case ky_uploadSource ks of
        None \<Rightarrow> requireWriteToken ks
      | Some source \<Rightarrow>
          if (case lb_uuid_Parse (sc_Library cfg) (rq_param r ''id'') of
                None \<Rightarrow> False
              | Some i \<Rightarrow> (case st_GetSource (sc_Store cfg) s i of Inl _ \<Rightarrow> False | Inr src \<Rightarrow> s_name src = source))
          then None else Some (Response 403 (Message ''this API token may only upload to its source'')))"

section \<open>People\<close>

definition isAdmin :: "string list \<Rightarrow> string list \<Rightarrow> bool" where
  "isAdmin adminTokens toks \<longleftrightarrow> (\<exists>t \<in> set toks. t \<in> set adminTokens)"

text \<open>\<open>verify\<close> is \<open>verifier.Verify\<close> with \<open>claims.Identity()\<close>: who the token names.\<close>

definition personAuthMiddleware :: "('s, 'c) SetupConfig \<Rightarrow> (string \<Rightarrow> VerifyError + string) \<Rightarrow> HttpRequest \<Rightarrow> Keys
    \<Rightarrow> 's World \<Rightarrow> 's World \<times> (Response + Keys)" where
  "personAuthMiddleware cfg verify r ks w =
     (case lb_CutBearerPrefix (sc_Library cfg) (rq_authorization r) of
        None \<Rightarrow> (w, Inl (Response 401 (Message ''missing or invalid Authorization Bearer header'')))
      | Some raw \<Rightarrow>
     (case verify raw of
        Inl ErrKeysUnavailable \<Rightarrow> (w, Inl (Response 503 (Message ''sign-in is temporarily unavailable'')))
      | Inl RejectedToken \<Rightarrow> (w, Inl (Response 401 (Message ''invalid token'')))
      | Inr actor \<Rightarrow>
     if actor = [] then (w, Inl (Response 401 (Message ''the token names nobody'')))
     else (case GetUserTokens (sc_GroupSvc cfg) actor w of
        (w, Inl e) \<Rightarrow> (w, Inl (internalError e))
      | (w, Inr own) \<Rightarrow>
     let mayActAs = isAdmin (sc_AdminTokens cfg) own in
     (case lb_ActAs (sc_Library cfg) (rq_actAs r) actor mayActAs of
        Inl ErrActAsInvalid \<Rightarrow> (w, Inl (Response 400 (Message ''act as whom?'')))
      | Inl ErrActAsForbidden \<Rightarrow> (w, Inl (Response 403 (Message ''may not act as another person'')))
      | Inr target \<Rightarrow>
     (case (if target \<noteq> actor then GetUserTokens (sc_GroupSvc cfg) target w else (w, Inr own)) of
        (w, Inl e) \<Rightarrow> (w, Inl (internalError e))
      | (w, Inr toks) \<Rightarrow>
          (w, Inr (ks\<lparr>ky_caller := Some \<lparr>cl_actor = actor, cl_behalf = (if target \<noteq> actor then target else []),
                        cl_tokens = toks, cl_admin = isAdmin (sc_AdminTokens cfg) toks\<rparr>,
                      ky_mayActAs := mayActAs\<rparr>)))))))"

section \<open>Facts about the guards\<close>

lemma setContains_iff: "setContains toks token \<longleftrightarrow> token \<in> set toks"
proof -
  have "fold (\<lambda>t m. if t = token then True else m) toks b \<longleftrightarrow> token \<in> set toks \<or> b" for b
    by (induction toks arbitrary: b) auto
  then show ?thesis by (simp add: setContains_def)
qed

lemma uploadSourceFor_Some:
  assumes "uploadSourceFor toks token = Some source"
  shows "\<exists>t \<in> set toks. ut_token t = token \<and> ut_source t = source \<and> token \<noteq> []"
proof -
  have "fold (\<lambda>t found. if ut_token t \<noteq> [] \<and> ut_token t = token then Some (ut_source t) else found) toks b = Some source \<Longrightarrow>
      b = Some source \<or> (\<exists>t \<in> set toks. ut_token t = token \<and> ut_source t = source \<and> token \<noteq> [])" for b
    by (induction toks arbitrary: b) (auto split: if_splits)
  then show ?thesis using assms by (auto simp: uploadSourceFor_def)
qed

text \<open>Whom the API lets through: the bearer of a known token, and of an upload token only to the upload.\<close>

lemma BearerAuthMiddleware_Inr:
  assumes "BearerAuthMiddleware readTokens writeTokens uploadTokens r ks = Inr ks'"
  defines "token \<equiv> presented_token (rq_authorization r)"
  shows "token \<noteq> [] \<and>
    ((token \<in> set writeTokens \<and> ks' = ks\<lparr>ky_canWrite := True\<rparr>)
     \<or> (token \<notin> set writeTokens \<and> token \<in> set readTokens \<and> ks' = ks\<lparr>ky_canWrite := False\<rparr>)
     \<or> (token \<notin> set writeTokens \<and> token \<notin> set readTokens \<and> rq_method r = ''POST'' \<and> rq_route r = uploadRoute \<and>
        (\<exists>t \<in> set uploadTokens. ut_token t = token \<and> ks' = ks\<lparr>ky_canWrite := False, ky_uploadSource := Some (ut_source t)\<rparr>)))"
  using assms(1) unfolding BearerAuthMiddleware_def token_def [symmetric] Let_def setContains_iff newTokenSet_def
  by (cases "token \<in> set writeTokens"; cases "token \<in> set readTokens")
    (auto split: if_splits option.splits dest!: uploadSourceFor_Some)

lemma requireWriteToken_None: "requireWriteToken ks = None \<longleftrightarrow> ky_canWrite ks"
  by (simp add: requireWriteToken_def)

lemma requireWriteOrOwnSource_None:
  "requireWriteOrOwnSource cfg r ks s = None \<longleftrightarrow>
    (case ky_uploadSource ks of None \<Rightarrow> ky_canWrite ks
     | Some source \<Rightarrow> \<exists>i src. lb_uuid_Parse (sc_Library cfg) (rq_param r ''id'') = Some i
         \<and> st_GetSource (sc_Store cfg) s i = Inr src \<and> s_name src = source)"
  by (auto simp: requireWriteOrOwnSource_def requireWriteToken_None split: option.splits sum.splits)

end
