(* ===== verification/Handlers.thy ===== *)
theory Handlers
  imports Http
begin

text \<open>
  The handlers of \<open>api_groups.go\<close>, \<open>api_users.go\<close>, \<open>api_sync.go\<close>, \<open>api_manage.go\<close> and \<open>api_admin.go\<close>.

  A handler takes the state of the server (the world of the services and the scheduler) to the
  state it leaves and either a value for the code that follows or the response that ends it;
  \<open>call\<close> is a call of the services whose error is answered by the given function.
\<close>

section \<open>Handlers\<close>

record ('s, 'c) Server =
  sr_world :: "'s World"
  sr_sched :: "'c Scheduler"

type_synonym ('s, 'c, 'a) handler = "('s, 'c) Server \<Rightarrow> ('s, 'c) Server \<times> (Response + 'a)"

definition bindH :: "('s, 'c, 'a) handler \<Rightarrow> ('a \<Rightarrow> ('s, 'c, 'b) handler) \<Rightarrow> ('s, 'c, 'b) handler" where
  "bindH m f st = (case m st of (st', Inl r) \<Rightarrow> (st', Inl r) | (st', Inr x) \<Rightarrow> f x st')"

definition reply :: "nat \<Rightarrow> Body \<Rightarrow> ('s, 'c, Response) handler" where
  "reply code b st = (st, Inr (Response code b))"

definition check :: "Response + 'a \<Rightarrow> ('s, 'c, 'a) handler" where
  "check r st = (st, r)"

definition call :: "(error \<Rightarrow> Response) \<Rightarrow> ('s, 'a) action \<Rightarrow> ('s, 'c, 'a) handler" where
  "call bad m st = (case m (sr_world st) of (w, r) \<Rightarrow>
     (st\<lparr>sr_world := w\<rparr>, case r of Inl e \<Rightarrow> Inl (bad e) | Inr x \<Rightarrow> Inr x))"

definition schedule :: "('c Scheduler \<Rightarrow> 'c Scheduler \<times> (error + 'a)) \<Rightarrow> ('s, 'c, 'a) handler" where
  "schedule f st = (case f (sr_sched st) of (sd, r) \<Rightarrow>
     (st\<lparr>sr_sched := sd\<rparr>, case r of Inl e \<Rightarrow> Inl (internalError e) | Inr x \<Rightarrow> Inr x))"

definition id_param :: "('s, 'c) SetupConfig \<Rightarrow> HttpRequest \<Rightarrow> Response + uuid" where
  "id_param cfg r = (case lb_uuid_Parse (sc_Library cfg) (rq_param r ''id'') of
     None \<Rightarrow> Inl (Response 400 (Message ''invalid source id'')) | Some i \<Rightarrow> Inr i)"

text \<open>\<open>callerOf\<close>: without a caller \<open>MustGet\<close> panics, which the recovery answers with 500.\<close>

definition callerOf :: "Keys \<Rightarrow> Response + Caller" where
  "callerOf ks = (case ky_caller ks of None \<Rightarrow> Inl (Response 500 NoBody) | Some c \<Rightarrow> Inr c)"

section \<open>Groups (\<open>api_groups.go\<close>)\<close>

definition listRelations :: "('s, 'c) SetupConfig \<Rightarrow> ('s, 'c, Response) handler" where
  "listRelations cfg = reply 200 (StringsBody (ListRelations (sv_relations (sc_GroupSvc cfg))))"

definition listGroups :: "('s, 'c) SetupConfig \<Rightarrow> HttpRequest \<Rightarrow> ('s, 'c, Response) handler" where
  "listGroups cfg r =
     (let maxLimit = sc_MaxResponseLimit cfg;
          limit = (if Query r ''limit'' \<noteq> [] then
                     (case Atoi (Query r ''limit'') of Some n \<Rightarrow> if n > 0 then n else maxLimit | None \<Rightarrow> maxLimit)
                   else maxLimit);
          limit = (if limit > maxLimit then maxLimit else limit)
      in bindH (call respondError (ListGroups (lb_uuid_Parse (sc_Library cfg)) (sc_GroupSvc cfg) (Query r ''q'') (Query r ''source'') limit))
           (\<lambda>gs. reply 200 (GroupsBody gs)))"

definition createGroup :: "('s, 'c) SetupConfig \<Rightarrow> HttpRequest \<Rightarrow> ('s, 'c, Response) handler" where
  "createGroup cfg r =
     bindH (check (bindJSON (lb_createGroup (sc_Library cfg)) r)) (\<lambda>req.
     bindH (call respondError (CreateGroup (sc_GroupSvc cfg) APITokenCaller (cg_id req) (cg_display req) (cg_desc req) (cg_managers req)))
       (\<lambda>g. reply 201 (GroupBody g)))"

definition getGroupH :: "('s, 'c) SetupConfig \<Rightarrow> HttpRequest \<Rightarrow> ('s, 'c, Response) handler" where
  "getGroupH cfg r = bindH (call respondError (GetGroup (sc_GroupSvc cfg) (rq_param r ''token''))) (\<lambda>g. reply 200 (GroupBody g))"

definition updateGroup :: "('s, 'c) SetupConfig \<Rightarrow> HttpRequest \<Rightarrow> ('s, 'c, Response) handler" where
  "updateGroup cfg r =
     bindH (check (bindJSON (lb_updateGroup (sc_Library cfg)) r)) (\<lambda>req.
     bindH (call respondError (UpdateGroup (sc_GroupSvc cfg) APITokenCaller (rq_param r ''token'') (ug_display req) (ug_desc req)))
       (\<lambda>g. reply 200 (GroupBody g)))"

definition deleteGroup :: "('s, 'c) SetupConfig \<Rightarrow> HttpRequest \<Rightarrow> ('s, 'c, Response) handler" where
  "deleteGroup cfg r =
     bindH (call respondError (DeleteGroup (sc_GroupSvc cfg) APITokenCaller (rq_param r ''token''))) (\<lambda>_. reply 204 NoBody)"

definition listMembers :: "('s, 'c) SetupConfig \<Rightarrow> HttpRequest \<Rightarrow> ('s, 'c, Response) handler" where
  "listMembers cfg r =
     bindH (call respondError (GetAllMembers (sc_GroupSvc cfg) (rq_param r ''token'') (Query r ''relation'')
         (Query r ''recursive'' \<noteq> ''false''))) (\<lambda>ms. reply 200 (StringsBody ms))"

definition addMember :: "('s, 'c) SetupConfig \<Rightarrow> HttpRequest \<Rightarrow> ('s, 'c, Response) handler" where
  "addMember cfg r =
     bindH (check (bindJSON (lb_addMember (sc_Library cfg)) r)) (\<lambda>req.
     bindH (call respondError (AddMember (sc_GroupSvc cfg) APITokenCaller (rq_param r ''token'') (am_relation req) (am_member req) (am_expires req)))
       (\<lambda>_. reply 204 NoBody))"

definition removeMember :: "('s, 'c) SetupConfig \<Rightarrow> HttpRequest \<Rightarrow> ('s, 'c, Response) handler" where
  "removeMember cfg r =
     (let member = rq_param r ''member'';
          member = (if length member > 0 \<and> hd member = CHR ''/'' then tl member else member)
      in bindH (call respondError (RemoveMember (sc_GroupSvc cfg) APITokenCaller (rq_param r ''token'') (Query r ''relation'') member))
           (\<lambda>_. reply 204 NoBody))"

section \<open>Users and statistics (\<open>api_users.go\<close>, \<open>api_admin.go\<close>)\<close>

definition searchUsers :: "('s, 'c) SetupConfig \<Rightarrow> HttpRequest \<Rightarrow> ('s, 'c, Response) handler" where
  "searchUsers cfg r =
     (let maxLimit = sc_MaxResponseLimit cfg in
      case Atoi (DefaultQuery r ''limit'' (Itoa maxLimit)) of
        None \<Rightarrow> reply 400 (Message ''invalid limit'')
      | Some limit \<Rightarrow>
          if limit < 0 then reply 400 (Message ''invalid limit'')
          else let limit = (if limit = 0 \<or> limit > maxLimit then maxLimit else limit)
            in bindH (call respondError (readS (\<lambda>now s. st_SearchUsers (sc_Store cfg) now s (Query r ''q'') limit)))
                 (\<lambda>emails. reply 200 (StringsBody emails)))"

definition getUserTokens :: "('s, 'c) SetupConfig \<Rightarrow> HttpRequest \<Rightarrow> ('s, 'c, Response) handler" where
  "getUserTokens cfg r =
     (let email = trim_space (rq_param r ''email'') in
      if email = [] then reply 400 (Message ''email must not be empty'')
      else bindH (call respondError (GetUserTokens (sc_GroupSvc cfg) email)) (\<lambda>toks. reply 200 (StringsBody toks)))"

definition healthCheck :: "('s, 'c, Response) handler" where
  "healthCheck = reply 200 (Message ''ok'')"

text \<open>The counts are the database's; of the in-memory store they are zeros.\<close>

definition getStats :: "('s, 'c) SetupConfig \<Rightarrow> ('s, 'c, Response) handler" where
  "getStats cfg = bindH (call respondError (readS (\<lambda>_ s. Inr (sc_Stats cfg s)))) (\<lambda>(g, t, s). reply 200 (StatsBody g t s))"

section \<open>Sync sources (\<open>api_sync.go\<close>)\<close>

definition listSources :: "('s, 'c) SetupConfig \<Rightarrow> ('s, 'c, Response) handler" where
  "listSources cfg =
     bindH (call internalError (readS (\<lambda>_ s. st_ListSources (sc_Store cfg) s))) (\<lambda>srcs. reply 200 (SourcesBody srcs))"

definition reservedNames :: "('s, 'c) SetupConfig \<Rightarrow> uuid \<Rightarrow> string list \<Rightarrow> ('s, 'c, string list) handler" where
  "reservedNames cfg sourceID globs =
     bindH (call (\<lambda>e. Response 400 (Failed e)) (pureS (NormalizeReservedNames globs))) (\<lambda>reserved.
     bindH (call (\<lambda>e. if sentinel e = ErrReservationConflict then Response 409 (Failed e) else internalError e)
              (readS (\<lambda>_ s. CheckReservation (sc_Store cfg) s sourceID reserved))) (\<lambda>_.
     check (Inr reserved)))"

definition changeableSource :: "('s, 'c) SetupConfig \<Rightarrow> uuid \<Rightarrow> ('s, 'c, Source) handler" where
  "changeableSource cfg i =
     bindH (call respondError (readS (\<lambda>_ s. st_GetSource (sc_Store cfg) s i))) (\<lambda>src.
     check (if s_type src = SourceTypeLocal then Inl (Response 409 (Message ''it is the local source'')) else Inr src))"

definition valid_schedule :: "('s, 'c) SetupConfig \<Rightarrow> string \<Rightarrow> ('s, 'c, unit) handler" where
  "valid_schedule cfg sched = check (if sched = [] then Inr () else
     case ValidateSchedule (sc_Scheduler cfg) sched of Inl e \<Rightarrow> Inl (Response 400 (Failed e)) | Inr () \<Rightarrow> Inr ())"

text \<open>The end of \<open>createSource\<close>: the source is stored, then put on its schedule.\<close>

definition storeSource :: "('s, 'c) SetupConfig \<Rightarrow> sourceRequest \<Rightarrow> string \<Rightarrow> string list \<Rightarrow> ('s, 'c, Response) handler" where
  "storeSource cfg req typ reserved =
     bindH (call internalError drawID) (\<lambda>new.
     let src = \<lparr>s_id = new, s_name = so_name req, s_type = typ, s_schedule = so_schedule req, s_dn_regexp = so_dn_regexp req,
                s_rel_regexp = so_rel_regexp req, s_file_path = so_file_path req, s_last_synced = None, s_last_status = [],
                s_created = 0, s_updated = 0, s_reserved = reserved\<rparr> in
     bindH (call internalError (writeS (\<lambda>now. st_CreateSource (sc_Store cfg) now src))) (\<lambda>_.
     bindH (if s_schedule src \<noteq> [] then schedule (Register (sc_Scheduler cfg) (s_id src) (s_schedule src)) else check (Inr ())) (\<lambda>_.
     reply 201 (SourceBody src))))"

definition createSource :: "('s, 'c) SetupConfig \<Rightarrow> HttpRequest \<Rightarrow> ('s, 'c, Response) handler" where
  "createSource cfg r =
     bindH (check (bindJSON (lb_createSource (sc_Library cfg)) r)) (\<lambda>req.
     let typ = to_lower (so_type req) in
     bindH (check (if typ \<noteq> SourceTypeCSV \<and> typ \<noteq> SourceTypeLDIF then Inl (Response 400 (Message ''type must be csv or ldif''))
                   else Inr ())) (\<lambda>_.
     bindH (valid_schedule cfg (so_schedule req)) (\<lambda>_.
     bindH (reservedNames cfg 0 (so_reserved req)) (\<lambda>reserved.
     storeSource cfg req typ reserved))))"

definition getSource :: "('s, 'c) SetupConfig \<Rightarrow> HttpRequest \<Rightarrow> ('s, 'c, Response) handler" where
  "getSource cfg r =
     bindH (check (id_param cfg r)) (\<lambda>i.
     bindH (call respondError (readS (\<lambda>_ s. st_GetSource (sc_Store cfg) s i))) (\<lambda>src. reply 200 (SourceBody src)))"

text \<open>The end of \<open>updateSource\<close>: the changed source is stored, then its job follows what was stored.\<close>

definition storeUpdate :: "('s, 'c) SetupConfig \<Rightarrow> uuid \<Rightarrow> Source \<Rightarrow> ('s, 'c, Response) handler" where
  "storeUpdate cfg i src =
     bindH (call internalError (writeS (\<lambda>now. st_UpdateSource (sc_Store cfg) now src))) (\<lambda>_.
     bindH (call respondError (readS (\<lambda>_ s. st_GetSource (sc_Store cfg) s i))) (\<lambda>src.
     bindH (if s_schedule src \<noteq> [] then schedule (Register (sc_Scheduler cfg) i (s_schedule src))
            else schedule (\<lambda>sd. (Unregister (sc_Scheduler cfg) i sd, Inr ()))) (\<lambda>_.
     reply 200 (SourceBody src))))"

definition updateSource :: "('s, 'c) SetupConfig \<Rightarrow> HttpRequest \<Rightarrow> ('s, 'c, Response) handler" where
  "updateSource cfg r =
     bindH (check (id_param cfg r)) (\<lambda>i.
     bindH (check (bindJSON (lb_updateSource (sc_Library cfg)) r)) (\<lambda>req.
     bindH (valid_schedule cfg (so_schedule req)) (\<lambda>_.
     bindH (changeableSource cfg i) (\<lambda>src.
     bindH (reservedNames cfg i (so_reserved req)) (\<lambda>reserved.
     storeUpdate cfg i (src\<lparr>s_name := so_name req, s_schedule := so_schedule req, s_dn_regexp := so_dn_regexp req,
                   s_rel_regexp := so_rel_regexp req, s_file_path := so_file_path req, s_reserved := reserved\<rparr>))))))"

text \<open>The end of \<open>deleteSource\<close>: the job, the source, then its groups pass to the local source.\<close>

definition dropSource :: "('s, 'c) SetupConfig \<Rightarrow> uuid \<Rightarrow> Source \<Rightarrow> ('s, 'c, Response) handler" where
  "dropSource cfg i src =
     bindH (schedule (\<lambda>sd. (Unregister (sc_Scheduler cfg) i sd, Inr ()))) (\<lambda>_.
     bindH (call internalError (writeS (\<lambda>_. st_DeleteSource (sc_Store cfg) i))) (\<lambda>_.
     bindH (call internalError (Adopt (sc_GroupSvc cfg) APITokenCaller None (''source '' @ s_name src @ '' was deleted''))) (\<lambda>_.
     reply 204 NoBody)))"

definition deleteSource :: "('s, 'c) SetupConfig \<Rightarrow> HttpRequest \<Rightarrow> ('s, 'c, Response) handler" where
  "deleteSource cfg r =
     bindH (check (id_param cfg r)) (\<lambda>i. bindH (changeableSource cfg i) (dropSource cfg i))"

definition uploadAndSync :: "('s, 'c) SetupConfig \<Rightarrow> HttpRequest \<Rightarrow> ('s, 'c, Response) handler" where
  "uploadAndSync cfg r =
     bindH (check (id_param cfg r)) (\<lambda>i.
     bindH (check (case lb_FormFile (sc_Library cfg) (limitRequestBody r) (rq_body r) of
         Inl (FormTooLarge limit) \<Rightarrow> Inl (tooLarge limit)
       | Inl FormMissing \<Rightarrow> Inl (Response 400 (Message ''missing file in multipart form''))
       | Inr (Inl e) \<Rightarrow> Inl (internalError e)
       | Inr (Inr content) \<Rightarrow> Inr content)) (\<lambda>content.
     bindH (call respondSyncError (RunSync (sc_SyncEngine cfg) i (Some content))) (\<lambda>_.
     reply 200 (Message ''sync completed''))))"

definition triggerSync :: "('s, 'c) SetupConfig \<Rightarrow> HttpRequest \<Rightarrow> ('s, 'c, Response) handler" where
  "triggerSync cfg r =
     bindH (check (id_param cfg r)) (\<lambda>i.
     bindH (call respondSyncError (RunSync (sc_SyncEngine cfg) i None)) (\<lambda>_. reply 200 (Message ''sync completed'')))"

definition getSyncLog :: "('s, 'c) SetupConfig \<Rightarrow> HttpRequest \<Rightarrow> ('s, 'c, Response) handler" where
  "getSyncLog cfg r =
     bindH (check (id_param cfg r)) (\<lambda>i.
     bindH (call internalError (readS (\<lambda>_ s. st_ListSyncLogs (sc_Store cfg) s i 20))) (\<lambda>logs. reply 200 (LogsBody logs)))"

section \<open>People (\<open>api_manage.go\<close>)\<close>

definition manageMe :: "('s, 'c) SetupConfig \<Rightarrow> Keys \<Rightarrow> Caller \<Rightarrow> ('s, 'c, Response) handler" where
  "manageMe cfg ks caller =
     bindH (if cl_admin caller then check (Inr True)
            else bindH (call respondError (ManagedGroups (sc_GroupSvc cfg) caller [])) (\<lambda>gs. check (Inr (length gs > 0)))) (\<lambda>managesAny.
     reply 200 (MeBody \<lparr>me_actor = cl_actor caller, me_acting_as = cl_behalf caller, me_may_act_as = ky_mayActAs ks,
       me_admin = cl_admin caller, me_manages_any = managesAny, me_relations = ListRelations (sv_relations (sc_GroupSvc cfg)),
       me_source_name = sc_LocalSourceName cfg\<rparr>))"

definition manageSearchPrincipals :: "('s, 'c) SetupConfig \<Rightarrow> HttpRequest \<Rightarrow> Caller \<Rightarrow> ('s, 'c, Response) handler" where
  "manageSearchPrincipals cfg r caller =
     (let maxLimit = sc_MaxResponseLimit cfg;
          limit = (case Atoi (Query r ''limit'') of Some n \<Rightarrow> if n > 0 \<and> n < maxLimit then n else maxLimit | None \<Rightarrow> maxLimit)
      in bindH (call respondError (SearchPrincipals (sc_GroupSvc cfg) caller (Query r ''q'') limit))
           (\<lambda>(gs, users). reply 200 (PrincipalsBody gs users)))"

text \<open>A page size in the query, where it is a number up to 1000.\<close>

definition page_limit :: "HttpRequest \<Rightarrow> int \<Rightarrow> int" where
  "page_limit r d = (case Atoi (Query r ''limit'') of Some n \<Rightarrow> if n > 0 \<and> n \<le> 1000 then n else d | None \<Rightarrow> d)"

definition manageListGroups :: "('s, 'c) SetupConfig \<Rightarrow> HttpRequest \<Rightarrow> Caller \<Rightarrow> ('s, 'c, Response) handler" where
  "manageListGroups cfg r caller =
     (let q = \<lparr>bq_query = Query r ''q'', bq_source = Query r ''source'', bq_parent = Query r ''parent'', bq_path_to = Query r ''path_to'',
               bq_limit = page_limit r 200,
               bq_offset = (case Atoi (Query r ''offset'') of Some n \<Rightarrow> if n > 0 then n else 0 | None \<Rightarrow> 0)\<rparr>
      in bindH (call respondError (Browse (sc_GroupSvc cfg) caller q)) (\<lambda>p. reply 200 (PageBody p)))"

definition manageListSources :: "('s, 'c) SetupConfig \<Rightarrow> Caller \<Rightarrow> ('s, 'c, Response) handler" where
  "manageListSources cfg caller =
     bindH (call respondError (Sources (sc_GroupSvc cfg) caller)) (\<lambda>srcs. reply 200 (SummariesBody srcs))"

definition manageGetGroup :: "('s, 'c) SetupConfig \<Rightarrow> HttpRequest \<Rightarrow> Caller \<Rightarrow> ('s, 'c, Response) handler" where
  "manageGetGroup cfg r caller =
     bindH (call respondError (Detail (sc_GroupSvc cfg) caller (rq_param r ''group''))) (\<lambda>d. reply 200 (DetailBody d))"

definition manageCreateGroup :: "('s, 'c) SetupConfig \<Rightarrow> HttpRequest \<Rightarrow> Caller \<Rightarrow> ('s, 'c, Response) handler" where
  "manageCreateGroup cfg r caller =
     bindH (check (bindJSON (lb_createGroup (sc_Library cfg)) r)) (\<lambda>req.
     bindH (call respondError (CreateGroup (sc_GroupSvc cfg) caller (cg_id req) (cg_display req) (cg_desc req) (cg_managers req)))
       (\<lambda>g. reply 201 (GroupBody g)))"

definition manageUpdateGroup :: "('s, 'c) SetupConfig \<Rightarrow> HttpRequest \<Rightarrow> Caller \<Rightarrow> ('s, 'c, Response) handler" where
  "manageUpdateGroup cfg r caller =
     bindH (check (bindJSON (lb_updateGroup (sc_Library cfg)) r)) (\<lambda>req.
     bindH (call respondError (UpdateGroup (sc_GroupSvc cfg) caller (rq_param r ''group'') (ug_display req) (ug_desc req)))
       (\<lambda>g. reply 200 (GroupBody g)))"

definition manageAddMember :: "('s, 'c) SetupConfig \<Rightarrow> HttpRequest \<Rightarrow> Caller \<Rightarrow> ('s, 'c, Response) handler" where
  "manageAddMember cfg r caller =
     bindH (check (bindJSON (lb_addMember (sc_Library cfg)) r)) (\<lambda>req.
     bindH (call respondError (AddMember (sc_GroupSvc cfg) caller (rq_param r ''group'') (am_relation req) (am_member req) (am_expires req)))
       (\<lambda>_. reply 204 NoBody))"

definition manageDeleteGroup :: "('s, 'c) SetupConfig \<Rightarrow> HttpRequest \<Rightarrow> Caller \<Rightarrow> ('s, 'c, Response) handler" where
  "manageDeleteGroup cfg r caller =
     bindH (call respondError (DeleteGroup (sc_GroupSvc cfg) caller (rq_param r ''group''))) (\<lambda>_. reply 204 NoBody)"

definition manageRemoveMember :: "('s, 'c) SetupConfig \<Rightarrow> HttpRequest \<Rightarrow> Caller \<Rightarrow> ('s, 'c, Response) handler" where
  "manageRemoveMember cfg r caller =
     bindH (call respondError (RemoveMember (sc_GroupSvc cfg) caller (rq_param r ''group'') (Query r ''relation'') (Query r ''member'')))
       (\<lambda>_. reply 204 NoBody)"

definition manageChangeRelation :: "('s, 'c) SetupConfig \<Rightarrow> HttpRequest \<Rightarrow> Caller \<Rightarrow> ('s, 'c, Response) handler" where
  "manageChangeRelation cfg r caller =
     bindH (check (bindJSON (lb_changeRelation (sc_Library cfg)) r)) (\<lambda>req.
     bindH (call respondError (ChangeRelation (sc_GroupSvc cfg) caller (rq_param r ''group'') (cr_member req) (cr_relation req) (cr_new req)))
       (\<lambda>_. reply 204 NoBody))"

definition manageEffectiveMembers :: "('s, 'c) SetupConfig \<Rightarrow> HttpRequest \<Rightarrow> Caller \<Rightarrow> ('s, 'c, Response) handler" where
  "manageEffectiveMembers cfg r caller =
     bindH (call respondError (EffectiveMembers (sc_GroupSvc cfg) caller (rq_param r ''group''))) (\<lambda>ms. reply 200 (StringsBody ms))"

definition manageAddManager :: "('s, 'c) SetupConfig \<Rightarrow> HttpRequest \<Rightarrow> Caller \<Rightarrow> ('s, 'c, Response) handler" where
  "manageAddManager cfg r caller =
     bindH (check (bindJSON (lb_addManager (sc_Library cfg)) r)) (\<lambda>manager.
     bindH (call respondError (AddManager (sc_GroupSvc cfg) caller (rq_param r ''group'') manager)) (\<lambda>_. reply 204 NoBody))"

definition manageRemoveManager :: "('s, 'c) SetupConfig \<Rightarrow> HttpRequest \<Rightarrow> Caller \<Rightarrow> ('s, 'c, Response) handler" where
  "manageRemoveManager cfg r caller =
     bindH (call respondError (RemoveManager (sc_GroupSvc cfg) caller (rq_param r ''group'') (Query r ''manager'')))
       (\<lambda>_. reply 204 NoBody)"

definition manageHistory :: "('s, 'c) SetupConfig \<Rightarrow> HttpRequest \<Rightarrow> Caller \<Rightarrow> ('s, 'c, Response) handler" where
  "manageHistory cfg r caller =
     bindH (call respondError (History (sc_GroupSvc cfg) caller (rq_param r ''group'') (page_limit r 100)))
       (\<lambda>cs. reply 200 (ChangesBody cs))"

end
