(* ===== verification/ServiceLaws.thy ===== *)
theory ServiceLaws
  imports Service Invariant
begin

text \<open>
  What the service's methods do, over any store that meets the contract (the locale \<open>store\<close>): who
  may change what, what a successful call changes, that a refused one changes nothing, and that
  every call keeps the invariant \<open>view_ok\<close> and leaves the groups of other sources alone.
\<close>

section \<open>Vocabulary\<close>

text \<open>Two views that differ in the history only.\<close>

definition same_data :: "StoreView \<Rightarrow> StoreView \<Rightarrow> bool" where
  "same_data v v' \<longleftrightarrow> v' = v\<lparr>v_history := v_history v'\<rparr>"

lemma same_data_refl [simp]: "same_data v v"
  by (simp add: same_data_def)

lemma same_data_sel:
  assumes "same_data v v'"
  shows "v_groups v' = v_groups v" "v_entries v' = v_entries v" "v_managers v' = v_managers v" "v_sources v' = v_sources v"
  using assms by (auto simp: same_data_def) (metis StoreView.ext_inject StoreView.surjective StoreView.update_convs(5))+

lemma same_dataI: "v_groups v' = v_groups v \<Longrightarrow> v_entries v' = v_entries v \<Longrightarrow> v_managers v' = v_managers v \<Longrightarrow>
    v_sources v' = v_sources v \<Longrightarrow> same_data v v'"
  by (simp add: same_data_def)

lemma same_data_trans: "same_data u v \<Longrightarrow> same_data v w \<Longrightarrow> same_data u w"
  by (rule same_dataI) (simp_all add: same_data_sel)

lemma same_data_ok: "same_data v v' \<Longrightarrow> view_ok v' \<longleftrightarrow> view_ok v"
  by (metis same_data_def view_ok_history)

text \<open>Who may maintain a group: an admin or a manager, and only groups of the local source.\<close>

definition may_maintain :: "uuid \<Rightarrow> Caller \<Rightarrow> StoreView \<Rightarrow> string \<Rightarrow> bool" where
  "may_maintain L caller v i \<longleftrightarrow> (\<exists>g. v_groups v i = Some g \<and> g_source g = Some L)
     \<and> (cl_admin caller \<or> v_managers v i \<inter> set (cl_tokens caller) \<noteq> {})"

text \<open>A group token, as a path parameter or with its prefix, names this group.\<close>

definition names_id :: "string \<Rightarrow> string \<Rightarrow> bool" where
  "names_id token i \<longleftrightarrow> (\<exists>p. parseGroupToken token = Inr (p, i))"

lemma names_id_unique: "names_id token i \<Longrightarrow> names_id token j \<Longrightarrow> i = j"
  by (auto simp: names_id_def)

lemma parseMemberToken_wf: "parseMemberToken tok = Inr (ty, m) \<Longrightarrow> RelationSeparator \<notin> set i \<Longrightarrow> wf_key (entry_key i r ty m)"
  using parseMemberToken_type [of tok ty m] by (simp add: wf_entry_key)

text \<open>Two views that differ in the history and in the managers of one group only.\<close>

definition only_managers :: "string \<Rightarrow> StoreView \<Rightarrow> StoreView \<Rightarrow> bool" where
  "only_managers i v v' \<longleftrightarrow> v_groups v' = v_groups v \<and> v_entries v' = v_entries v \<and> v_sources v' = v_sources v
     \<and> (\<forall>j. j \<noteq> i \<longrightarrow> v_managers v' j = v_managers v j)"

lemma only_managers_trans: "only_managers i u v \<Longrightarrow> only_managers i v w \<Longrightarrow> only_managers i u w"
  by (simp add: only_managers_def)

lemma only_managers_same: "same_data v v' \<Longrightarrow> only_managers i v v'"
  by (simp add: only_managers_def same_data_sel)

text \<open>The spellings of a manager that is a group: adding drops \<open>#member\<close>, removing does not.\<close>

lemma stored_trim: "stored_spelling i \<Longrightarrow> trim_space i = i"
  by (rule trim_space_id) (simp add: stored_spelling_def)

lemma manager_token_spelling:
  assumes g: "ValidateGroupID g = Inr ()" "getGroup svc s g = Inr x" and rel: "RelationMember \<in> set (allowed (sv_relations svc))"
  shows "checkManagerToken svc s (GroupPrefix @ g @ ''#member'') = Inr (GroupPrefix @ g)
    \<and> normalManagerToken (GroupPrefix @ g @ ''#member'') = GroupPrefix @ g @ ''#member''"
proof -
  let ?i = "g @ RelationSeparator # RelationMember"
  have tok: "GroupPrefix @ g @ ''#member'' = BuildToken ''group'' ?i" by (simp add: BuildToken_def)
  have st: "stored_spelling g" "RelationSeparator \<notin> set g" using ValidateGroupID_stored [OF g(1)] by auto
  have cut: "cut RelationSeparator ?i = Some (g, RelationMember)" using cut_append [OF st(2)] .
  have v: "ValidateMember ''group'' ?i = Inr ()"
    unfolding ValidateMember_group cut using g(1) by simp
  have n: "stored_spelling ?i" using ValidateMember_stored [OF v] .
  then have norm: "NormalizeID ?i = ?i" by (simp only: stored_spelling_def)
  have tr: "trim_space (BuildToken ''group'' ?i) = BuildToken ''group'' ?i" using trim_BuildToken n by blast
  have pt: "ParseToken (BuildToken ''group'' ?i) = (''group'', ?i)" using ParseToken_Build by blast
  have mg: "MemberGroup ?i = (g, RelationMember)" unfolding MemberGroup_def SplitGroupRelation_def cut by simp
  have pm: "parseMemberToken (BuildToken ''group'' ?i) = Inr (''group'', g)"
    unfolding parseMemberToken_def Let_def tr pt prod.case norm v mg by (simp add: bindE_def JoinGroupRelation_def)
  have sp: "SplitGroupRelation g = (g, RelationMember)" using Split_Join [OF st(2), of RelationMember] by (simp add: JoinGroupRelation_def)
  have "trim_space RelationMember = RelationMember" by (simp add: trim_space_def trim_both_def is_space_def)
  then have "checkRelation svc RelationMember = Inr RelationMember"
    using rel by (simp add: checkRelation_def Check_Inr NormalizeRelation_def)
  then have "checkManagerToken svc s (BuildToken ''group'' ?i) = Inr (GroupPrefix @ g)"
    unfolding checkManagerToken_def pm by (simp add: bindE_def sp g)
  moreover have "normalManagerToken (BuildToken ''group'' ?i) = BuildToken ''group'' ?i"
    unfolding normalManagerToken_def Let_def tr pt prod.case norm by simp
  ultimately show ?thesis unfolding tok by simp
qed

section \<open>Over any store\<close>

context store
begin

lemma getGroup_Inr:
  "ok s \<Longrightarrow> sv_ops svc = ops \<Longrightarrow> getGroup svc s i = Inr g \<Longrightarrow> v_groups (view s) i = Some g \<and> g_id g = i"
  by (simp add: getGroup_def GetGroup)

lemma mayManage_Inr:
  "ok s \<Longrightarrow> sv_ops svc = ops \<Longrightarrow> mayManage svc s caller i = Inr b \<Longrightarrow>
   b \<longleftrightarrow> cl_admin caller \<or> v_managers (view s) i \<inter> set (cl_tokens caller) \<noteq> {}"
  by (auto simp: mayManage_def bindE_Inr ListManagers [symmetric] disjoint_iff split: if_splits)

lemma localGroup_Inr:
  assumes "ok s" "sv_ops svc = ops" "localGroup svc s caller token = Inr g"
  shows "names_id token (g_id g) \<and> v_groups (view s) (g_id g) = Some g \<and> g_source g = Some (sv_local svc)
    \<and> may_maintain (sv_local svc) caller (view s) (g_id g)"
proof -
  from assms(3) obtain p i b where p: "parseGroupToken token = Inr (p, i)" "getGroup svc s i = Inr g" "isLocal svc g"
    "mayManage svc s caller (g_id g) = Inr True"
    by (auto simp: localGroup_def bindE_Inr split: if_splits)
  then show ?thesis
    using getGroup_Inr [OF assms(1,2) p(2)] mayManage_Inr [OF assms(1,2) p(4)]
    by (auto simp: names_id_def may_maintain_def isLocal_def)
qed

lemma record_change_run:
  assumes "ok (w_store w)" "sv_ops svc = ops" "record_change svc caller c w = (w', r)"
  shows "r = Inr () \<and> ok (w_store w') \<and> w_now w' = w_now w \<and> w_cache w' = w_cache w
    \<and> same_data (view (w_store w)) (view (w_store w'))"
proof -
  have "same_data (view s) (spec_AddChange now new c' (view s))" for s now new c'
    by (simp add: same_data_def spec_AddChange_def)
  then show ?thesis using assms AddChange [OF assms(1)]
    by (auto simp: record_change_def bestEffort_def bindS_def drawID_def writeS_def split: sum.splits)
qed

lemma refreshCache_run:
  "refreshCache svc w = (w', r) \<Longrightarrow> r = Inr () \<and> w_store w' = w_store w \<and> w_now w' = w_now w"
  by (auto simp: refreshCache_def split: if_splits sum.splits)

end

section \<open>A refused call changes nothing\<close>

lemma sure_record_change [clean_intros]: "sure (record_change svc caller c)"
  unfolding record_change_def by (intro clean_intros)

lemma sure_refreshCache [clean_intros]: "sure (refreshCache svc)"
  by (simp add: sure_def refreshCache_def split: sum.split)

lemma still_refreshCache [clean_intros]: "still (refreshCache svc)"
  by (simp add: still_def refreshCache_def split: sum.split)

lemma still_case_prod [clean_intros]: "(\<And>a b. still (f a b)) \<Longrightarrow> still (case p of (a, b) \<Rightarrow> f a b)"
  by (cases p) simp

lemma clean_case_prod [clean_intros]: "(\<And>a b. clean (f a b)) \<Longrightarrow> clean (case p of (a, b) \<Rightarrow> f a b)"
  by (cases p) simp

lemma clean_AddMember: "clean (AddMember svc caller gt rel mt ex)"
  unfolding AddMember_def
  by (intro clean_intros)

lemma clean_RemoveMember: "clean (RemoveMember svc caller gt rel mt)"
  unfolding RemoveMember_def
  by (intro clean_intros)

lemma clean_ChangeRelation: "clean (ChangeRelation svc caller gt mt from to)"
  unfolding ChangeRelation_def
  by (intro clean_intros)

lemma clean_AddManager: "clean (AddManager svc caller gt mt)"
  unfolding AddManager_def
  by (intro clean_intros)

lemma clean_RemoveManager: "clean (RemoveManager svc caller gt mt)"
  unfolding RemoveManager_def Let_def
  by (intro clean_intros)

lemma clean_DeleteGroup: "clean (DeleteGroup svc caller gt)"
  unfolding DeleteGroup_def
  by (intro clean_intros)


section \<open>What a successful call does\<close>

context store
begin

text \<open>One write, then the history.\<close>

lemma write_record_Inr:
  assumes "bindS (writeS f) (\<lambda>_. record_change svc caller c) w = (w', Inr u)" and "sv_ops svc = ops"
    and "\<And>s'. f (w_now w) (w_store w) = Inr s' \<Longrightarrow> ok s' \<and> view s' = V"
  shows "ok (w_store w') \<and> w_now w' = w_now w \<and> same_data V (view (w_store w'))"
proof -
  from assms(1) obtain s' where s': "f (w_now w) (w_store w) = Inr s'"
    and r: "record_change svc caller c (w\<lparr>w_store := s'\<rparr>) = (w', Inr u)"
    by (auto simp: run_simps)
  have "ok s'" "view s' = V" using assms(3) [OF s'] by auto
  then show ?thesis using record_change_run [OF _ assms(2) r] by auto
qed

lemma AddMember_Inr:
  assumes ok: "ok (w_store w)" and svc: "sv_ops svc = ops"
    and run: "AddMember svc caller gt rel mt ex w = (w', Inr u)"
  shows "\<exists>i rel' ty m. names_id gt i \<and> may_maintain (sv_local svc) caller (view (w_store w)) i
      \<and> checkRelation svc rel = Inr rel' \<and> parseMemberToken mt = Inr (ty, m)
      \<and> (\<forall>x. ex = Some x \<longrightarrow> x > w_now w)
      \<and> (ty = ''group'' \<longrightarrow> checkNoCycle svc (w_now w) (w_store w) i (fst (MemberGroup m)) = Inr ())
      \<and> ok (w_store w') \<and> w_now w' = w_now w
      \<and> same_data (spec_AddMember (entry_key i rel' ty m) (Some (sv_local svc)) ex (view (w_store w))) (view (w_store w'))"
proof -
  from run obtain rel' ty m g u1 u2 where c: "checkRelation svc rel = Inr rel'" "parseMemberToken mt = Inr (ty, m)"
    "(case ex of None \<Rightarrow> Inr () | Some x \<Rightarrow> if \<not> x > w_now w then Inl ErrInvalidExpiry else Inr ()) = Inr u1"
    "localGroup svc (w_store w) caller gt = Inr g"
    "(if ty = ''group'' then checkNoCycle svc (w_now w) (w_store w) (g_id g) (fst (MemberGroup m)) else Inr ()) = Inr u2"
    and wr: "bindS (writeS (\<lambda>now. st_AddMember (sv_ops svc) now (w_ids w 0) (g_id g) rel' ty m (Some (sv_local svc)) ex))
      (\<lambda>_. record_change svc caller ((change (g_id g) MemberAdded)
        \<lparr>c_member := BuildToken ty m, c_relation := rel', c_expires := ex\<rparr>))
      (w\<lparr>w_ids := \<lambda>n. w_ids w (Suc n)\<rparr>) = (w', Inr u)"
    unfolding AddMember_def check_Inr by blast
  let ?V = "spec_AddMember (entry_key (g_id g) rel' ty m) (Some (sv_local svc)) ex (view (w_store w))"
  have "ok (w_store w') \<and> w_now w' = w_now w \<and> same_data ?V (view (w_store w'))"
    using write_record_Inr [OF wr svc, of ?V] AddMember [OF ok] svc by auto
  moreover have "\<forall>x. ex = Some x \<longrightarrow> x > w_now w" using c(3) by (auto split: if_splits)
  moreover have "ty = ''group'' \<longrightarrow> checkNoCycle svc (w_now w) (w_store w) (g_id g) (fst (MemberGroup m)) = Inr ()"
    using c(5) by (auto split: if_splits)
  ultimately show ?thesis using localGroup_Inr [OF ok svc c(4)] c(1,2) by blast
qed

lemma RemoveMember_Inr:
  assumes ok: "ok (w_store w)" and svc: "sv_ops svc = ops"
    and run: "RemoveMember svc caller gt rel mt w = (w', Inr u)"
  shows "\<exists>i rel' ty m. names_id gt i \<and> may_maintain (sv_local svc) caller (view (w_store w)) i
      \<and> checkRelation svc rel = Inr rel' \<and> parseMemberToken mt = Inr (ty, m) \<and> ok (w_store w') \<and> w_now w' = w_now w
      \<and> same_data (spec_RemoveMember (entry_key i rel' ty m) (view (w_store w))) (view (w_store w'))"
proof -
  from run obtain rel' ty m g where c: "checkRelation svc rel = Inr rel'" "parseMemberToken mt = Inr (ty, m)"
    "localGroup svc (w_store w) caller gt = Inr g"
    and wr: "bindS (writeS (\<lambda>_. st_RemoveMember (sv_ops svc) (g_id g) rel' ty m))
      (\<lambda>_. record_change svc caller ((change (g_id g) MemberRemoved)
        \<lparr>c_member := BuildToken ty m, c_relation := rel'\<rparr>)) w = (w', Inr u)"
    unfolding RemoveMember_def check_Inr by blast
  let ?V = "spec_RemoveMember (entry_key (g_id g) rel' ty m) (view (w_store w))"
  have "ok (w_store w') \<and> w_now w' = w_now w \<and> same_data ?V (view (w_store w'))"
    using write_record_Inr [OF wr svc, of ?V] RemoveMember [OF ok] svc by auto
  then show ?thesis using localGroup_Inr [OF ok svc c(3)] c(1,2) by blast
qed

lemma ChangeRelation_Inr:
  assumes ok: "ok (w_store w)" and svc: "sv_ops svc = ops"
    and run: "ChangeRelation svc caller gt mt from to w = (w', Inr u)"
  shows "\<exists>i from' to' ty m. names_id gt i \<and> may_maintain (sv_local svc) caller (view (w_store w)) i
      \<and> checkRelation svc from = Inr from' \<and> checkRelation svc to = Inr to' \<and> parseMemberToken mt = Inr (ty, m)
      \<and> (from' \<noteq> to' \<longrightarrow> v_entries (view (w_store w)) (entry_key i from' ty m) \<noteq> None)
      \<and> ok (w_store w') \<and> w_now w' = w_now w
      \<and> same_data (spec_ChangeRelation (entry_key i from' ty m) (entry_key i to' ty m) (view (w_store w))) (view (w_store w'))"
proof -
  from run obtain from' to' ty m g where c: "checkRelation svc from = Inr from'" "checkRelation svc to = Inr to'"
    "parseMemberToken mt = Inr (ty, m)" "localGroup svc (w_store w) caller gt = Inr g"
    and wr: "(if from' = to' then ret () else bindS (mapErrorS (\<lambda>e. if e = ErrRecordNotFound then ErrNotFound else e)
         (writeS (\<lambda>_. st_ChangeRelation (sv_ops svc) (g_id g) ty m from' to'))) (\<lambda>_.
       record_change svc caller ((change (g_id g) RelationChanged)
         \<lparr>c_member := BuildToken ty m, c_relation := to', c_detail := from'\<rparr>))) w = (w', Inr u)"
    unfolding ChangeRelation_def check_Inr by blast
  let ?old = "entry_key (g_id g) from' ty m" and ?new = "entry_key (g_id g) to' ty m"
  let ?V = "spec_ChangeRelation ?old ?new (view (w_store w))"
  have "(from' \<noteq> to' \<longrightarrow> v_entries (view (w_store w)) ?old \<noteq> None)
    \<and> ok (w_store w') \<and> w_now w' = w_now w \<and> same_data ?V (view (w_store w'))"
  proof (cases "from' = to'")
    case True
    then show ?thesis using wr ok by (simp add: run_simps spec_ChangeRelation_def)
  next
    case False
    with wr have wr': "bindS (writeS (\<lambda>_. st_ChangeRelation (sv_ops svc) (g_id g) ty m from' to')) (\<lambda>_.
       record_change svc caller ((change (g_id g) RelationChanged)
         \<lparr>c_member := BuildToken ty m, c_relation := to', c_detail := from'\<rparr>)) w = (w', Inr u)"
      by (simp add: run_simps)
    then obtain s' where "st_ChangeRelation ops (g_id g) ty m from' to' (w_store w) = Inr s'"
      using svc by (auto simp: run_simps)
    with write_record_Inr [OF wr' svc, of ?V] ChangeRelation [OF ok] svc show ?thesis by auto
  qed
  then show ?thesis using localGroup_Inr [OF ok svc c(4)] c(1-3) by blast
qed

lemma DeleteGroup_Inr:
  assumes ok: "ok (w_store w)" and svc: "sv_ops svc = ops"
    and run: "DeleteGroup svc caller gt w = (w', Inr u)"
  shows "\<exists>i. names_id gt i \<and> cl_admin caller \<and> may_maintain (sv_local svc) caller (view (w_store w)) i
      \<and> ok (w_store w') \<and> w_now w' = w_now w \<and> same_data (spec_DeleteGroup i (view (w_store w))) (view (w_store w'))"
proof -
  from run obtain g where g: "localGroup svc (w_store w) caller gt = Inr g" and adm: "cl_admin caller"
    and wr: "bindS (writeS (\<lambda>_. st_DeleteGroup (sv_ops svc) (g_id g))) (\<lambda>_.
       bindS (record_change svc caller ((change (g_id g) GroupDeleted)\<lparr>c_detail := g_display g\<rparr>)) (\<lambda>_.
       refreshCache svc)) w = (w', Inr u)"
    unfolding DeleteGroup_def check_Inr by (auto simp: pureS_run split: if_splits)
  from wr obtain s' w1 u1 where s': "st_DeleteGroup (sv_ops svc) (g_id g) (w_store w) = Inr s'"
    and r: "record_change svc caller ((change (g_id g) GroupDeleted)\<lparr>c_detail := g_display g\<rparr>) (w\<lparr>w_store := s'\<rparr>) = (w1, Inr u1)"
    and f: "refreshCache svc w1 = (w', Inr u)"
    by (auto simp: run_simps)
  have d: "ok s'" "view s' = spec_DeleteGroup (g_id g) (view (w_store w))" using DeleteGroup [OF ok] s' svc by auto
  show ?thesis
    using localGroup_Inr [OF ok svc g] adm d record_change_run [OF _ svc r] refreshCache_run [OF f] by auto
qed

lemma AddManager_Inr:
  assumes ok: "ok (w_store w)" and svc: "sv_ops svc = ops"
    and run: "AddManager svc caller gt mt w = (w', Inr u)"
  shows "\<exists>i token. names_id gt i \<and> may_maintain (sv_local svc) caller (view (w_store w)) i
      \<and> checkManagerToken svc (w_store w) mt = Inr token
      \<and> ok (w_store w') \<and> w_now w' = w_now w \<and> same_data (spec_AddManager i token (view (w_store w))) (view (w_store w'))"
proof -
  from run obtain g token where g: "localGroup svc (w_store w) caller gt = Inr g"
    "checkManagerToken svc (w_store w) mt = Inr token"
    and wr: "bindS (writeS (\<lambda>now. st_AddManager (sv_ops svc) now (g_id g)
         \<lparr>m_token = token, m_created_by = cl_actor caller, m_created = 0\<rparr>)) (\<lambda>_.
     record_change svc caller ((change (g_id g) ManagerAdded)\<lparr>c_member := token\<rparr>)) w = (w', Inr u)"
    unfolding AddManager_def check_Inr by blast
  have "ok (w_store w') \<and> w_now w' = w_now w \<and> same_data (spec_AddManager (g_id g) token (view (w_store w))) (view (w_store w'))"
    using write_record_Inr [OF wr svc] AddManager [OF ok] svc by fastforce
  then show ?thesis using localGroup_Inr [OF ok svc g(1)] g(2) by blast
qed

lemma RemoveManager_Inr:
  assumes ok: "ok (w_store w)" and svc: "sv_ops svc = ops"
    and run: "RemoveManager svc caller gt mt w = (w', Inr u)"
  shows "\<exists>i. names_id gt i \<and> may_maintain (sv_local svc) caller (view (w_store w)) i
      \<and> ok (w_store w') \<and> w_now w' = w_now w
      \<and> same_data (spec_RemoveManager i (normalManagerToken mt) (view (w_store w))) (view (w_store w'))"
proof -
  from run obtain g where g: "localGroup svc (w_store w) caller gt = Inr g"
    and wr: "bindS (writeS (\<lambda>_. st_RemoveManager (sv_ops svc) (g_id g) (normalManagerToken mt))) (\<lambda>_.
     record_change svc caller ((change (g_id g) ManagerRemoved)\<lparr>c_member := normalManagerToken mt\<rparr>)) w = (w', Inr u)"
    unfolding RemoveManager_def check_Inr Let_def by blast
  have "ok (w_store w') \<and> w_now w' = w_now w
      \<and> same_data (spec_RemoveManager (g_id g) (normalManagerToken mt) (view (w_store w))) (view (w_store w'))"
    using write_record_Inr [OF wr svc] RemoveManager [OF ok] svc by fastforce
  then show ?thesis using localGroup_Inr [OF ok svc g] by blast
qed

text \<open>An update that fails afterwards, in reading the group back, has been made.\<close>

lemma UpdateGroup_run:
  assumes ok: "ok (w_store w)" and svc: "sv_ops svc = ops"
    and run: "UpdateGroup svc caller gt d desc w = (w', r)"
  shows "(\<exists>e. r = Inl e \<and> w_store w' = w_store w) \<or>
    (\<exists>i. names_id gt i \<and> may_maintain (sv_local svc) caller (view (w_store w)) i \<and> ok (w_store w')
      \<and> same_data (spec_UpdateGroup (w_now w) i (ifEmpty d i) desc (view (w_store w))) (view (w_store w')))"
proof (cases "localGroup svc (w_store w) caller gt")
  case (Inl e)
  with run have "w' = w \<and> r = Inl e" by (simp add: UpdateGroup_def bindS_def readS_def)
  then show ?thesis by blast
next
  case (Inr g)
  let ?tail = "\<lambda>_. bindS (record_change svc caller ((change (g_id g) GroupUpdated)
         \<lparr>c_detail := ifEmpty d (g_id g) @ middle_dot @ desc\<rparr>)) (\<lambda>_.
     bindS (refreshCache svc) (\<lambda>_.
     bindS (readS (\<lambda>_ s. st_GetGroup (sv_ops svc) s (g_id g))) (\<lambda>updated. named svc updated)))"
  have run': "bindS (writeS (\<lambda>now. st_UpdateGroup (sv_ops svc) now (g_id g) (ifEmpty d (g_id g)) desc)) ?tail w = (w', r)"
    using run unfolding UpdateGroup_def bindS_readS Inr Let_def sum.case .
  show ?thesis
  proof (cases "st_UpdateGroup (sv_ops svc) (w_now w) (g_id g) (ifEmpty d (g_id g)) desc (w_store w)")
    case (Inl e)
    with run' have "w' = w \<and> r = Inl e" by (simp add: bindS_writeS)
    then show ?thesis by blast
  next
    case u: (Inr s')
    let ?V = "spec_UpdateGroup (w_now w) (g_id g) (ifEmpty d (g_id g)) desc (view (w_store w))"
    have s': "ok s'" "view s' = ?V" using UpdateGroup [OF ok] u svc by auto
    have still: "still (bindS (refreshCache svc) (\<lambda>_.
       bindS (readS (\<lambda>_ s. st_GetGroup (sv_ops svc) s (g_id g))) (\<lambda>updated. named svc updated)))"
      unfolding named_def by (intro clean_intros still_refreshCache)
    have t: "?tail () (w\<lparr>w_store := s'\<rparr>) = (w', r)" using run' unfolding bindS_writeS u sum.case .
    obtain w1 r1 where rc: "record_change svc caller ((change (g_id g) GroupUpdated)
         \<lparr>c_detail := ifEmpty d (g_id g) @ middle_dot @ desc\<rparr>) (w\<lparr>w_store := s'\<rparr>) = (w1, r1)"
      and st: "w_store w' = w_store w1"
      using t unfolding bindS_run [of "record_change _ _ _"] by (blast dest: stillD [OF still])
    have "ok (w_store w') \<and> same_data ?V (view (w_store w'))"
      using record_change_run [OF _ svc rc] s' st by simp
    then show ?thesis using localGroup_Inr [OF ok svc Inr] by blast
  qed
qed

lemma keeps_record_change:
  assumes "sv_ops svc = ops" and "\<And>v v'. same_data v v' \<Longrightarrow> P v \<Longrightarrow> P v'"
  shows "keeps (\<lambda>s. ok s \<and> P (view s)) (record_change svc caller c)"
  unfolding keeps_def
proof (intro allI impI)
  fix w :: "'s World"
  assume a: "ok (w_store w) \<and> P (view (w_store w))"
  obtain w' r where "record_change svc caller c w = (w', r)" by force
  with record_change_run [OF conjunct1 [OF a] assms(1) this] a assms(2)
  show "(ok (w_store (fst (record_change svc caller c w))) \<and> P (view (w_store (fst (record_change svc caller c w)))))
    \<and> w_now (fst (record_change svc caller c w)) = w_now w" by auto
qed

lemma keeps_new_managers:
  assumes "sv_ops svc = ops"
  shows "keeps (\<lambda>s. ok s \<and> only_managers i V (view s)) (forS (\<lambda>token.
      bindS (writeS (\<lambda>now. st_AddManager (sv_ops svc) now i
                \<lparr>m_token = token, m_created_by = actor, m_created = 0\<rparr>)) (\<lambda>_.
              record_change svc caller ((change i ManagerAdded)\<lparr>c_member := token\<rparr>))) tokens)"
proof (intro keeps_forS keeps_bindS keeps_writeS)
  fix token now s s'
  assume s: "ok s \<and> only_managers i V (view s)"
    "st_AddManager (sv_ops svc) now i \<lparr>m_token = token, m_created_by = actor, m_created = 0\<rparr> s = Inr s'"
  then have "ok s' \<and> view s' = spec_AddManager i token (view s)"
    using AddManager [of s now i] assms by fastforce
  with s(1) show "ok s' \<and> only_managers i V (view s')" by (simp add: only_managers_def spec_AddManager_def)
qed (rule keeps_record_change [OF assms], blast intro: only_managers_trans only_managers_same)

lemma CreateGroup_run:
  fixes i0 :: string
  defines "i \<equiv> NormalizeID (trim_prefix (trim_space i0) GroupPrefix)"
  assumes ok: "ok (w_store w)" and svc: "sv_ops svc = ops"
    and run: "CreateGroup svc caller i0 d desc ms w = (w', r)"
  shows "(\<exists>e. r = Inl e \<and> w_store w' = w_store w) \<or>
    (\<exists>g. cl_admin caller \<and> ValidateGroupID i = Inr () \<and> checkNotReserved svc (w_store w) i = Inr ()
      \<and> v_groups (view (w_store w)) i = None \<and> g_id g = i \<and> g_source g = Some (sv_local svc) \<and> ok (w_store w')
      \<and> only_managers i (spec_CreateGroup (w_now w) g (view (w_store w))) (view (w_store w')))"
proof (cases "cl_admin caller \<and> ValidateGroupID i = Inr () \<and> checkNotReserved svc (w_store w) i = Inr ()")
  case False
  have "w' = w \<and> (\<exists>e. r = Inl e)"
    using run False unfolding CreateGroup_def Let_def i_def [symmetric] bindS_pureS bindS_readS
    by (auto simp: pureS_def split: if_splits sum.splits)
  then show ?thesis by blast
next
  case True
  define g where "g = \<lparr>g_id = i, g_token = GroupPrefix @ i, g_display = ifEmpty d i, g_desc = desc,
    g_source = Some (sv_local svc), g_source_name = [], g_relations = [], g_created = 0, g_updated = 0\<rparr>"
  define tail where "tail toks g' = bindS (record_change svc caller ((change i GroupCreated)\<lparr>c_detail := g_display g'\<rparr>)) (\<lambda>_.
        bindS (forS (\<lambda>token.
            bindS (writeS (\<lambda>now. st_AddManager (sv_ops svc) now i
                \<lparr>m_token = token, m_created_by = cl_actor caller, m_created = 0\<rparr>)) (\<lambda>_.
              record_change svc caller ((change i ManagerAdded)\<lparr>c_member := token\<rparr>))) toks) (\<lambda>_.
        bindS (refreshCache svc) (\<lambda>_.
        readS (\<lambda>_ s. Inr (g'\<lparr>g_source_name := sourceNames svc s (sv_local svc)\<rparr>)))))" for toks and g' :: Group
  let ?checks = "mapS (\<lambda>m. readS (\<lambda>_ s. checkManagerToken svc s m)) ms"
  have run': "bindS ?checks (\<lambda>toks. bindS (mapErrorS (\<lambda>e. if says_duplicate e then ErrAlreadyExists else e)
      (writeR (\<lambda>now. st_CreateGroup (sv_ops svc) now g))) (tail toks)) w = (w', r)"
    using run True unfolding CreateGroup_def Let_def i_def [symmetric] bindS_pureS bindS_readS g_def tail_def by simp
  have still: "still ?checks" by (intro clean_intros)
  from run' consider (refused) e where "r = Inl e" "w_store w' = w_store w"
    | (checked) w1 toks where "w_store w1 = w_store w" "w_now w1 = w_now w"
      "bindS (mapErrorS (\<lambda>e. if says_duplicate e then ErrAlreadyExists else e)
      (writeR (\<lambda>now. st_CreateGroup (sv_ops svc) now g))) (tail toks) w1 = (w', r)"
    unfolding bindS_run [of ?checks] using stillD [OF still] by blast
  then show ?thesis
  proof cases
    case refused
    then show ?thesis by blast
  next
    case checked
    show ?thesis
    proof (cases "st_CreateGroup (sv_ops svc) (w_now w) g (w_store w)")
      case (Inl e)
      then have "\<exists>e. r = Inl e" "w' = w1" using checked by (auto simp: bindS_create)
      then show ?thesis using checked(1) by blast
    next
      case (Inr p)
      obtain s' g' where p: "p = (s', g')" by force
      let ?V = "spec_CreateGroup (w_now w) g (view (w_store w))"
      have s': "ok s'" "v_groups (view (w_store w)) i = None" "view s' = ?V"
        using CreateGroup [OF ok Inr [unfolded p svc]] by (simp_all add: g_def)
      have t: "tail toks g' (w1\<lparr>w_store := s'\<rparr>) = (w', r)"
        using checked(3) unfolding bindS_create checked(1,2) Inr p by simp
      have k: "keeps (\<lambda>s. ok s \<and> only_managers i ?V (view s)) (tail toks g')"
        unfolding tail_def
        by (intro keeps_bindS keeps_new_managers keeps_record_change keeps_still [OF still_refreshCache] keeps_readS svc)
          (blast intro: only_managers_trans only_managers_same)
      have "ok (w_store w') \<and> only_managers i ?V (view (w_store w'))"
        using keepsD [OF k _ t] s' by (simp add: only_managers_def)
      then show ?thesis using True s'(2) by (intro disjI2 exI [of _ g]) (simp add: g_def)
    qed
  qed
qed

text \<open>The search lets a group in only where it is not above the group already.\<close>

lemma checkNoCycle_Inr:
  assumes "ok s" "sv_ops svc = ops" "checkNoCycle svc now s i j = Inr ()"
  shows "(j, i) \<notin> (edge_rel (view_edges now (view s)))\<^sup>*"
proof -
  from assms obtain es where es: "st_GroupEdges ops now s = Inr es" "i \<noteq> j" "\<not> contains_loop es i [j] [j]"
    by (auto simp: checkNoCycle_def bindE_Inr split: if_splits)
  have "set es = view_edges now (view s)" using GroupEdges [OF assms(1) es(1)] .
  then show ?thesis using contains_loop_iff [of "[j]" "[j]" i es] es(2,3) by auto
qed

end

text \<open>Over a store that answers, the search refuses exactly what would close a cycle.\<close>

context reliable_store
begin

lemma checkNoCycle_iff:
  assumes "ok s" "sv_ops svc = ops"
  shows "checkNoCycle svc now s i j =
    (if (j, i) \<in> (edge_rel (view_edges now (view s)))\<^sup>* then Inl ErrCycle else Inr ())"
proof -
  obtain es where es: "st_GroupEdges ops now s = Inr es" using GroupEdges_total by blast
  have "set es = view_edges now (view s)" using GroupEdges [OF assms(1) es] .
  then show ?thesis
    using contains_loop_iff [of "[j]" "[j]" i es] es assms(2)
    by (auto simp: checkNoCycle_def bindE_def)
qed

end

end
