(* ===== verification/Requests.thy ===== *)
theory Requests
  imports ServiceLaws
begin

text \<open>
  The changing requests of the service as one datatype, and what any of them can do: the relation
  \<open>allowed_step\<close> on views lists, with the right each needs, the changes a caller can make. From
  it: the invariant is kept, the groups of other sources are left alone, a caller with no right
  changes nothing.
\<close>

datatype Request =
    ReqCreateGroup string string string "string list"
  | ReqUpdateGroup string string string
  | ReqDeleteGroup string
  | ReqAddMember string string string "time option"
  | ReqRemoveMember string string string
  | ReqChangeRelation string string string string
  | ReqAddManager string string
  | ReqRemoveManager string string

definition ignore :: "('s, 'a) action \<Rightarrow> ('s, unit) action" where
  "ignore m = bindS m (\<lambda>_. ret ())"

fun perform :: "'s Service \<Rightarrow> Caller \<Rightarrow> Request \<Rightarrow> ('s, unit) action" where
  "perform svc caller (ReqCreateGroup i d desc ms) = ignore (CreateGroup svc caller i d desc ms)"
| "perform svc caller (ReqUpdateGroup gt d desc) = ignore (UpdateGroup svc caller gt d desc)"
| "perform svc caller (ReqDeleteGroup gt) = DeleteGroup svc caller gt"
| "perform svc caller (ReqAddMember gt rel mt ex) = AddMember svc caller gt rel mt ex"
| "perform svc caller (ReqRemoveMember gt rel mt) = RemoveMember svc caller gt rel mt"
| "perform svc caller (ReqChangeRelation gt mt from to) = ChangeRelation svc caller gt mt from to"
| "perform svc caller (ReqAddManager gt mt) = AddManager svc caller gt mt"
| "perform svc caller (ReqRemoveManager gt mt) = RemoveManager svc caller gt mt"

lemma ignore_run: "ignore m w = (w', r) \<Longrightarrow> \<exists>r'. m w = (w', r') \<and> (r = Inr () \<longleftrightarrow> (\<exists>x. r' = Inr x))"
  by (auto simp: ignore_def bindS_def ret_def split: prod.splits sum.splits)

abbreviation member_types :: "string set" where
  "member_types \<equiv> {''user'', ''group'', ''pattern''}"

inductive allowed_step :: "uuid \<Rightarrow> Caller \<Rightarrow> time \<Rightarrow> StoreView \<Rightarrow> StoreView \<Rightarrow> bool"
  for L caller now v where
  created: "cl_admin caller \<Longrightarrow> ValidateGroupID (g_id g) = Inr () \<Longrightarrow> v_groups v (g_id g) = None \<Longrightarrow> g_source g = Some L \<Longrightarrow>
     only_managers (g_id g) (spec_CreateGroup now g v) v' \<Longrightarrow> allowed_step L caller now v v'"
| updated: "may_maintain L caller v i \<Longrightarrow> same_data (spec_UpdateGroup now i d desc v) v' \<Longrightarrow> allowed_step L caller now v v'"
| deleted: "cl_admin caller \<Longrightarrow> may_maintain L caller v i \<Longrightarrow> same_data (spec_DeleteGroup i v) v' \<Longrightarrow>
     allowed_step L caller now v v'"
| member_added: "may_maintain L caller v i \<Longrightarrow> ty \<in> member_types \<Longrightarrow> (\<And>x. ex = Some x \<Longrightarrow> x > now) \<Longrightarrow>
     (ty = ''group'' \<Longrightarrow> (fst (MemberGroup m), i) \<notin> (edge_rel (view_edges now v))\<^sup>*) \<Longrightarrow>
     same_data (spec_AddMember (entry_key i r ty m) (Some L) ex v) v' \<Longrightarrow> allowed_step L caller now v v'"
| member_removed: "may_maintain L caller v i \<Longrightarrow> same_data (spec_RemoveMember (entry_key i r ty m) v) v' \<Longrightarrow>
     allowed_step L caller now v v'"
| relation_changed: "may_maintain L caller v i \<Longrightarrow> ty \<in> member_types \<Longrightarrow>
     same_data (spec_ChangeRelation (entry_key i r ty m) (entry_key i r' ty m) v) v' \<Longrightarrow> allowed_step L caller now v v'"
| manager_added: "may_maintain L caller v i \<Longrightarrow> same_data (spec_AddManager i t v) v' \<Longrightarrow> allowed_step L caller now v v'"
| manager_removed: "may_maintain L caller v i \<Longrightarrow> same_data (spec_RemoveManager i t v) v' \<Longrightarrow> allowed_step L caller now v v'"

lemmas clean_requests = clean_AddMember clean_RemoveMember clean_ChangeRelation clean_AddManager clean_RemoveManager
  clean_DeleteGroup

context store
begin

lemma perform_step:
  assumes ok: "ok (w_store w)" and svc: "sv_ops svc = ops" and run: "perform svc caller req w = (w', r)"
  shows "w_store w' = w_store w \<or>
    (ok (w_store w') \<and> allowed_step (sv_local svc) caller (w_now w) (view (w_store w)) (view (w_store w')))"
proof (cases req)
  case (ReqCreateGroup i d desc ms)
  then obtain r' where "CreateGroup svc caller i d desc ms w = (w', r')" using run ignore_run by fastforce
  from CreateGroup_run [OF ok svc this] show ?thesis by (metis allowed_step.created)
next
  case (ReqUpdateGroup gt d desc)
  then obtain r' where "UpdateGroup svc caller gt d desc w = (w', r')" using run ignore_run by fastforce
  from UpdateGroup_run [OF ok svc this] show ?thesis by (auto intro: allowed_step.updated)
next
  case (ReqDeleteGroup gt)
  then have run: "DeleteGroup svc caller gt w = (w', r)" using run by simp
  show ?thesis
  proof (cases r)
    case (Inl e) then show ?thesis using cleanD [OF clean_DeleteGroup] run by blast
  next
    case (Inr u) from DeleteGroup_Inr [OF ok svc run [unfolded Inr]] show ?thesis by (auto intro: allowed_step.deleted)
  qed
next
  case (ReqAddMember gt rel mt ex)
  then have run: "AddMember svc caller gt rel mt ex w = (w', r)" using run by simp
  show ?thesis
  proof (cases r)
    case (Inl e) then show ?thesis using cleanD [OF clean_AddMember] run by blast
  next
    case (Inr u)
    from AddMember_Inr [OF ok svc run [unfolded Inr]] obtain i rel' ty m where m:
      "may_maintain (sv_local svc) caller (view (w_store w)) i" "parseMemberToken mt = Inr (ty, m)"
      "\<forall>x. ex = Some x \<longrightarrow> x > w_now w" "ok (w_store w')"
      "ty = ''group'' \<longrightarrow> checkNoCycle svc (w_now w) (w_store w) i (fst (MemberGroup m)) = Inr ()"
      "same_data (spec_AddMember (entry_key i rel' ty m) (Some (sv_local svc)) ex (view (w_store w))) (view (w_store w'))"
      by blast
    have "allowed_step (sv_local svc) caller (w_now w) (view (w_store w)) (view (w_store w'))"
      by (rule allowed_step.member_added [OF m(1) parseMemberToken_type [OF m(2)] _ _ m(6)])
        (use m(3,5) checkNoCycle_Inr [OF ok svc] in blast)+
    with m(4) show ?thesis by blast
  qed
next
  case (ReqRemoveMember gt rel mt)
  then have run: "RemoveMember svc caller gt rel mt w = (w', r)" using run by simp
  show ?thesis
  proof (cases r)
    case (Inl e) then show ?thesis using cleanD [OF clean_RemoveMember] run by blast
  next
    case (Inr u) from RemoveMember_Inr [OF ok svc run [unfolded Inr]] show ?thesis
      by (blast intro: allowed_step.member_removed)
  qed
next
  case (ReqChangeRelation gt mt r1 r2)
  then have run: "ChangeRelation svc caller gt mt r1 r2 w = (w', r)" using run by simp
  show ?thesis
  proof (cases r)
    case (Inl e) then show ?thesis using cleanD [OF clean_ChangeRelation] run by blast
  next
    case (Inr u)
    from ChangeRelation_Inr [OF ok svc run [unfolded Inr]] obtain i from' to' ty m where m:
      "may_maintain (sv_local svc) caller (view (w_store w)) i" "parseMemberToken mt = Inr (ty, m)" "ok (w_store w')"
      "same_data (spec_ChangeRelation (entry_key i from' ty m) (entry_key i to' ty m) (view (w_store w))) (view (w_store w'))"
      by blast
    from allowed_step.relation_changed [OF m(1) parseMemberToken_type [OF m(2)] m(4)] m(3) show ?thesis by blast
  qed
next
  case (ReqAddManager gt mt)
  then have run: "AddManager svc caller gt mt w = (w', r)" using run by simp
  show ?thesis
  proof (cases r)
    case (Inl e) then show ?thesis using cleanD [OF clean_AddManager] run by blast
  next
    case (Inr u) from AddManager_Inr [OF ok svc run [unfolded Inr]] show ?thesis by (blast intro: allowed_step.manager_added)
  qed
next
  case (ReqRemoveManager gt mt)
  then have run: "RemoveManager svc caller gt mt w = (w', r)" using run by simp
  show ?thesis
  proof (cases r)
    case (Inl e) then show ?thesis using cleanD [OF clean_RemoveManager] run by blast
  next
    case (Inr u) from RemoveManager_Inr [OF ok svc run [unfolded Inr]] show ?thesis
      by (blast intro: allowed_step.manager_removed)
  qed
qed

end

section \<open>What no request can do\<close>

lemma only_managers_ok: "only_managers i v v' \<Longrightarrow> view_ok v \<Longrightarrow> view_ok v'"
  by (simp add: only_managers_def view_ok_def entry_owned_def)

lemma may_maintainD: "may_maintain L caller v i \<Longrightarrow> \<exists>g. v_groups v i = Some g \<and> g_source g = Some L"
  by (simp add: may_maintain_def)

lemma allowed_step_ok:
  assumes "allowed_step L caller now v v'" and ok: "view_ok v"
  shows "view_ok v'"
  using assms(1)
proof cases
  case (created g)
  then show ?thesis
    using view_ok_CreateGroup [OF ok] only_managers_ok ValidateGroupID_stored by blast
next
  case (member_added i ty ex m r)
  obtain g where g: "v_groups v i = Some g" "g_source g = Some L" using may_maintainD [OF member_added(1)] by blast
  have "wf_key (entry_key i r ty m)" using member_added(2) view_okD(3) [OF ok g(1)] by (simp add: wf_entry_key)
  then show ?thesis
    using view_ok_AddMember [OF ok _ g(2), of "entry_key i r ty m" ex] g(1) member_added(5) by (simp add: same_data_ok)
next
  case (relation_changed i ty r m r')
  obtain g where g: "v_groups v i = Some g" using may_maintainD [OF relation_changed(1)] by blast
  have "wf_key (entry_key i r' ty m)" using relation_changed(2) view_okD(3) [OF ok g] by (simp add: wf_entry_key)
  then show ?thesis
    using view_ok_ChangeRelation [OF ok, of "entry_key i r' ty m" "entry_key i r ty m"] relation_changed(3)
    by (simp add: same_data_ok)
qed (simp_all add: same_data_ok view_ok_UpdateGroup view_ok_DeleteGroup view_ok_RemoveMember ok)

text \<open>
  A group of another source stays as it is; of its entries only those can go that enter a local
  group that was deleted, and it gains no manager.
\<close>

definition others_kept :: "uuid \<Rightarrow> StoreView \<Rightarrow> StoreView \<Rightarrow> bool" where
  "others_kept L v v' \<longleftrightarrow> (\<forall>i g. v_groups v i = Some g \<and> g_source g \<noteq> Some L \<longrightarrow>
     v_groups v' i = Some g \<and> v_managers v' i \<subseteq> v_managers v i \<and>
     (\<forall>k. k_group k = i \<longrightarrow> v_entries v' k = v_entries v k \<or>
        (v_entries v' k = None \<and> k_type k = ''group'' \<and> v_groups v' (k_sid k) = None
          \<and> (\<exists>h. v_groups v (k_sid k) = Some h \<and> g_source h = Some L))))"

lemma allowed_step_others:
  assumes step: "allowed_step L caller now v v'"
  shows "others_kept L v v'"
  unfolding others_kept_def
proof (intro allI impI)
  fix i g assume g: "v_groups v i = Some g \<and> g_source g \<noteq> Some L"
  have other: "j \<noteq> i" if "may_maintain L caller v j" for j using may_maintainD [OF that] g by auto
  show "v_groups v' i = Some g \<and> v_managers v' i \<subseteq> v_managers v i \<and>
     (\<forall>k. k_group k = i \<longrightarrow> v_entries v' k = v_entries v k \<or>
        (v_entries v' k = None \<and> k_type k = ''group'' \<and> v_groups v' (k_sid k) = None
          \<and> (\<exists>h. v_groups v (k_sid k) = Some h \<and> g_source h = Some L)))"
    using step
  proof cases
    case (created x)
    then show ?thesis using g by (auto simp: only_managers_def spec_CreateGroup_def)
  next
    case (deleted j)
    then show ?thesis using g other [OF deleted(2)] may_maintainD [OF deleted(2)]
      by (auto simp: same_data_sel [OF deleted(3)] spec_DeleteGroup_def key_in_or_of_def)
  next
    case (updated j d desc)
    then show ?thesis using g other [OF updated(1)] by (simp add: same_data_sel [OF updated(2)] spec_UpdateGroup_def)
  next
    case (member_added j ty ex m r)
    then show ?thesis using g other [OF member_added(1)]
      by (auto simp: same_data_sel [OF member_added(5)] spec_AddMember_def)
  next
    case (member_removed j r ty m)
    then show ?thesis using g other [OF member_removed(1)]
      by (auto simp: same_data_sel [OF member_removed(2)] spec_RemoveMember_def)
  next
    case (relation_changed j ty r m r')
    then show ?thesis using g other [OF relation_changed(1)]
      by (auto simp: same_data_sel [OF relation_changed(3)] spec_ChangeRelation_def)
  next
    case (manager_added j t)
    then show ?thesis using g other [OF manager_added(1)] by (simp add: same_data_sel [OF manager_added(2)] spec_AddManager_def)
  next
    case (manager_removed j t)
    then show ?thesis using g other [OF manager_removed(1)]
      by (simp add: same_data_sel [OF manager_removed(2)] spec_RemoveManager_def)
  qed
qed

text \<open>No step without a right: an admin, or a manager of a local group.\<close>

lemma allowed_step_right:
  "allowed_step L caller now v v' \<Longrightarrow> cl_admin caller \<or> (\<exists>i. may_maintain L caller v i)"
  by (erule allowed_step.cases) blast+

text \<open>A manager who is no admin changes nothing but the groups they manage.\<close>

lemma allowed_step_manager:
  assumes "allowed_step L caller now v v'" and "\<not> cl_admin caller"
  shows "\<exists>i. may_maintain L caller v i \<and> (\<forall>j. j \<noteq> i \<longrightarrow> v_groups v' j = v_groups v j \<and> v_managers v' j = v_managers v j)
    \<and> (\<forall>k. k_group k \<noteq> i \<longrightarrow> v_entries v' k = v_entries v k) \<and> dom (v_groups v') = dom (v_groups v) \<and> v_sources v' = v_sources v"
  using assms(1)
proof cases
  case (updated i d desc)
  then show ?thesis
    by (intro exI [of _ i]) (auto simp: same_data_sel [OF updated(2)] spec_UpdateGroup_def split: if_splits)
next
  case (member_added i ty ex m r)
  then show ?thesis by (intro exI [of _ i]) (auto simp: same_data_sel [OF member_added(5)] spec_AddMember_def)
next
  case (member_removed i r ty m)
  then show ?thesis by (intro exI [of _ i]) (auto simp: same_data_sel [OF member_removed(2)] spec_RemoveMember_def)
next
  case (relation_changed i ty r m r')
  then show ?thesis by (intro exI [of _ i]) (auto simp: same_data_sel [OF relation_changed(3)] spec_ChangeRelation_def)
next
  case (manager_added i t)
  then show ?thesis by (intro exI [of _ i]) (auto simp: same_data_sel [OF manager_added(2)] spec_AddManager_def)
next
  case (manager_removed i t)
  then show ?thesis by (intro exI [of _ i]) (auto simp: same_data_sel [OF manager_removed(2)] spec_RemoveManager_def)
qed (use assms(2) in simp_all)


section \<open>No cycles\<close>

lemma subject_group [simp]: "subject ''group'' m = MemberGroup m"
  by (simp add: subject_def)

lemma k_sid_group_key [simp]: "k_sid (entry_key i r ''group'' m) = fst (MemberGroup m)"
  by (simp add: entry_key_def pair_key_def split: prod.split)

lemma acyclic_edge: "acyclic R \<Longrightarrow> (b, a) \<notin> R\<^sup>* \<Longrightarrow> acyclic (insert (a, b) R)"
  by (simp add: acyclic_insert)

lemma edge_rel_mono: "E \<subseteq> F \<Longrightarrow> edge_rel E \<subseteq> edge_rel F"
  by (auto simp: edge_rel_def intro: exI [of _ "Edge a b"])

lemma edge_rel_insert: "edge_rel (insert (Edge a b) E) = insert (a, b) (edge_rel E)"
  by (auto simp: edge_rel_def intro: exI [of _ "Edge a b"])

lemma view_edges_mono:
  assumes "\<And>k. k_type k = ''group'' \<Longrightarrow> entry_live now v' k \<Longrightarrow> Edge (k_group k) (k_sid k) \<in> insert e (view_edges now v)"
  shows "view_edges now v' \<subseteq> insert e (view_edges now v)"
  using assms by (auto simp: view_edges_def)

lemma live_laterExpiry: "live_at now (laterExpiry a b) \<Longrightarrow> live_at now a \<or> live_at now b"
  by (auto simp: live_at_def laterExpiry_def split: option.splits if_splits)

lemma edge_of: "entry_live now v k \<Longrightarrow> k_type k = ''group'' \<Longrightarrow> Edge (k_group k) (k_sid k) \<in> view_edges now v"
  by (auto simp: view_edges_def)

lemma k_sid_entry_key: "k_sid (entry_key i r ty m) = fst (subject ty m)"
  by (simp add: entry_key_def pair_key_def split: prod.split)

lemma edges_ChangeRelation: "view_edges now (spec_ChangeRelation (entry_key i r ty m) (entry_key i r' ty m) v) \<subseteq> view_edges now v"
proof
  let ?old = "entry_key i r ty m" and ?new = "entry_key i r' ty m"
  fix e assume "e \<in> view_edges now (spec_ChangeRelation ?old ?new v)"
  then obtain k where k: "entry_live now (spec_ChangeRelation ?old ?new v) k" "k_type k = ''group''"
    and e: "e = Edge (k_group k) (k_sid k)" by (auto simp: view_edges_def)
  have "entry_live now v k \<or> (k = ?new \<and> (entry_live now v ?old \<or> entry_live now v ?new))"
    using k(1) live_laterExpiry
    by (fastforce simp: entry_live_def spec_ChangeRelation_def split: if_splits option.splits)
  then consider "entry_live now v k" | "k = ?new" "entry_live now v ?old" by blast
  then show "e \<in> view_edges now v"
  proof cases
    case 1
    then show ?thesis using edge_of k(2) e by blast
  next
    case 2
    then show ?thesis using edge_of [of now v ?old] k(2) e by (simp add: k_sid_entry_key)
  qed
qed

lemma same_data_edges: "same_data v v' \<Longrightarrow> view_edges now v' = view_edges now v"
  by (simp add: view_edges_def entry_live_def same_data_sel)

text \<open>At the moment of the request: no group contains itself, directly or further down, afterwards if before.\<close>

lemma allowed_step_acyclic:
  assumes step: "allowed_step L caller now v v'" and ac: "acyclic (edge_rel (view_edges now v))"
  shows "acyclic (edge_rel (view_edges now v'))"
proof -
  have sub: "acyclic (edge_rel E)" if "E \<subseteq> view_edges now v" for E
    using acyclic_subset [OF ac edge_rel_mono [OF that]] .
  show ?thesis
    using step
  proof cases
    case (created g)
    then have "view_edges now v' = view_edges now v"
      by (simp add: only_managers_def spec_CreateGroup_def view_edges_def entry_live_def)
    then show ?thesis using ac by simp
  next
    case (updated i d desc)
    then show ?thesis using ac
      by (simp add: same_data_edges [OF updated(2)]) (simp add: spec_UpdateGroup_def view_edges_def entry_live_def)
  next
    case (deleted i)
    then show ?thesis unfolding same_data_edges [OF deleted(3)]
      by (intro sub) (auto simp: spec_DeleteGroup_def view_edges_def entry_live_def split: if_splits)
  next
    case (member_added i ty ex m r)
    let ?k = "entry_key i r ty m"
    show ?thesis
    proof (cases "ty = ''group''")
      case True
      let ?e = "Edge i (fst (MemberGroup m))"
      have "view_edges now v' \<subseteq> insert ?e (view_edges now v)"
        unfolding same_data_edges [OF member_added(5)]
        by (rule view_edges_mono)
          (use True in \<open>auto simp: entry_live_def spec_AddMember_def view_edges_def split: if_splits\<close>)
      then have "edge_rel (view_edges now v') \<subseteq> insert (i, fst (MemberGroup m)) (edge_rel (view_edges now v))"
        using edge_rel_mono edge_rel_insert by metis
      then show ?thesis using acyclic_subset [OF acyclic_edge [OF ac]] member_added(4) True by blast
    next
      case False
      then show ?thesis unfolding same_data_edges [OF member_added(5)]
        by (intro sub) (auto simp: spec_AddMember_def view_edges_def entry_live_def split: if_splits)
    qed
  next
    case (member_removed i r ty m)
    then show ?thesis unfolding same_data_edges [OF member_removed(2)]
      by (intro sub) (auto simp: spec_RemoveMember_def view_edges_def entry_live_def split: if_splits)
  next
    case (relation_changed i ty r m r')
    then show ?thesis unfolding same_data_edges [OF relation_changed(3)] by (intro sub edges_ChangeRelation)
  next
    case (manager_added i t)
    then show ?thesis using ac by (simp add: same_data_edges [OF manager_added(2)])
        (simp add: spec_AddManager_def view_edges_def entry_live_def)
  next
    case (manager_removed i t)
    then show ?thesis using ac by (simp add: same_data_edges [OF manager_removed(2)])
        (simp add: spec_RemoveManager_def view_edges_def entry_live_def)
  qed
qed

text \<open>As time passes over an unchanged store edges only go.\<close>

lemma view_edges_later: "now \<le> later \<Longrightarrow> view_edges later v \<subseteq> view_edges now v"
  by (force simp: view_edges_def entry_live_def live_at_def split: option.splits)

end
