(* ===== verification/Router.thy ===== *)
theory Router
  imports Handlers Requests
begin

text \<open>
  The routes (\<open>registerGroupRoutes\<close>, \<open>registerUserRoutes\<close>, \<open>registerSyncRoutes\<close>,
  \<open>registerAdminRoutes\<close>, \<open>registerManageRoutes\<close>) with their guards, and how \<open>SetupRouter\<close> serves a
  request: the middleware of the route's group, the guard of the route, the handler.

  The lemmas: what a request lets through may do (\<open>serve_api\<close>, \<open>serve_manage\<close>), split into the
  handlers that only read and those that call one changing operation.
\<close>

section \<open>Routes\<close>

datatype Guard = Free | NeedsWrite | NeedsUpload

type_synonym ('s, 'c) api_route = "string \<times> string \<times> Guard \<times> (HttpRequest \<Rightarrow> ('s, 'c, Response) handler)"

definition registerGroupRoutes :: "('s, 'c) SetupConfig \<Rightarrow> ('s, 'c) api_route list" where
  "registerGroupRoutes cfg = [
     (''GET'', ''/v1/groups'', Free, listGroups cfg),
     (''POST'', ''/v1/groups'', NeedsWrite, createGroup cfg),
     (''GET'', ''/v1/groups/:token'', Free, getGroupH cfg),
     (''PATCH'', ''/v1/groups/:token'', NeedsWrite, updateGroup cfg),
     (''DELETE'', ''/v1/groups/:token'', NeedsWrite, deleteGroup cfg),
     (''GET'', ''/v1/groups/:token/members'', Free, listMembers cfg),
     (''POST'', ''/v1/groups/:token/members'', NeedsWrite, addMember cfg),
     (''DELETE'', ''/v1/groups/:token/members/*member'', NeedsWrite, removeMember cfg),
     (''GET'', ''/v1/relations'', Free, (\<lambda>_. listRelations cfg))]"

definition registerUserRoutes :: "('s, 'c) SetupConfig \<Rightarrow> ('s, 'c) api_route list" where
  "registerUserRoutes cfg = [
     (''GET'', ''/v1/users'', Free, searchUsers cfg),
     (''GET'', ''/v1/users/:email/tokens'', Free, getUserTokens cfg)]"

definition registerSyncRoutes :: "('s, 'c) SetupConfig \<Rightarrow> ('s, 'c) api_route list" where
  "registerSyncRoutes cfg = [
     (''GET'', ''/v1/sync/sources'', Free, (\<lambda>_. listSources cfg)),
     (''POST'', ''/v1/sync/sources'', NeedsWrite, createSource cfg),
     (''GET'', ''/v1/sync/sources/:id'', Free, getSource cfg),
     (''PUT'', ''/v1/sync/sources/:id'', NeedsWrite, updateSource cfg),
     (''DELETE'', ''/v1/sync/sources/:id'', NeedsWrite, deleteSource cfg),
     (''POST'', uploadRoute, NeedsUpload, uploadAndSync cfg),
     (''POST'', ''/v1/sync/sources/:id/trigger'', NeedsWrite, triggerSync cfg),
     (''GET'', ''/v1/sync/sources/:id/log'', Free, getSyncLog cfg)]"

definition registerAdminRoutes :: "('s, 'c) SetupConfig \<Rightarrow> ('s, 'c) api_route list" where
  "registerAdminRoutes cfg = [
     (''GET'', ''/v1/admin/health'', Free, (\<lambda>_. healthCheck)),
     (''GET'', ''/v1/admin/stats'', Free, (\<lambda>_. getStats cfg))]"

type_synonym ('s, 'c) manage_route = "string \<times> string \<times> (HttpRequest \<Rightarrow> Keys \<Rightarrow> Caller \<Rightarrow> ('s, 'c, Response) handler)"

definition registerManageRoutes :: "('s, 'c) SetupConfig \<Rightarrow> ('s, 'c) manage_route list" where
  "registerManageRoutes cfg = [
     (''GET'', ''/v1/manage/me'', (\<lambda>r ks. manageMe cfg ks)),
     (''GET'', ''/v1/manage/principals'', (\<lambda>r ks. manageSearchPrincipals cfg r)),
     (''GET'', ''/v1/manage/sources'', (\<lambda>r ks. manageListSources cfg)),
     (''GET'', ''/v1/manage/groups'', (\<lambda>r ks. manageListGroups cfg r)),
     (''POST'', ''/v1/manage/groups'', (\<lambda>r ks. manageCreateGroup cfg r)),
     (''GET'', ''/v1/manage/groups/:group'', (\<lambda>r ks. manageGetGroup cfg r)),
     (''PATCH'', ''/v1/manage/groups/:group'', (\<lambda>r ks. manageUpdateGroup cfg r)),
     (''DELETE'', ''/v1/manage/groups/:group'', (\<lambda>r ks. manageDeleteGroup cfg r)),
     (''POST'', ''/v1/manage/groups/:group/members'', (\<lambda>r ks. manageAddMember cfg r)),
     (''DELETE'', ''/v1/manage/groups/:group/members'', (\<lambda>r ks. manageRemoveMember cfg r)),
     (''PATCH'', ''/v1/manage/groups/:group/members'', (\<lambda>r ks. manageChangeRelation cfg r)),
     (''GET'', ''/v1/manage/groups/:group/effective'', (\<lambda>r ks. manageEffectiveMembers cfg r)),
     (''POST'', ''/v1/manage/groups/:group/managers'', (\<lambda>r ks. manageAddManager cfg r)),
     (''DELETE'', ''/v1/manage/groups/:group/managers'', (\<lambda>r ks. manageRemoveManager cfg r)),
     (''GET'', ''/v1/manage/groups/:group/history'', (\<lambda>r ks. manageHistory cfg r))]"

section \<open>Serving\<close>

definition answer :: "('s, 'c, Response) handler \<Rightarrow> ('s, 'c) Server \<Rightarrow> ('s, 'c) Server \<times> Response" where
  "answer h st = (case h st of (st', Inl r) \<Rightarrow> (st', r) | (st', Inr r) \<Rightarrow> (st', r))"

definition guard_response :: "('s, 'c) SetupConfig \<Rightarrow> Guard \<Rightarrow> HttpRequest \<Rightarrow> Keys \<Rightarrow> ('s, 'c) Server \<Rightarrow> Response option" where
  "guard_response cfg g r ks st = (case g of Free \<Rightarrow> None | NeedsWrite \<Rightarrow> requireWriteToken ks
     | NeedsUpload \<Rightarrow> requireWriteOrOwnSource cfg r ks (w_store (sr_world st)))"

text \<open>The middleware of the two groups of routes, before the handler.\<close>

definition run_api :: "('s, 'c) SetupConfig \<Rightarrow> HttpRequest \<Rightarrow> Guard \<Rightarrow> (HttpRequest \<Rightarrow> ('s, 'c, Response) handler)
    \<Rightarrow> ('s, 'c) Server \<Rightarrow> ('s, 'c) Server \<times> Response" where
  "run_api cfg r g h st =
     (case lb_CORS (sc_Library cfg) r of Some resp \<Rightarrow> (st, resp)
      | None \<Rightarrow>
     (case BearerAuthMiddleware (sc_APITokens cfg) (sc_APIWriteTokens cfg) (sc_SourceUploadTokens cfg) r no_keys of
        Inl resp \<Rightarrow> (st, resp)
      | Inr ks \<Rightarrow>
     (case guard_response cfg g r ks st of Some resp \<Rightarrow> (st, resp)
      | None \<Rightarrow> answer (h r) st)))"

definition run_manage :: "('s, 'c) SetupConfig \<Rightarrow> (string \<Rightarrow> VerifyError + string) \<Rightarrow> HttpRequest
    \<Rightarrow> (HttpRequest \<Rightarrow> Keys \<Rightarrow> Caller \<Rightarrow> ('s, 'c, Response) handler) \<Rightarrow> ('s, 'c) Server \<Rightarrow> ('s, 'c) Server \<times> Response" where
  "run_manage cfg verify r h st =
     (case lb_RejectCrossOriginWrites (sc_Library cfg) r of Some resp \<Rightarrow> (st, resp)
      | None \<Rightarrow>
     (case personAuthMiddleware cfg verify r no_keys (sr_world st) of
        (w, Inl resp) \<Rightarrow> (st\<lparr>sr_world := w\<rparr>, resp)
      | (w, Inr ks) \<Rightarrow> answer (bindH (check (callerOf ks)) (\<lambda>caller. h r ks caller)) (st\<lparr>sr_world := w\<rparr>)))"

definition matches :: "HttpRequest \<Rightarrow> string \<times> string \<times> 'a \<Rightarrow> bool" where
  "matches r x \<longleftrightarrow> fst x = rq_method r \<and> fst (snd x) = rq_route r"

definition serve_api :: "('s, 'c) SetupConfig \<Rightarrow> HttpRequest \<Rightarrow> ('s, 'c) Server \<Rightarrow> (('s, 'c) Server \<times> Response) option" where
  "serve_api cfg r st =
     map_option (\<lambda>(_, _, g, h). run_api cfg r g h st)
       (find (matches r) (registerGroupRoutes cfg @ registerUserRoutes cfg @ registerSyncRoutes cfg @ registerAdminRoutes cfg))"

definition serve_manage :: "('s, 'c) SetupConfig \<Rightarrow> HttpRequest \<Rightarrow> ('s, 'c) Server \<Rightarrow> (('s, 'c) Server \<times> Response) option" where
  "serve_manage cfg r st =
     (case sc_Verifier cfg of None \<Rightarrow> None
      | Some verify \<Rightarrow> map_option (\<lambda>(_, _, h). run_manage cfg verify r h st) (find (matches r) (registerManageRoutes cfg)))"

lemma find_mem: "find P xs = Some x \<Longrightarrow> x \<in> set xs \<and> P x"
  by (induction xs) (auto split: if_splits)

lemma serve_api_Some:
  "serve_api cfg r st = Some x \<Longrightarrow> \<exists>m route g h. x = run_api cfg r g h st \<and> (m, route, g, h) \<in> set
     (registerGroupRoutes cfg @ registerUserRoutes cfg @ registerSyncRoutes cfg @ registerAdminRoutes cfg)"
proof -
  assume "serve_api cfg r st = Some x"
  then obtain y where y: "find (matches r) (registerGroupRoutes cfg @ registerUserRoutes cfg @ registerSyncRoutes cfg
      @ registerAdminRoutes cfg) = Some y" "x = (case y of (_, _, g, h) \<Rightarrow> run_api cfg r g h st)"
    by (auto simp only: serve_api_def map_option_eq_Some)
  obtain m route g h where f: "y = (m, route, g, h)" by (cases y)
  have "x = run_api cfg r g h st" using y(2) by (simp only: f prod.case)
  with find_mem [OF y(1)] show ?thesis unfolding f by blast
qed

lemma serve_manage_Some:
  "serve_manage cfg r st = Some x \<Longrightarrow> \<exists>m route h verify. sc_Verifier cfg = Some verify \<and> x = run_manage cfg verify r h st
     \<and> (m, route, h) \<in> set (registerManageRoutes cfg)"
proof -
  assume s: "serve_manage cfg r st = Some x"
  then obtain verify where v: "sc_Verifier cfg = Some verify" unfolding serve_manage_def by (cases "sc_Verifier cfg") simp_all
  with s obtain y where y: "find (matches r) (registerManageRoutes cfg) = Some y"
      "x = (case y of (_, _, h) \<Rightarrow> run_manage cfg verify r h st)"
    by (auto simp only: serve_manage_def option.case map_option_eq_Some)
  obtain m route h where f: "y = (m, route, h)" by (cases y)
  have "x = run_manage cfg verify r h st" using y(2) by (simp only: f prod.case)
  with v find_mem [OF y(1)] show ?thesis unfolding f by blast
qed

text \<open>The documents need no token; a route nobody registered is not found.\<close>

definition SetupRouter :: "('s, 'c) SetupConfig \<Rightarrow> HttpRequest \<Rightarrow> ('s, 'c) Server \<Rightarrow> ('s, 'c) Server \<times> Response" where
  "SetupRouter cfg r st =
     (if rq_method r = ''GET'' \<and> (rq_route r = ''/swagger.json'' \<or> rq_route r = ''/'')
      then (st, Response 200 (Document (sc_Documents cfg (rq_route r))))
      else case serve_manage cfg r st of Some x \<Rightarrow> x
      | None \<Rightarrow> (case serve_api cfg r st of Some x \<Rightarrow> x | None \<Rightarrow> (st, Response 404 NoBody)))"

section \<open>What handlers do\<close>

text \<open>
  \<open>reads svc h\<close>: the handler changes nothing but what the lookup of an unknown person enters.
  \<open>performs svc caller h\<close>: at most one operation of the service, in the caller's name.
\<close>

definition looked_up :: "'s Service \<Rightarrow> 's World \<Rightarrow> 's World \<Rightarrow> bool" where
  "looked_up svc w w' \<longleftrightarrow> w' = w \<or> (\<exists>f email. sv_lookup svc = Some f \<and> w' = f email w)"

definition reads :: "'s Service \<Rightarrow> ('s, 'c, 'a) handler \<Rightarrow> bool" where
  "reads svc h \<longleftrightarrow> (\<forall>st. looked_up svc (sr_world st) (sr_world (fst (h st))) \<and> sr_sched (fst (h st)) = sr_sched st)"

definition silent :: "('s, 'c, 'a) handler \<Rightarrow> bool" where
  "silent h \<longleftrightarrow> (\<forall>st. \<exists>r. h st = (st, r))"

definition steady :: "('s, 'a) action \<Rightarrow> bool" where
  "steady m \<longleftrightarrow> (\<forall>w. \<exists>r. m w = (w, r))"

definition performs :: "'s Service \<Rightarrow> Caller \<Rightarrow> ('s, 'c, 'a) handler \<Rightarrow> bool" where
  "performs svc caller h \<longleftrightarrow> (\<forall>st. sr_sched (fst (h st)) = sr_sched st \<and>
     (sr_world (fst (h st)) = sr_world st
      \<or> (\<exists>req r. perform svc caller req (sr_world st) = (sr_world (fst (h st)), r))))"

named_theorems quiet_intros

lemma steady_ret [quiet_intros]: "steady (ret x)"
  by (simp add: steady_def ret_def)

lemma steady_pureS [quiet_intros]: "steady (pureS x)"
  by (simp add: steady_def pureS_def)

lemma steady_readS [quiet_intros]: "steady (readS f)"
  by (simp add: steady_def readS_def)

lemma steady_snapshot [quiet_intros]: "steady (\<lambda>w. (w, f w))"
  by (simp add: steady_def)

lemma steady_bindS [quiet_intros]:
  assumes "steady m" "\<And>x. steady (f x)"
  shows "steady (bindS m f)"
  unfolding steady_def
proof
  fix w
  obtain r where "m w = (w, r)" using assms(1) by (auto simp: steady_def)
  then show "\<exists>r. bindS m f w = (w, r)" using assms(2) by (cases r) (auto simp: steady_def bindS_def)
qed

lemma steady_if [quiet_intros]: "steady m \<Longrightarrow> steady m' \<Longrightarrow> steady (if b then m else m')"
  by simp

lemma steady_option [quiet_intros]: "steady m \<Longrightarrow> (\<And>x. steady (f x)) \<Longrightarrow> steady (case o' of None \<Rightarrow> m | Some x \<Rightarrow> f x)"
  by (cases o') simp_all

lemma steady_prod [quiet_intros]: "(\<And>x y. steady (f x y)) \<Longrightarrow> steady (case p of (x, y) \<Rightarrow> f x y)"
  by (cases p) simp

lemma silent_check [quiet_intros]: "silent (check r)"
  by (simp add: silent_def check_def)

lemma silent_reply [quiet_intros]: "silent (reply c b)"
  by (simp add: silent_def reply_def)

lemma silent_call [quiet_intros]:
  fixes m :: "('s, 'a) action"
  assumes "steady m" shows "silent (call bad m :: ('s, 'c, 'a) handler)"
  unfolding silent_def
proof
  fix st :: "('s, 'c) Server"
  obtain r where "m (sr_world st) = (sr_world st, r)" using assms by (auto simp: steady_def)
  then show "\<exists>r. call bad m st = (st, r)" by (simp add: call_def)
qed

lemma silent_bind [quiet_intros]:
  assumes "silent m" "\<And>x. silent (f x)"
  shows "silent (bindH m f)"
  unfolding silent_def
proof
  fix st
  obtain r where "m st = (st, r)" using assms(1) by (auto simp: silent_def)
  then show "\<exists>r. bindH m f st = (st, r)" using assms(2) by (cases r) (auto simp: silent_def bindH_def)
qed

lemma silent_if [quiet_intros]: "silent m \<Longrightarrow> silent m' \<Longrightarrow> silent (if b then m else m')"
  by simp

lemma silent_option [quiet_intros]: "silent m \<Longrightarrow> (\<And>x. silent (f x)) \<Longrightarrow> silent (case o' of None \<Rightarrow> m | Some x \<Rightarrow> f x)"
  by (cases o') simp_all

lemma silent_prod [quiet_intros]: "(\<And>x y. silent (f x y)) \<Longrightarrow> silent (case p of (x, y) \<Rightarrow> f x y)"
  by (cases p) simp

lemma silent_reads: "silent h \<Longrightarrow> reads svc h"
  unfolding silent_def reads_def looked_up_def by (metis fst_conv)

lemma silent_performs: "silent h \<Longrightarrow> performs svc caller h"
  unfolding silent_def performs_def by (metis fst_conv)

lemma performs_check:
  "(\<And>x. performs svc caller (f x)) \<Longrightarrow> performs svc caller (bindH (check c) f)"
  by (cases c) (auto simp: performs_def bindH_def check_def)

lemma performs_call:
  fixes m :: "('s, 'b) action" and g :: "'b \<Rightarrow> ('s, 'c, 'a) handler"
  assumes "\<And>w. fst (m w) = fst (perform svc caller req w)" "\<And>x. silent (g x)"
  shows "performs svc caller (bindH (call bad m) g)"
  unfolding performs_def
proof
  fix st :: "('s, 'c) Server"
  obtain w r where m: "m (sr_world st) = (w, r)" by force
  have "sr_world (fst (bindH (call bad m) g st)) = w \<and> sr_sched (fst (bindH (call bad m) g st)) = sr_sched st"
  proof (cases r)
    case (Inr x)
    obtain r' where "g x (st\<lparr>sr_world := w\<rparr>) = (st\<lparr>sr_world := w\<rparr>, r')" using assms(2) by (auto simp: silent_def)
    then show ?thesis using m Inr by (simp add: bindH_def call_def)
  qed (simp add: bindH_def call_def m)
  moreover have "\<exists>r. perform svc caller req (sr_world st) = (w, r)" using assms(1) [of "sr_world st"] m by (metis fst_conv prod.collapse)
  ultimately show "sr_sched (fst (bindH (call bad m) g st)) = sr_sched st \<and>
     (sr_world (fst (bindH (call bad m) g st)) = sr_world st
      \<or> (\<exists>req r. perform svc caller req (sr_world st) = (sr_world (fst (bindH (call bad m) g st)), r)))"
    by (metis (no_types))
qed

lemma fst_ignore [simp]: "fst (ignore m w) = fst (m w)"
  by (simp add: ignore_def bindS_def ret_def split: prod.split sum.split)

lemma perform_fst:
  "fst (CreateGroup svc caller i d desc ms w) = fst (perform svc caller (ReqCreateGroup i d desc ms) w)"
  "fst (UpdateGroup svc caller gt d desc w) = fst (perform svc caller (ReqUpdateGroup gt d desc) w)"
  "fst (DeleteGroup svc caller gt w) = fst (perform svc caller (ReqDeleteGroup gt) w)"
  "fst (AddMember svc caller gt rel mt ex w) = fst (perform svc caller (ReqAddMember gt rel mt ex) w)"
  "fst (RemoveMember svc caller gt rel mt w) = fst (perform svc caller (ReqRemoveMember gt rel mt) w)"
  "fst (ChangeRelation svc caller gt mt r1 r2 w) = fst (perform svc caller (ReqChangeRelation gt mt r1 r2) w)"
  "fst (AddManager svc caller gt mt w) = fst (perform svc caller (ReqAddManager gt mt) w)"
  "fst (RemoveManager svc caller gt mt w) = fst (perform svc caller (ReqRemoveManager gt mt) w)"
  by simp_all

section \<open>Reading\<close>

lemma steady_find_groups [quiet_intros]: "steady (find_groups svc q from limit)"
  unfolding find_groups_def by (intro quiet_intros)

lemma steady_named [quiet_intros]: "steady (named svc g)"
  unfolding named_def by (intro quiet_intros)

lemma steady_ManagedGroups [quiet_intros]: "steady (ManagedGroups svc caller q)"
  unfolding ManagedGroups_def by (intro quiet_intros)

lemma steady_search_all [quiet_intros]: "steady (search_all svc q)" "steady (allGroups svc)"
  unfolding allGroups_def search_all_def by (intro quiet_intros)+

lemma steady_service [quiet_intros]:
  "steady (ListGroups parse svc q src limit)" "steady (GetGroup svc token)" "steady (GetAllMembers svc token rel rec)"
  "steady (Detail svc caller token)" "steady (EffectiveMembers svc caller token)" "steady (History svc caller token limit)"
  "steady (SearchPrincipals svc caller q limit)" "steady (Sources svc caller)" "steady (Browse svc caller bq)"
  unfolding ListGroups_def GetGroup_def GetAllMembers_def Detail_def EffectiveMembers_def History_def
    SearchPrincipals_def Sources_def Browse_def browse_admin_def
  by (intro quiet_intros)+

lemma silent_api:
  "silent (listGroups cfg r)" "silent (getGroupH cfg r)" "silent (listMembers cfg r)" "silent (listRelations cfg)"
  "silent (searchUsers cfg r)" "silent (listSources cfg)" "silent (getSource cfg r)" "silent (getSyncLog cfg r)"
  "silent healthCheck" "silent (getStats cfg)"
  unfolding listGroups_def getGroupH_def listMembers_def listRelations_def searchUsers_def listSources_def getSource_def
    getSyncLog_def healthCheck_def getStats_def Let_def
  by (intro quiet_intros)+

lemma reads_getUserTokens: "reads (sc_GroupSvc cfg) (getUserTokens cfg r)"
  by (auto simp: reads_def looked_up_def getUserTokens_def GetUserTokens_def Let_def bindH_def reply_def call_def bindS_def
      pureS_def readS_def ret_def split: prod.splits sum.splits option.splits if_splits)

lemma silent_manage:
  "silent (manageMe cfg ks caller)" "silent (manageSearchPrincipals cfg r caller)" "silent (manageListGroups cfg r caller)"
  "silent (manageListSources cfg caller)" "silent (manageGetGroup cfg r caller)" "silent (manageEffectiveMembers cfg r caller)"
  "silent (manageHistory cfg r caller)"
  unfolding manageMe_def manageSearchPrincipals_def manageListGroups_def manageListSources_def manageGetGroup_def
    manageEffectiveMembers_def manageHistory_def Let_def
  by (intro quiet_intros)+

section \<open>Changing\<close>

lemma performs_manage:
  "performs (sc_GroupSvc cfg) caller (manageCreateGroup cfg r caller)"
  "performs (sc_GroupSvc cfg) caller (manageUpdateGroup cfg r caller)"
  "performs (sc_GroupSvc cfg) caller (manageDeleteGroup cfg r caller)"
  "performs (sc_GroupSvc cfg) caller (manageAddMember cfg r caller)"
  "performs (sc_GroupSvc cfg) caller (manageRemoveMember cfg r caller)"
  "performs (sc_GroupSvc cfg) caller (manageChangeRelation cfg r caller)"
  "performs (sc_GroupSvc cfg) caller (manageAddManager cfg r caller)"
  "performs (sc_GroupSvc cfg) caller (manageRemoveManager cfg r caller)"
  unfolding manageCreateGroup_def manageUpdateGroup_def manageDeleteGroup_def manageAddMember_def manageRemoveMember_def
    manageChangeRelation_def manageAddManager_def manageRemoveManager_def
  by (intro performs_check performs_call, rule perform_fst, intro quiet_intros)+

end
