(* ===== verification/EngineLaws.thy ===== *)
theory EngineLaws
  imports Engine Requests
begin

text \<open>
  What a sync run does to the data of any store that meets the contract: what the checks let
  through may be imported (\<open>sync_check_Inr\<close>), a refused run records its failure and changes nothing
  else, a successful one leaves the source's entries as the import lists them (\<open>RunSync_run\<close>), and a
  source can reserve only names nobody else uses (\<open>CheckReservation_Inr\<close>).
\<close>

section \<open>The checks\<close>

lemma lower_char_sep: "lower_char c = RelationSeparator \<Longrightarrow> c = RelationSeparator"
proof -
  assume "lower_char c = RelationSeparator"
  then have "(of_char (lower_char c) :: nat) = 35" by simp
  then have "(of_char c :: nat) = of_char RelationSeparator" by (simp add: of_char_lower split: if_splits)
  then show ?thesis by (rule injD [OF inj_of_char])
qed

lemma set_trim_space: "set (trim_space s) \<subseteq> set s"
  using trim_both_decomp [of s is_space] by (auto simp: trim_space_def) (metis UnCI set_append)

lemma NormalizeID_sep: "RelationSeparator \<notin> set i \<Longrightarrow> RelationSeparator \<notin> set (NormalizeID i)"
  using set_trim_space [of i] lower_char_sep by (force simp: NormalizeID_def to_lower_def)

lemma checkRelations1_Inr:
  assumes "checkRelations1 rels t = Inr t'"
  shows "p_group t' = p_group t \<and> p_type t' = p_type t \<and> p_relation t' = NormalizeRelation (trim_space (p_relation t))
    \<and> p_relation t' \<in> set (allowed rels) \<and> (p_type t = ''group'' \<longrightarrow> snd (MemberGroup (p_member t')) \<in> set (allowed rels))"
proof (cases "p_type t = ''group''")
  case False
  with assms show ?thesis by (auto simp: checkRelations1_def import_error_def bindE_Inr Check_Inr)
next
  case True
  obtain g mr where m: "MemberGroup (p_member t) = (g, mr)" by force
  with assms True obtain mr' where mr': "Check rels mr = Inr mr'" "p_member t' = JoinGroupRelation g mr'"
    "p_group t' = p_group t" "p_type t' = p_type t" "Check rels (p_relation t) = Inr (p_relation t')"
    by (auto simp: checkRelations1_def import_error_def bindE_Inr)
  then have "snd (MemberGroup (p_member t')) = mr'"
    using MemberGroup_no_sep [OF m] by (auto simp: MemberGroup_Join Check_Inr)
  then show ?thesis using mr' by (auto simp: Check_Inr)
qed

lemma checkRelations_Inr: "checkRelations rels ts = Inr ts' \<Longrightarrow>
    list_all2 (\<lambda>t t'. checkRelations1 rels t = Inr t') ts ts'"
  by (induction ts arbitrary: ts') (auto simp: bindE_Inr)

lemma set_groupIDs [simp]: "set (groupIDs ts) = p_group ` set ts"
  by (simp add: groupIDs_def)

lemma ownership_loop_Inr: "ownership_loop owners srcs j is = Inr () \<longleftrightarrow>
    (\<forall>i \<in> set is. lookup owners i \<in> {None, Some (Some j)} \<and> \<not> is_reserved srcs j i)"
  by (induction "is") (auto split: option.splits)

text \<open>A name somebody else reserved, by the sources as stored.\<close>

definition reserved_for_others :: "StoreView \<Rightarrow> uuid \<Rightarrow> string \<Rightarrow> bool" where
  "reserved_for_others v j i \<longleftrightarrow>
     (\<exists>src \<in> ran (v_sources v). s_id src \<noteq> j \<and> (\<exists>glob \<in> set (s_reserved src). MatchGlob glob i))"

text \<open>What the validators leave of a tuple's shape.\<close>

definition tuple_shape :: "TuplePair \<Rightarrow> bool" where
  "tuple_shape t \<longleftrightarrow> RelationSeparator \<notin> set (p_group t) \<and> p_type t \<in> member_types"

lemma ValidateTuple_shape: "ValidateTuple t = Inr () \<Longrightarrow> tuple_shape t"
  by (auto simp: tuple_shape_def ValidateTuple_def bindE_Inr ValidateMember_def
      dest: ValidateGroupID_stored split: if_splits)

context store
begin

lemma CheckOwnership_Inr:
  assumes "ok s" "CheckOwnership ops s j is = Inr ()" "i \<in> set is"
  shows "(\<forall>g. v_groups (view s) i = Some g \<longrightarrow> g_source g = Some j) \<and> \<not> reserved_for_others (view s) j i"
proof -
  from assms(2) obtain owners srcs where o: "st_GroupOwners ops s is = Inr owners" "st_ListSources ops s = Inr srcs"
    "ownership_loop owners srcs j is = Inr ()"
    by (auto simp: CheckOwnership_def bindE_Inr)
  then have i: "lookup owners i \<in> {None, Some (Some j)}" "\<not> is_reserved srcs j i"
    using assms(3) by (auto simp: ownership_loop_Inr)
  have "lookup owners i = map_option g_source (v_groups (view s) i)"
    using GroupOwners [OF assms(1) o(1)] assms(3) by simp
  moreover have "set srcs = ran (v_sources (view s))" using ListSources [OF assms(1) o(2)] .
  ultimately show ?thesis using i by (auto simp: is_reserved_def reserved_for_others_def)
qed

lemma sync_check_Inr:
  assumes ok: "ok s" and ops: "eg_ops eng = ops" and src: "s_id src = j"
    and run: "sync_check eng s src (Inr (ts0, ds0)) = Inr (ts, ds)" and shape: "\<forall>t \<in> set ts0. tuple_shape t"
  shows "importable j ts (view s) \<and> (\<forall>t \<in> set ts. \<not> reserved_for_others (view s) j (p_group t)
    \<and> p_relation t \<in> set (allowed (eg_relations eng)))"
proof -
  let ?ts1 = "map normalize_tuple ts0"
  from run have c: "checkRelations (eg_relations eng) ?ts1 = Inr ts" "CheckOwnership ops s j (groupIDs ts) = Inr ()"
    by (auto simp: sync_check_def normalizeIDs_def bindE_Inr ops src)
  have "importable j [t'] (view s) \<and> \<not> reserved_for_others (view s) j (p_group t')
      \<and> p_relation t' \<in> set (allowed (eg_relations eng))" if "t' \<in> set ts" for t'
  proof -
    from that obtain n where n: "n < length ts" "t' = ts ! n" by (auto simp: in_set_conv_nth)
    have "n < length ts0 \<and> checkRelations1 (eg_relations eng) (normalize_tuple (ts0 ! n)) = Inr (ts ! n)"
      using checkRelations_Inr [OF c(1)] n(1) by (auto simp: list_all2_conv_all_nth)
    then obtain t where t: "t \<in> set ts0" "checkRelations1 (eg_relations eng) (normalize_tuple t) = Inr t'"
      using n(2) nth_mem by blast
    have "tuple_shape t" using shape t(1) by blast
    then have "wf_key (pair_key t')"
      using checkRelations1_Inr [OF t(2)]
      by (auto simp: wf_pair_key tuple_shape_def normalize_tuple_def NormalizeID_sep)
    moreover have "p_group t' \<in> set (groupIDs ts)" using that by simp
    ultimately show ?thesis
      using CheckOwnership_Inr [OF ok c(2), of "p_group t'"] checkRelations1_Inr [OF t(2)]
      by (metis importable_def empty_iff empty_set set_ConsD)
  qed
  then show ?thesis by (auto simp: importable_def)
qed

end

text \<open>What the engine's readers give has been validated: the files' parsers see to it, the Keycloak reader has to.\<close>

definition reads_valid :: "'s Engine \<Rightarrow> bool" where
  "reads_valid eng \<longleftrightarrow> (\<forall>ts ds notes. eg_keycloak eng = Some (Inr (ts, ds, notes)) \<longrightarrow> (\<forall>t \<in> set ts. tuple_shape t))"

lemma sync_read_shape:
  assumes "reads_valid eng" "sync_read eng src content = (notes, Inr (ts, ds))"
  shows "\<forall>t \<in> set ts. tuple_shape t"
proof (cases "s_type src = SourceTypeKeycloak")
  case True
  with assms show ?thesis
    by (auto simp: sync_read_def fetchKeycloak_def reads_valid_def split: if_splits option.splits sum.splits)
next
  case False
  with assms have "parseTuples eng src content = Inr (ts, ds)" by (simp add: sync_read_def import_error_def)
  then have "\<forall>t \<in> set ts. ValidateTuple t = Inr ()"
    by (auto simp: parseTuples_def bindE_Inr dest: ParseCSV_valid ParseLDIF_valid split: if_splits)
  then show ?thesis using ValidateTuple_shape by blast
qed

section \<open>The run\<close>

text \<open>Two views that differ in what the source \<open>j\<close> says of its last run only.\<close>

definition source_core :: "Source \<Rightarrow> Source" where
  "source_core src = src\<lparr>s_last_status := [], s_last_synced := None, s_updated := 0\<rparr>"

definition run_recorded :: "uuid \<Rightarrow> StoreView \<Rightarrow> StoreView \<Rightarrow> bool" where
  "run_recorded j v v' \<longleftrightarrow> v_groups v' = v_groups v \<and> v_entries v' = v_entries v
     \<and> v_managers v' = v_managers v \<and> v_history v' = v_history v \<and> (\<forall>i. map_option source_core (v_sources v' i) = map_option source_core (v_sources v i))
     \<and> (\<forall>i. i \<noteq> j \<longrightarrow> v_sources v' i = v_sources v i)"

lemma run_recorded_refl [simp]: "run_recorded j v v"
  by (simp add: run_recorded_def)

lemma run_recorded_ok: "run_recorded j v v' \<Longrightarrow> view_ok v' \<longleftrightarrow> view_ok v"
  by (simp add: run_recorded_def view_ok_def entry_owned_def)

lemma run_recorded_status: "run_recorded j u v \<Longrightarrow> run_recorded j u (v\<lparr>v_sources := (v_sources v)(j :=
      map_option (\<lambda>src. src\<lparr>s_last_status := st, s_last_synced := Some at, s_updated := now\<rparr>) (v_sources v j))\<rparr>)"
proof -
  assume r: "run_recorded j u v"
  have "map_option source_core (map_option (\<lambda>src. src\<lparr>s_last_status := st, s_last_synced := Some at, s_updated := now\<rparr>) x)
      = map_option source_core x" for x
    by (cases x) (simp_all add: source_core_def)
  with r show ?thesis
    by (simp add: run_recorded_def)
qed

context store
begin

lemma keeps_log:
  assumes "\<And>now s s'. ok s \<Longrightarrow> f now s = Inr s' \<Longrightarrow> ok s' \<and> view s' = view s"
  shows "keeps (\<lambda>s. ok s \<and> run_recorded j V (view s)) (writeS f)"
  using assms by (intro keeps_writeS) auto

lemma keeps_status: "keeps (\<lambda>s. ok s \<and> run_recorded j V (view s)) (writeS (\<lambda>now'. st_UpdateSourceSyncStatus ops now' j st at))"
  by (rule keeps_writeS) (metis UpdateSourceSyncStatus run_recorded_status)

lemma keeps_finish_run:
  assumes "eg_ops eng = ops"
  shows "keeps (\<lambda>s. ok s \<and> run_recorded j V (view s)) (finish_run eng j l st)"
  unfolding finish_run_def assms
  by (intro keeps_bindS keeps_readS keeps_bestEffort keeps_status) (simp add: keeps_log UpdateSyncLog)

text \<open>The end of a run: its log entry and status, then its answer.\<close>

lemma finish_end:
  assumes ops: "eg_ops eng = ops" and ok: "ok (w_store w)" and r: "run_recorded j V (view (w_store w))"
    and run: "bindS (finish_run eng j l st) (\<lambda>_. m) w = (w', r)" and m: "still m"
  shows "ok (w_store w') \<and> run_recorded j V (view (w_store w')) \<and> w_now w' = w_now w \<and> (\<exists>w1. snd (m w1) = r)"
proof -
  have st: "keeps (\<lambda>s. ok s \<and> run_recorded j V (view s)) (bindS (finish_run eng j l st) (\<lambda>_. m))"
    by (intro keeps_bindS keeps_finish_run [OF ops] keeps_still [OF m])
  have "sure (finish_run eng j l st)" by (simp add: sure_def finish_run_def bindS_def readS_def bestEffort_def)
  then obtain w1 where "m w1 = (w', r)" using run unfolding bindS_run sure_iff by blast
  then have "\<exists>w1. snd (m w1) = r" by (metis snd_conv)
  with keepsD [OF st _ run] ok r show ?thesis by blast
qed

lemma replaceS_run: "replaceS ops j ts ds w = (w', r) \<Longrightarrow>
    (\<exists>e. r = Inr (Inl e) \<and> w' = w) \<or>
    (\<exists>s a b. r = Inr (Inr (a, b)) \<and> st_ReplaceTuples ops (w_now w) (w_ids w) j ts ds (w_store w) = Inr (s, a, b)
      \<and> w_store w' = s \<and> w_now w' = w_now w)"
  by (auto simp: replaceS_def split: sum.splits)

lemma sync_store_run:
  assumes ok: "ok (w_store w)" and ops: "eg_ops eng = ops"
    and after: "still (eg_afterSync eng)" and vok: "view_ok (view (w_store w))"
    and imp: "\<And>ts ds. checked = Inr (ts, ds) \<Longrightarrow> importable j ts (view (w_store w))"
    and run: "sync_store eng j entry checked w = (w', r)"
  shows "ok (w_store w') \<and> w_now w' = w_now w \<and>
    ((\<exists>e. r = Inl e) \<and> run_recorded j (view (w_store w)) (view (w_store w')) \<or>
     r = Inr () \<and> (\<exists>ts ds. checked = Inr (ts, ds)
       \<and> run_recorded j (spec_ReplaceTuples (w_now w) j ts ds (view (w_store w))) (view (w_store w'))))"
proof (cases checked)
  case (Inl e)
  from run have "bindS (finish_run eng j (entry\<lparr>l_error := eg_message eng e\<rparr>) SyncStatusError) (\<lambda>_. pureS (Inl e)) w = (w', r)"
    by (simp add: sync_store_def Inl)
  from finish_end [OF ops ok run_recorded_refl this still_basic(2)] show ?thesis by (auto simp: pureS_def)
next
  case (Inr p)
  obtain ts ds where p: "p = (ts, ds)" by force
  obtain w1 r1 where r1: "replaceS ops j ts ds w = (w1, r1)" by force
  from replaceS_run [OF r1] show ?thesis
  proof (elim disjE exE conjE)
    fix e assume e: "r1 = Inr (Inl e)" "w1 = w"
    with run r1 have "bindS (finish_run eng j (entry\<lparr>l_error := ''storing the import failed''\<rparr>) SyncStatusError)
        (\<lambda>_. pureS (Inl e)) w = (w', r)"
      by (simp add: sync_store_def Inr p ops bindS_def [of "replaceS _ _ _ _"])
    from finish_end [OF ops ok run_recorded_refl this still_basic(2)] show ?thesis by (auto simp: pureS_def)
  next
    fix s a b
    assume a: "r1 = Inr (Inr (a, b))" "st_ReplaceTuples ops (w_now w) (w_ids w) j ts ds (w_store w) = Inr (s, a, b)"
      "w_store w1 = s" "w_now w1 = w_now w"
    have w1: "ok (w_store w1)" "view (w_store w1) = spec_ReplaceTuples (w_now w) j ts ds (view (w_store w))"
      using ReplaceTuples [OF ok importable_own [OF vok imp] a(2)] Inr p a(3) by auto
    have st: "still (bestEffort (eg_afterSync eng))"
      using after by (simp add: still_def bestEffort_def)
    from run r1 a(1) have "bindS (finish_run eng j (entry\<lparr>l_added := a, l_removed := b\<rparr>) SyncStatusOK)
        (\<lambda>_. bestEffort (eg_afterSync eng)) w1 = (w', r)"
      by (simp add: sync_store_def Inr p ops bindS_def [of "replaceS _ _ _ _"])
    from finish_end [OF ops w1(1) _ this st, of "spec_ReplaceTuples (w_now w) j ts ds (view (w_store w))"]
    show ?thesis using w1(2) Inr p a(4) by (auto simp: bestEffort_def)
  qed
qed

text \<open>A run that fails changes nothing but its own record; one that succeeds leaves what it imported.\<close>

lemma RunSync_run:
  assumes ok: "ok (w_store w)" and ops: "eg_ops eng = ops" and valid: "reads_valid eng"
    and after: "still (eg_afterSync eng)" and vok: "view_ok (view (w_store w))"
    and run: "RunSync eng j content w = (w', r)"
  shows "ok (w_store w') \<and> w_now w' = w_now w \<and>
    ((\<exists>e. r = Inl e) \<and> run_recorded j (view (w_store w)) (view (w_store w')) \<or>
     r = Inr () \<and> (\<exists>ts ds. importable j ts (view (w_store w))
       \<and> (\<forall>t \<in> set ts. \<not> reserved_for_others (view (w_store w)) j (p_group t) \<and> p_relation t \<in> set (allowed (eg_relations eng)))
       \<and> run_recorded j (spec_ReplaceTuples (w_now w) j ts ds (view (w_store w))) (view (w_store w'))))"
proof (cases "\<exists>src. st_GetSource ops (w_store w) j = Inr src \<and> s_type src \<noteq> SourceTypeLocal")
  case False
  then have "w' = w \<and> (\<exists>e. r = Inl e)"
    using run by (auto simp: RunSync_def bindS_readS ops pureS_def split: sum.splits if_splits)
  then show ?thesis using ok by auto
next
  case True
  then obtain src where src: "st_GetSource ops (w_store w) j = Inr src" "s_type src \<noteq> SourceTypeLocal" by blast
  have sid: "s_id src = j" using GetSource [OF ok src(1)] by simp
  obtain nts data where rd: "sync_read eng src content = (nts, data)" by force
  define entry where "entry = \<lparr>l_id = w_ids w 0, l_source = j, l_started = w_now w, l_finished = None,
                      l_added = 0, l_removed = 0, l_error = [], l_notes = []\<rparr>"
  define w1 where "w1 = fst (writeS (\<lambda>_. st_CreateSyncLog ops entry) (w\<lparr>w_ids := \<lambda>n. w_ids w (Suc n)\<rparr>))"
  have w1: "ok (w_store w1)" "view (w_store w1) = view (w_store w)" "w_now w1 = w_now w"
    using CreateSyncLog [OF ok] ok by (auto simp: w1_def writeS_def split: sum.split)
  have run': "sync_store eng j (entry\<lparr>l_notes := nts\<rparr>) (sync_check eng (w_store w1) src data) w1 = (w', r)"
    using run src rd by (simp add: RunSync_def bindS_readS ops bindS_drawID bindS_bestEffort entry_def [symmetric] w1_def)
  have imp: "importable j ts (view (w_store w1)) \<and> (\<forall>t \<in> set ts. \<not> reserved_for_others (view (w_store w1)) j (p_group t)
      \<and> p_relation t \<in> set (allowed (eg_relations eng)))"
    if c: "sync_check eng (w_store w1) src data = Inr (ts, ds)" for ts ds
  proof -
    obtain ts0 ds0 where d: "data = Inr (ts0, ds0)" using c by (cases data) (auto simp: sync_check_def)
    show ?thesis using sync_check_Inr [OF w1(1) ops sid c [unfolded d] sync_read_shape [OF valid rd [unfolded d]]] .
  qed
  show ?thesis
    using sync_store_run [OF w1(1) ops after _ _ run', unfolded w1(2,3), OF vok] imp [unfolded w1(2)] by blast
qed

lemma CheckReservation_Inr:
  assumes ok: "ok s" and run: "CheckReservation ops s j globs = Inr ()" and g: "v_groups (view s) i = Some g" "g_id g = i"
    and glob: "glob \<in> set globs" "MatchGlob glob i"
  shows "g_source g = Some j"
proof (cases "length globs = 0")
  case True
  with glob show ?thesis by simp
next
  case False
  with run obtain gs where gs: "st_ListGroups ops s [] None 0 = Inr gs"
    "\<not> length (filter (\<lambda>g. \<not> (g_source g = Some j) \<and> (\<exists>glob \<in> set globs. MatchGlob glob (g_id g))) gs) > 0"
    by (auto simp: CheckReservation_def bindE_Inr Let_def split: if_splits)
  have "g \<in> set gs" using AllGroups [OF ok gs(1)] g(1) by (auto simp: ran_def)
  moreover have "\<forall>g \<in> set gs. \<not> (\<not> (g_source g = Some j) \<and> (\<exists>glob \<in> set globs. MatchGlob glob (g_id g)))"
    using gs(2) by (simp only: length_greater_0_conv filter_empty_conv not_not)
  ultimately show ?thesis using g(2) glob by auto
qed

end

section \<open>Reserved names\<close>

lemma reserved_names_loop:
  "NormalizeReservedNames_loop gs out = Inr out' \<Longrightarrow> distinct out \<Longrightarrow>
   distinct out' \<and> set out' = set out \<union> ((\<lambda>g. NormalizeID (trim_prefix (trim_space g) GroupPrefix)) ` set gs - {[]})
   \<and> (\<forall>g \<in> set out' - set out. ValidateReservedName g = Inr ())"
proof (induction gs out rule: NormalizeReservedNames_loop.induct)
  case (2 g gs out)
  let ?g = "NormalizeID (trim_prefix (trim_space g) GroupPrefix)"
  show ?case
  proof (cases "?g = []")
    case True
    with 2 show ?thesis by auto
  next
    case False
    let ?out = "if ?g \<notin> set out then out @ [?g] else out"
    from False "2.prems"(1) have v: "ValidateReservedName ?g = Inr ()" "NormalizeReservedNames_loop gs ?out = Inr out'"
      by (auto simp: Let_def bindE_Inr)
    have d: "distinct ?out" using "2.prems"(2) by simp
    note IH = "2.IH"(2) [OF refl False v(2) d]
    have out: "set ?out = insert ?g (set out)" by auto
    show ?thesis using IH v(1) False unfolding out by auto
  qed
qed simp

lemma NormalizeReservedNames_Inr:
  assumes "NormalizeReservedNames globs = Inr out"
  shows "distinct out \<and> set out = (\<lambda>g. NormalizeID (trim_prefix (trim_space g) GroupPrefix)) ` set globs - {[]}
    \<and> (\<forall>g \<in> set out. ValidateReservedName g = Inr ())"
  using reserved_names_loop [OF assms [unfolded NormalizeReservedNames_def]] by simp

end
