(* ===== verification/MemoryLaws.thy ===== *)
theory MemoryLaws
  imports MemoryContract EngineLaws
begin

text \<open>
  The laws of the service and the sync engine on the in-memory store: what the locale lemmas say
  once \<open>store\<close> is interpreted, and the invariant over the tuples the searches walk.
\<close>

lemma view_ok_tuples:
  assumes "view_ok (mem_view s)" "mem_ok s"
  shows "wf_tuples (tuples s)"
  unfolding wf_tuples_def
proof
  fix t assume t: "t \<in> set (tuples s)"
  have "v_entries (mem_view s) (tuple_key t) = Some (tuple_entry t)"
    using mem_entries_in [OF mem_okD(4) [OF assms(2)] t] by simp
  from view_okD(2) [OF assms(1) this] show "wf_tuple t"
    by (simp add: wf_key_def wf_tuple_def split: if_splits)
qed

text \<open>A request on the in-memory store: a step of \<open>allowed_step\<close>, or nothing.\<close>

lemma memory_request:
  assumes "mem_ok (w_store w)" "sv_ops svc = memory_ops" "perform svc caller req w = (w', r)"
  obtains (same) "w_store w' = w_store w"
    | (step) "mem_ok (w_store w')"
      "allowed_step (sv_local svc) caller (w_now w) (mem_view (w_store w)) (mem_view (w_store w'))"
  using memory.perform_step [OF assms] by blast

lemma view_ok_request:
  assumes "mem_ok (w_store w)" "view_ok (mem_view (w_store w))" "sv_ops svc = memory_ops"
    "perform svc caller req w = (w', r)"
  shows "mem_ok (w_store w') \<and> view_ok (mem_view (w_store w'))"
  by (rule memory_request [OF assms(1,3,4)]) (use assms(1,2) allowed_step_ok in auto)

lemma others_kept_refl: "others_kept L v v"
  by (simp add: others_kept_def)

lemma view_ok_sync:
  assumes "mem_ok (w_store w)" "view_ok (mem_view (w_store w))" "eg_ops eng = memory_ops" "reads_valid eng"
    "still (eg_afterSync eng)" "RunSync eng j content w = (w', r)"
  shows "mem_ok (w_store w') \<and> view_ok (mem_view (w_store w'))"
  using memory.RunSync_run [OF assms(1,3,4,5,2,6)] view_ok_ReplaceTuples [OF assms(2)] assms(2) run_recorded_ok by blast

lemma RunSync_memory_exact:
  assumes "mem_ok (w_store w)" "view_ok (mem_view (w_store w))" "eg_ops eng = memory_ops" "reads_valid eng"
    "still (eg_afterSync eng)" "RunSync eng j content w = (w', Inr u)"
  shows "\<exists>ts. importable j ts (mem_view (w_store w))
    \<and> (\<forall>t \<in> set ts. \<not> reserved_for_others (mem_view (w_store w)) j (p_group t)
         \<and> p_relation t \<in> set (allowed (eg_relations eng)))
    \<and> (\<forall>k. (\<exists>e. v_entries (mem_view (w_store w')) k = Some e \<and> en_source e = Some j) \<longleftrightarrow> k \<in> pair_key ` set ts)"
proof -
  from memory.RunSync_run [OF assms(1,3,4,5,2,6)] obtain ts ds where t: "importable j ts (mem_view (w_store w))"
    "\<forall>t \<in> set ts. \<not> reserved_for_others (mem_view (w_store w)) j (p_group t) \<and> p_relation t \<in> set (allowed (eg_relations eng))"
    "run_recorded j (spec_ReplaceTuples (w_now w) j ts ds (mem_view (w_store w))) (mem_view (w_store w'))" by blast
  have "v_entries (mem_view (w_store w')) = v_entries (spec_ReplaceTuples (w_now w) j ts ds (mem_view (w_store w)))"
    using t(3) by (simp only: run_recorded_def)
  then show ?thesis using t(1,2) ReplaceTuples_exact [OF assms(2) t(1)] by (intro exI [of _ ts]) (simp del: mem_view_simps)
qed

lemma RunSync_memory_others:
  assumes "mem_ok (w_store w)" "view_ok (mem_view (w_store w))" "eg_ops eng = memory_ops" "reads_valid eng"
    "still (eg_afterSync eng)" "RunSync eng j content w = (w', r)"
    and g: "v_groups (mem_view (w_store w)) i = Some g" "g_source g \<noteq> Some j"
  shows "v_groups (mem_view (w_store w')) i = Some g \<and> v_managers (mem_view (w_store w')) = v_managers (mem_view (w_store w))
    \<and> (\<forall>k. k_group k = i \<longrightarrow> v_entries (mem_view (w_store w')) k = v_entries (mem_view (w_store w)) k)"
proof -
  from memory.RunSync_run [OF assms(1,3,4,5,2,6)]
  consider "run_recorded j (mem_view (w_store w)) (mem_view (w_store w'))"
    | ts ds where "importable j ts (mem_view (w_store w))"
      "run_recorded j (spec_ReplaceTuples (w_now w) j ts ds (mem_view (w_store w))) (mem_view (w_store w'))" by blast
  then show ?thesis
  proof cases
    case 1
    then show ?thesis using g(1) by (simp add: run_recorded_def del: mem_view_simps)
  next
    case 2
    have "v_managers (spec_ReplaceTuples (w_now w) j ts ds (mem_view (w_store w))) = v_managers (mem_view (w_store w))"
      by (simp add: spec_ReplaceTuples_def)
    then show ?thesis
      using 2(2) ReplaceTuples_others [OF assms(2) 2(1) g] by (simp add: run_recorded_def del: mem_view_simps)
  qed
qed

end
