(* ===== verification/RouterLaws.thy ===== *)
theory RouterLaws
  imports Router MemoryLaws
begin

text \<open>
  Who can change what through the web API: a request changes nothing but what the lookup of an
  unknown person enters, unless it carries a write token, or the upload token of the source it
  syncs, or it is a signed-in person's and the service performs it with the rights of the person
  it is judged by.
\<close>

section \<open>Authority\<close>

definition unchanged :: "('s, 'c) SetupConfig \<Rightarrow> ('s, 'c) Server \<Rightarrow> ('s, 'c) Server \<Rightarrow> bool" where
  "unchanged cfg st st' \<longleftrightarrow> looked_up (sc_GroupSvc cfg) (sr_world st) (sr_world st') \<and> sr_sched st' = sr_sched st"

definition by_write_token :: "('s, 'c) SetupConfig \<Rightarrow> HttpRequest \<Rightarrow> bool" where
  "by_write_token cfg r \<longleftrightarrow>
     presented_token (rq_authorization r) \<noteq> [] \<and> presented_token (rq_authorization r) \<in> set (sc_APIWriteTokens cfg)"

definition by_upload_token :: "('s, 'c) SetupConfig \<Rightarrow> HttpRequest \<Rightarrow> ('s, 'c) Server \<Rightarrow> ('s, 'c) Server \<Rightarrow> bool" where
  "by_upload_token cfg r st st' \<longleftrightarrow>
     (\<exists>t \<in> set (sc_SourceUploadTokens cfg). ut_token t \<noteq> [] \<and> ut_token t = presented_token (rq_authorization r) \<and>
       (\<exists>i src content. st_GetSource (sc_Store cfg) (w_store (sr_world st)) i = Inr src \<and> s_name src = ut_source t
         \<and> sr_world st' = fst (RunSync (sc_SyncEngine cfg) i (Some content) (sr_world st)) \<and> sr_sched st' = sr_sched st))"

text \<open>Whom the request is judged by: the person the token names, or the one they may act for.\<close>

definition judged :: "('s, 'c) SetupConfig \<Rightarrow> HttpRequest \<Rightarrow> 's World \<Rightarrow> 's World \<Rightarrow> Caller \<Rightarrow> bool" where
  "judged cfg r w w' caller \<longleftrightarrow>
     (\<exists>verify raw own target w1. sc_Verifier cfg = Some verify \<and> lb_CutBearerPrefix (sc_Library cfg) (rq_authorization r) = Some raw
       \<and> verify raw = Inr (cl_actor caller) \<and> cl_actor caller \<noteq> []
       \<and> GetUserTokens (sc_GroupSvc cfg) (cl_actor caller) w = (w1, Inr own)
       \<and> lb_ActAs (sc_Library cfg) (rq_actAs r) (cl_actor caller) (isAdmin (sc_AdminTokens cfg) own) = Inr target
       \<and> (if target = cl_actor caller then w' = w1 \<and> cl_tokens caller = own
          else GetUserTokens (sc_GroupSvc cfg) target w1 = (w', Inr (cl_tokens caller)))
       \<and> cl_admin caller = isAdmin (sc_AdminTokens cfg) (cl_tokens caller))"

definition by_person :: "('s, 'c) SetupConfig \<Rightarrow> HttpRequest \<Rightarrow> ('s, 'c) Server \<Rightarrow> ('s, 'c) Server \<Rightarrow> bool" where
  "by_person cfg r st st' \<longleftrightarrow> sr_sched st' = sr_sched st \<and>
     (\<exists>caller w req resp. judged cfg r (sr_world st) w caller
       \<and> perform (sc_GroupSvc cfg) caller req w = (sr_world st', resp))"

section \<open>The API\<close>

lemma fst_answer [simp]: "fst (answer h st) = fst (h st)"
  by (simp add: answer_def split: prod.split sum.split)

abbreviation api_routes :: "('s, 'c) SetupConfig \<Rightarrow> ('s, 'c) api_route list" where
  "api_routes cfg \<equiv> registerGroupRoutes cfg @ registerUserRoutes cfg @ registerSyncRoutes cfg @ registerAdminRoutes cfg"

lemma free_routes_read:
  assumes "(m, route, Free, h) \<in> set (api_routes cfg)"
  shows "reads (sc_GroupSvc cfg) (h r)"
  using assms unfolding registerGroupRoutes_def registerUserRoutes_def registerSyncRoutes_def registerAdminRoutes_def
  by (auto intro: silent_reads silent_api reads_getUserTokens)

lemma upload_route:
  assumes "(m, route, NeedsUpload, h) \<in> set (api_routes cfg)"
  shows "h = uploadAndSync cfg"
  using assms unfolding registerGroupRoutes_def registerUserRoutes_def registerSyncRoutes_def registerAdminRoutes_def by auto

lemma uploadAndSync_run:
  "fst (uploadAndSync cfg r st) = st \<or>
   (\<exists>i content. lb_uuid_Parse (sc_Library cfg) (rq_param r ''id'') = Some i \<and>
      fst (uploadAndSync cfg r st) = st\<lparr>sr_world := fst (RunSync (sc_SyncEngine cfg) i (Some content) (sr_world st))\<rparr>)"
proof (cases "id_param cfg r")
  case (Inl resp)
  then show ?thesis by (simp add: uploadAndSync_def bindH_def check_def)
next
  case (Inr i)
  then have i: "lb_uuid_Parse (sc_Library cfg) (rq_param r ''id'') = Some i" by (simp add: id_param_def split: option.splits)
  show ?thesis
  proof (cases "\<exists>content. lb_FormFile (sc_Library cfg) (limitRequestBody r) (rq_body r) = Inr (Inr content)")
    case True
    then obtain content where "lb_FormFile (sc_Library cfg) (limitRequestBody r) (rq_body r) = Inr (Inr content)" by blast
    with Inr have "fst (uploadAndSync cfg r st) = st\<lparr>sr_world := fst (RunSync (sc_SyncEngine cfg) i (Some content) (sr_world st))\<rparr>"
      by (simp add: uploadAndSync_def bindH_def check_def call_def reply_def split: sum.split prod.split)
    with i show ?thesis by blast
  next
    case False
    with Inr have "fst (uploadAndSync cfg r st) = st"
      by (auto simp: uploadAndSync_def bindH_def check_def split: sum.split FormFileError.split)
    then show ?thesis by simp
  qed
qed

lemma serve_api_authority:
  assumes "serve_api cfg r st = Some (st', resp)"
  shows "unchanged cfg st st' \<or> by_write_token cfg r \<or> by_upload_token cfg r st st'"
proof -
  let ?token = "presented_token (rq_authorization r)"
  obtain m route g h where run: "(st', resp) = run_api cfg r g h st" and mem: "(m, route, g, h) \<in> set (api_routes cfg)"
    using serve_api_Some [OF assms] by blast
  show ?thesis
  proof (cases "st' = st")
    case True then show ?thesis by (simp add: unchanged_def looked_up_def)
  next
    case False
    obtain ks where ks: "BearerAuthMiddleware (sc_APITokens cfg) (sc_APIWriteTokens cfg) (sc_SourceUploadTokens cfg) r no_keys = Inr ks"
      "guard_response cfg g r ks st = None" "(st', resp) = answer (h r) st"
      using run False unfolding run_api_def by (auto split: option.splits sum.splits)
    then have st': "st' = fst (h r st)" by (metis fst_answer fst_conv)
    note B = BearerAuthMiddleware_Inr [OF ks(1)]
    show ?thesis
    proof (cases g)
      case Free
      then have "unchanged cfg st st'"
        using free_routes_read [of m route h cfg r] mem st' by (simp add: reads_def unchanged_def)
      then show ?thesis by simp
    next
      case NeedsWrite
      then have "ky_canWrite ks" using ks(2) by (simp add: guard_response_def requireWriteToken_None)
      then show ?thesis using B by (auto simp: by_write_token_def no_keys_def)
    next
      case NeedsUpload
      then have h: "h = uploadAndSync cfg" using mem upload_route by blast
      show ?thesis
      proof (cases "ky_uploadSource ks")
        case None
        then have "ky_canWrite ks" using ks(2) NeedsUpload by (simp add: guard_response_def requireWriteOrOwnSource_None)
        then show ?thesis using B by (auto simp: by_write_token_def no_keys_def)
      next
        case (Some source)
        then obtain i src where src: "lb_uuid_Parse (sc_Library cfg) (rq_param r ''id'') = Some i"
          "st_GetSource (sc_Store cfg) (w_store (sr_world st)) i = Inr src" "s_name src = source"
          using ks(2) NeedsUpload by (auto simp: guard_response_def requireWriteOrOwnSource_None)
        obtain t where t: "t \<in> set (sc_SourceUploadTokens cfg)" "ut_token t = ?token" "?token \<noteq> []" "ut_source t = source"
          using B Some by (auto simp: no_keys_def)
        obtain content where "st' = st\<lparr>sr_world := fst (RunSync (sc_SyncEngine cfg) i (Some content) (sr_world st))\<rparr>"
          using uploadAndSync_run [of cfg r st] src(1) False st' h by auto
        then have "by_upload_token cfg r st st'" 
          unfolding by_upload_token_def using t src(2,3)
          by (intro bexI [of _ t] conjI exI [of _ i] exI [of _ src] exI [of _ content]) simp_all
        then show ?thesis by simp
      qed
    qed
  qed
qed

section \<open>People\<close>

lemma personAuthMiddleware_Inr:
  assumes "sc_Verifier cfg = Some verify" "personAuthMiddleware cfg verify r no_keys w = (w', Inr ks)"
  shows "\<exists>caller. ky_caller ks = Some caller \<and> judged cfg r w w' caller"
proof -
  obtain raw where raw: "lb_CutBearerPrefix (sc_Library cfg) (rq_authorization r) = Some raw"
    using assms(2) by (auto simp: personAuthMiddleware_def split: option.splits)
  obtain actor where actor: "verify raw = Inr actor" "actor \<noteq> []"
    using assms(2) raw by (auto simp: personAuthMiddleware_def split: sum.splits VerifyError.splits if_splits)
  obtain w1 own where own: "GetUserTokens (sc_GroupSvc cfg) actor w = (w1, Inr own)"
    using assms(2) raw actor by (auto simp: personAuthMiddleware_def split: sum.splits prod.splits)
  obtain target where target: "lb_ActAs (sc_Library cfg) (rq_actAs r) actor (isAdmin (sc_AdminTokens cfg) own) = Inr target"
    using assms(2) raw actor own by (auto simp: personAuthMiddleware_def Let_def split: sum.splits ActAsError.splits)
  obtain toks where toks: "(if target \<noteq> actor then GetUserTokens (sc_GroupSvc cfg) target w1 else (w1, Inr own)) = (w', Inr toks)"
    "ks = no_keys\<lparr>ky_caller := Some \<lparr>cl_actor = actor, cl_behalf = (if target \<noteq> actor then target else []),
                        cl_tokens = toks, cl_admin = isAdmin (sc_AdminTokens cfg) toks\<rparr>,
                      ky_mayActAs := isAdmin (sc_AdminTokens cfg) own\<rparr>"
    using assms(2) raw actor own target by (auto simp: personAuthMiddleware_def Let_def split: sum.splits prod.splits)
  show ?thesis
    unfolding judged_def toks(2) using assms(1) raw actor own target toks(1) by (auto split: if_splits)
qed

text \<open>The state after the sign-in alone: the lookups of the two persons at most.\<close>

lemma GetUserTokens_looked_up: "looked_up svc w (fst (GetUserTokens svc email w))"
  by (auto simp: looked_up_def GetUserTokens_def Let_def bindS_def pureS_def readS_def ret_def split: option.splits)

definition signed_in :: "('s, 'c) SetupConfig \<Rightarrow> ('s, 'c) Server \<Rightarrow> ('s, 'c) Server \<Rightarrow> bool" where
  "signed_in cfg st st' \<longleftrightarrow> sr_sched st' = sr_sched st \<and>
     (\<exists>w1. looked_up (sc_GroupSvc cfg) (sr_world st) w1 \<and> looked_up (sc_GroupSvc cfg) w1 (sr_world st'))"

lemma personAuthMiddleware_looked_up:
  "\<exists>w1. looked_up (sc_GroupSvc cfg) w w1 \<and> looked_up (sc_GroupSvc cfg) w1 (fst (personAuthMiddleware cfg verify r ks w))"
proof -
  have same: "looked_up (sc_GroupSvc cfg) v v" for v by (simp add: looked_up_def)
  have got: "looked_up (sc_GroupSvc cfg) v v'" if "GetUserTokens (sc_GroupSvc cfg) email v = (v', res)" for v v' email res
    using GetUserTokens_looked_up [of "sc_GroupSvc cfg" v email] that by simp
  show ?thesis
    unfolding personAuthMiddleware_def Let_def
    by (auto split: option.split sum.split VerifyError.split ActAsError.split prod.split intro: same got)
qed

lemma manage_routes:
  assumes "(m, route, h) \<in> set (registerManageRoutes cfg)"
  shows "silent (h r ks caller) \<or> performs (sc_GroupSvc cfg) caller (h r ks caller)"
  using assms unfolding registerManageRoutes_def by (auto intro: silent_manage performs_manage)

lemma serve_manage_authority:
  assumes "serve_manage cfg r st = Some (st', resp)"
  shows "signed_in cfg st st' \<or> by_person cfg r st st'"
proof -
  obtain m route h verify where v: "sc_Verifier cfg = Some verify" and run: "(st', resp) = run_manage cfg verify r h st"
    and mem: "(m, route, h) \<in> set (registerManageRoutes cfg)"
    using serve_manage_Some [OF assms] by blast
  have same: "signed_in cfg st st" by (auto simp: signed_in_def looked_up_def)
  obtain w res where p: "personAuthMiddleware cfg verify r no_keys (sr_world st) = (w, res)" by force
  have step: "signed_in cfg st (st\<lparr>sr_world := w\<rparr>)"
    using personAuthMiddleware_looked_up [of cfg "sr_world st" verify r no_keys] by (simp add: signed_in_def p)
  show ?thesis
  proof (cases "lb_RejectCrossOriginWrites (sc_Library cfg) r")
    case (Some x)
    then show ?thesis using run same by (simp add: run_manage_def)
  next
    case None
    show ?thesis
    proof (cases res)
      case (Inl x)
      then show ?thesis using run None p step by (simp add: run_manage_def)
    next
      case (Inr ks)
      obtain caller where caller: "ky_caller ks = Some caller" "judged cfg r (sr_world st) w caller"
        using personAuthMiddleware_Inr [OF v p [unfolded Inr]] by blast
      have st': "st' = fst (h r ks caller (st\<lparr>sr_world := w\<rparr>))"
      proof -
        have "(st', resp) = answer (bindH (check (callerOf ks)) (\<lambda>caller. h r ks caller)) (st\<lparr>sr_world := w\<rparr>)"
          using run None p Inr by (simp add: run_manage_def)
        then have "st' = fst (bindH (check (callerOf ks)) (\<lambda>caller. h r ks caller) (st\<lparr>sr_world := w\<rparr>))" by (metis fst_answer fst_conv)
        then show ?thesis using caller(1) by (simp add: callerOf_def bindH_def check_def)
      qed
      have "performs (sc_GroupSvc cfg) caller (h r ks caller)" using manage_routes [OF mem] silent_performs by blast
      then have "sr_sched st' = sr_sched st \<and> (sr_world st' = w \<or> (\<exists>req resp. perform (sc_GroupSvc cfg) caller req w = (sr_world st', resp)))"
        unfolding performs_def st' by (elim allE [of _ "st\<lparr>sr_world := w\<rparr>"]) simp
      then show ?thesis using step caller(2) unfolding by_person_def signed_in_def by auto
    qed
  qed
qed

theorem SetupRouter_authority:
  assumes "SetupRouter cfg r st = (st', resp)"
  shows "signed_in cfg st st' \<or> by_write_token cfg r \<or> by_upload_token cfg r st st' \<or> by_person cfg r st st'"
proof -
  have same: "signed_in cfg st st" by (auto simp: signed_in_def looked_up_def)
  have un: "signed_in cfg st st'" if "unchanged cfg st st'" using that by (auto simp: unchanged_def signed_in_def looked_up_def)
  show ?thesis
  proof (cases "serve_manage cfg r st")
    case (Some x)
    then consider "st' = st" | "serve_manage cfg r st = Some (st', resp)" using assms by (auto simp: SetupRouter_def split: if_splits)
    then show ?thesis using serve_manage_authority same by cases blast+
  next
    case None
    then consider "st' = st" | "serve_api cfg r st = Some (st', resp)"
      using assms by (auto simp: SetupRouter_def split: if_splits option.splits)
    then show ?thesis using serve_api_authority un same by cases blast+
  qed
qed

end
