(* ===== verification/System.thy ===== *)
theory System
  imports RouterLaws
begin

text \<open>
  The whole service over the in-memory store, as a step relation: requests to the web server,
  scheduled syncs, the clock, the catalog's refresh. \<open>server_ok\<close> is its invariant: the data is well
  formed (\<open>view_ok\<close>), the local source exists, every group belongs to a source that exists, and the
  sources that run on a schedule are exactly those that are stored with it.

  \<open>installed\<close> says how the application wires the parts (\<open>RunApplication\<close>): one store for all of them
  and the cron package with the behaviour it documents; no Keycloak lookup. \<open>fresh_id\<close> is what
  \<open>uuid.New\<close> promises of its next result.
\<close>

definition installed :: "(MemoryStore, 'c) SetupConfig \<Rightarrow> bool" where
  "installed cfg \<longleftrightarrow> sv_ops (sc_GroupSvc cfg) = memory_ops \<and> sc_Store cfg = memory_ops
     \<and> eg_ops (sc_SyncEngine cfg) = memory_ops \<and> reads_valid (sc_SyncEngine cfg) \<and> still (eg_afterSync (sc_SyncEngine cfg))
     \<and> sv_lookup (sc_GroupSvc cfg) = None \<and> cron_laws (sc_Scheduler cfg)"

definition fresh_id :: "(MemoryStore, 'c) Server \<Rightarrow> bool" where
  "fresh_id st \<longleftrightarrow> lookup (sources (w_store (sr_world st))) (w_ids (sr_world st) 0) = None"

inductive system_step :: "(MemoryStore, 'c) SetupConfig \<Rightarrow> (MemoryStore, 'c) Server \<Rightarrow> (MemoryStore, 'c) Server \<Rightarrow> bool"
  for cfg where
  request: "fresh_id st \<Longrightarrow> SetupRouter cfg r st = (st', resp) \<Longrightarrow> system_step cfg st st'"
| scheduled: "cn_Entries (sc_Scheduler cfg) (sd_cron (sr_sched st)) e = Some (sched, j) \<Longrightarrow>
     RunSync (sc_SyncEngine cfg) j None (sr_world st) = (w, res) \<Longrightarrow> system_step cfg st (st\<lparr>sr_world := w\<rparr>)"
| clock: "w_now (sr_world st) \<le> now \<Longrightarrow> system_step cfg st (st\<lparr>sr_world := (sr_world st)\<lparr>w_now := now\<rparr>\<rparr>)"
| refreshed: "refreshCache (sc_GroupSvc cfg) (sr_world st) = (w, res) \<Longrightarrow> system_step cfg st (st\<lparr>sr_world := w\<rparr>)"

inductive reachable :: "(MemoryStore, 'c) SetupConfig \<Rightarrow> (MemoryStore, 'c) Server \<Rightarrow> (MemoryStore, 'c) Server \<Rightarrow> bool"
  for cfg st0 where
  started: "reachable cfg st0 st0"
| stepped: "reachable cfg st0 st \<Longrightarrow> system_step cfg st st' \<Longrightarrow> reachable cfg st0 st'"

section \<open>The invariant\<close>

definition sources_ok :: "uuid \<Rightarrow> StoreView \<Rightarrow> bool" where
  "sources_ok L v \<longleftrightarrow> (\<exists>src. v_sources v L = Some src \<and> s_type src = SourceTypeLocal)
     \<and> (\<forall>i g. v_groups v i = Some g \<longrightarrow> (\<exists>j. g_source g = Some j \<and> v_sources v j \<noteq> None))"

definition wanted :: "StoreView \<Rightarrow> uuid \<Rightarrow> string option" where
  "wanted v j = (case v_sources v j of None \<Rightarrow> None | Some src \<Rightarrow> if s_schedule src = [] then None else Some (s_schedule src))"

definition data_ok :: "uuid \<Rightarrow> MemoryStore \<Rightarrow> bool" where
  "data_ok L s \<longleftrightarrow> mem_ok s \<and> view_ok (mem_view s) \<and> sources_ok L (mem_view s)"

definition server_ok :: "(MemoryStore, 'c) SetupConfig \<Rightarrow> (MemoryStore, 'c) Server \<Rightarrow> bool" where
  "server_ok cfg st \<longleftrightarrow> data_ok (sv_local (sc_GroupSvc cfg)) (w_store (sr_world st))
     \<and> sched_ok (sc_Scheduler cfg) (sr_sched st)
     \<and> plan (sc_Scheduler cfg) (sr_sched st) = wanted (mem_view (w_store (sr_world st)))"

section \<open>Requests of the service\<close>

lemma allowed_step_sources:
  assumes "allowed_step L caller now v v'"
  shows "v_sources v' = v_sources v
    \<and> (\<forall>i g'. v_groups v' i = Some g' \<longrightarrow> g_source g' = Some L \<or> (\<exists>g. v_groups v i = Some g \<and> g_source g' = g_source g))"
  using assms
proof cases
  case (created g)
  then show ?thesis by (auto simp: only_managers_def spec_CreateGroup_def split: if_splits)
next
  case (updated i d desc)
  then show ?thesis by (auto simp: same_data_sel [OF updated(2)] spec_UpdateGroup_def split: if_splits)
next
  case (deleted i)
  then show ?thesis by (auto simp: same_data_sel [OF deleted(3)] spec_DeleteGroup_def split: if_splits)
next
  case (member_added i ty ex m r)
  then show ?thesis by (auto simp: same_data_sel [OF member_added(5)] spec_AddMember_def)
next
  case (member_removed i r ty m)
  then show ?thesis by (auto simp: same_data_sel [OF member_removed(2)] spec_RemoveMember_def)
next
  case (relation_changed i ty r m r')
  then show ?thesis by (auto simp: same_data_sel [OF relation_changed(3)] spec_ChangeRelation_def)
next
  case (manager_added i t)
  then show ?thesis by (auto simp: same_data_sel [OF manager_added(2)] spec_AddManager_def)
next
  case (manager_removed i t)
  then show ?thesis by (auto simp: same_data_sel [OF manager_removed(2)] spec_RemoveManager_def)
qed

lemma sources_ok_step: "allowed_step L caller now v v' \<Longrightarrow> sources_ok L v \<Longrightarrow> sources_ok L v'"
  using allowed_step_sources [of L caller now v v'] unfolding sources_ok_def by (metis option.distinct(1))

lemma wanted_cong: "v_sources v' = v_sources v \<Longrightarrow> wanted v' = wanted v"
  by (simp add: wanted_def fun_eq_iff)

lemma data_ok_perform:
  assumes "data_ok (sv_local svc) (w_store w)" "sv_ops svc = memory_ops" "perform svc caller req w = (w', r)"
  shows "data_ok (sv_local svc) (w_store w') \<and> wanted (mem_view (w_store w')) = wanted (mem_view (w_store w))"
proof -
  have ok: "mem_ok (w_store w)" "view_ok (mem_view (w_store w))" "sources_ok (sv_local svc) (mem_view (w_store w))"
    using assms(1) by (simp_all add: data_ok_def)
  show ?thesis
  proof (rule memory_request [OF ok(1) assms(2,3)])
    assume "w_store w' = w_store w"
    then show ?thesis using assms(1) by simp
  next
    assume s: "mem_ok (w_store w')" "allowed_step (sv_local svc) caller (w_now w) (mem_view (w_store w)) (mem_view (w_store w'))"
    show ?thesis
      using s(1) allowed_step_ok [OF s(2) ok(2)] sources_ok_step [OF s(2) ok(3)] allowed_step_sources [OF s(2)]
      by (auto simp: data_ok_def intro: wanted_cong simp del: mem_view_simps)
  qed
qed

section \<open>Sync runs\<close>

lemma run_recorded_schedule:
  assumes "run_recorded j v v'"
  shows "wanted v' = wanted v" "\<And>i. v_sources v' i \<noteq> None \<longleftrightarrow> v_sources v i \<noteq> None"
    "\<And>i src'. v_sources v' i = Some src' \<Longrightarrow> \<exists>src. v_sources v i = Some src \<and> s_type src' = s_type src"
    "\<And>i src. v_sources v i = Some src \<Longrightarrow> \<exists>src'. v_sources v' i = Some src' \<and> s_type src' = s_type src"
proof -
  have core: "map_option source_core (v_sources v' i) = map_option source_core (v_sources v i)" for i
    using assms unfolding run_recorded_def by blast
  have eq: "s_type src' = s_type src \<and> s_schedule src' = s_schedule src" if "source_core src' = source_core src" for src src'
    using arg_cong [OF that, of s_type] arg_cong [OF that, of s_schedule] by (simp add: source_core_def)
  have both: "(v_sources v' i = None \<and> v_sources v i = None) \<or>
      (\<exists>src src'. v_sources v i = Some src \<and> v_sources v' i = Some src' \<and> s_type src' = s_type src \<and> s_schedule src' = s_schedule src)" for i
  proof (cases "v_sources v i")
    case None
    then show ?thesis using core [of i] by simp
  next
    case (Some src)
    then obtain src' where s: "v_sources v' i = Some src'" "source_core src' = source_core src" using core [of i] by auto
    from Some s(1) eq [OF s(2)] show ?thesis by blast
  qed
  show "wanted v' = wanted v"
  proof
    fix i show "wanted v' i = wanted v i" using both [of i] by (elim disjE exE conjE) (simp_all add: wanted_def)
  qed
  show "v_sources v' i \<noteq> None \<longleftrightarrow> v_sources v i \<noteq> None" for i
    using both [of i] by (elim disjE exE conjE) simp_all
  show "\<exists>src. v_sources v i = Some src \<and> s_type src' = s_type src" if "v_sources v' i = Some src'" for i src'
    using both [of i] that by (elim disjE exE conjE) simp_all
  show "\<exists>src'. v_sources v' i = Some src' \<and> s_type src' = s_type src" if "v_sources v i = Some src" for i src
    using both [of i] that by (elim disjE exE conjE) simp_all
qed

lemma sources_ok_recorded:
  assumes "run_recorded j v v'" "sources_ok L v"
  shows "sources_ok L v'"
proof -
  have g: "v_groups v' = v_groups v" using assms(1) unfolding run_recorded_def by blast
  obtain src where src: "v_sources v L = Some src" "s_type src = SourceTypeLocal" using assms(2) unfolding sources_ok_def by blast
  obtain src' where "v_sources v' L = Some src'" "s_type src' = s_type src"
    using run_recorded_schedule(4) [OF assms(1) src(1)] by blast
  then show ?thesis
    using assms(2) src run_recorded_schedule(2) [OF assms(1)] unfolding sources_ok_def g by auto
qed

lemma sources_ok_ReplaceTuples:
  assumes "sources_ok L v" "v_sources v j \<noteq> None"
  shows "sources_ok L (spec_ReplaceTuples now j ts ds v)"
proof -
  have "\<exists>i'. g_source g = Some i' \<and> v_sources v i' \<noteq> None" if "replaced_groups now j ts ds v i = Some g" for i g
  proof -
    have "(if i \<in> p_group ` set ts then synced_group now j ds i (v_groups v i) else v_groups v i) = Some g"
      using that by (auto simp: replaced_groups_def split: option.splits if_splits)
    then have "g_source g = Some j \<or> (\<exists>g'. v_groups v i = Some g' \<and> g_source g = g_source g')"
      by (cases "v_groups v i") (auto simp: synced_group_def sync_group_def split: if_splits option.splits)
    then show ?thesis using assms unfolding sources_ok_def by metis
  qed
  then show ?thesis using assms(1) by (auto simp: sources_ok_def spec_ReplaceTuples_def)
qed

lemma data_ok_RunSync:
  assumes ok: "data_ok L (w_store w)" and eng: "eg_ops eng = memory_ops" "reads_valid eng" "still (eg_afterSync eng)"
    and run: "RunSync eng j content w = (w', r)"
  shows "data_ok L (w_store w') \<and> wanted (mem_view (w_store w')) = wanted (mem_view (w_store w))"
proof -
  let ?v = "mem_view (w_store w)" and ?v' = "mem_view (w_store w')"
  have o: "mem_ok (w_store w)" "view_ok ?v" "sources_ok L ?v" using ok by (simp_all add: data_ok_def)
  have o': "mem_ok (w_store w')" "view_ok ?v'" using view_ok_sync [OF o(1,2) eng run] by simp_all
  show ?thesis
  proof (cases "lookup (sources (w_store w)) j")
    case None
    then have "w' = w" using run by (simp add: RunSync_def bindS_readS eng(1) mem_GetSource_def)
    then show ?thesis using ok by simp
  next
    case (Some src)
    from memory.RunSync_run [OF o(1) eng o(2) run]
    consider "run_recorded j ?v ?v'" | ts ds where "run_recorded j (spec_ReplaceTuples (w_now w) j ts ds ?v) ?v'" by blast
    then show ?thesis
    proof cases
      case 1
      then show ?thesis using o' sources_ok_recorded [OF 1 o(3)] run_recorded_schedule(1) [OF 1] by (simp add: data_ok_def)
    next
      case 2
      have "sources_ok L (spec_ReplaceTuples (w_now w) j ts ds ?v)" using sources_ok_ReplaceTuples [OF o(3)] Some by simp
      moreover have "wanted (spec_ReplaceTuples (w_now w) j ts ds ?v) = wanted ?v"
        by (rule wanted_cong) (simp add: spec_ReplaceTuples_def)
      ultimately show ?thesis
        using o' sources_ok_recorded [OF 2] run_recorded_schedule(1) [OF 2] by (simp add: data_ok_def del: mem_view_simps)
    qed
  qed
qed

section \<open>Adopting\<close>

context store
begin

lemma keeps_record_change:
  "sv_ops svc = ops \<Longrightarrow> keeps (\<lambda>s. ok s \<and> same_data V (view s)) (record_change svc caller c)"
  unfolding keeps_def using record_change_run [OF _ _ prod.collapse [symmetric]] same_data_trans by blast

lemma keeps_refreshCache: "keeps P (refreshCache svc)"
  unfolding keeps_def using refreshCache_run [OF prod.collapse [symmetric]] by auto

lemma Adopt_run:
  assumes ok: "ok (w_store w)" and svc: "sv_ops svc = ops" and run: "Adopt svc caller jo detail w = (w', r)"
  shows "(\<exists>e. st_MoveToSource ops jo (sv_local svc) (w_store w) = Inl e \<and> w' = w \<and> r = Inl e)
    \<or> (\<exists>s is. st_MoveToSource ops jo (sv_local svc) (w_store w) = Inr (s, is) \<and> ok (w_store w')
         \<and> same_data (spec_MoveToSource jo (sv_local svc) (view (w_store w))) (view (w_store w')))"
proof (cases "st_MoveToSource ops jo (sv_local svc) (w_store w)")
  case (Inl e)
  then show ?thesis using run by (simp add: Adopt_def bindS_def writeR_def svc)
next
  case (Inr p)
  obtain s "is" where p: "p = (s, is)" by force
  let ?V = "spec_MoveToSource jo (sv_local svc) (view (w_store w))"
  have moved: "ok s" "view s = ?V" using MoveToSource [OF ok Inr [unfolded p]] by auto
  let ?m = "bindS (forS (\<lambda>i. record_change svc caller ((change i GroupAdopted)\<lparr>c_detail := detail\<rparr>)) is) (\<lambda>_.
     bindS (if length is > 0 then refreshCache svc else ret ()) (\<lambda>_. ret is))"
  have rest: "?m (w\<lparr>w_store := s\<rparr>) = (w', r)"
    using run Inr p by (simp add: Adopt_def bindS_def [of "writeR _"] writeR_def svc)
  have "keeps (\<lambda>s. ok s \<and> same_data ?V (view s)) ?m"
    by (intro keeps_intros keeps_record_change [OF svc] keeps_refreshCache)
  from keepsD [OF this _ rest] have "ok (w_store w') \<and> same_data ?V (view (w_store w'))"
    using moved by simp
  then show ?thesis using Inr p by blast
qed

end

section \<open>Sources\<close>

lemma server_okD:
  assumes "server_ok cfg st"
  shows "data_ok (sv_local (sc_GroupSvc cfg)) (w_store (sr_world st))" "sched_ok (sc_Scheduler cfg) (sr_sched st)"
    "plan (sc_Scheduler cfg) (sr_sched st) = wanted (mem_view (w_store (sr_world st)))"
  using assms by (simp_all add: server_ok_def)

lemma data_okD:
  assumes "data_ok L s"
  shows "mem_ok s" "view_ok (mem_view s)" "sources_ok L (mem_view s)"
  using assms by (simp_all add: data_ok_def)

text \<open>A source is stored under an id: what it says besides its type is of no account to the data.\<close>

lemma data_ok_put_source:
  assumes ok: "data_ok L s" and src: "s_id src = i" "\<And>old. lookup (sources s) i = Some old \<Longrightarrow> s_type src = s_type old"
  shows "data_ok L (s\<lparr>sources := put i src (sources s)\<rparr>)"
proof -
  note d = data_okD [OF ok]
  let ?s = "s\<lparr>sources := put i src (sources s)\<rparr>"
  have v: "mem_view ?s = (mem_view s)\<lparr>v_sources := v_sources (mem_view ?s)\<rparr>" by (simp add: mem_view_def)
  have view: "view_ok (mem_view ?s)" using d(2) by (subst v) (simp only: view_ok_sources)
  obtain l where l: "lookup (sources s) L = Some l" "s_type l = SourceTypeLocal" using d(3) by (auto simp: sources_ok_def)
  moreover have "s_type src = SourceTypeLocal" if "i = L" using src(2) l that by auto
  ultimately have "\<exists>src. v_sources (mem_view ?s) L = Some src \<and> s_type src = SourceTypeLocal" by (simp add: lookup_put)
  moreover have "v_groups (mem_view ?s) = v_groups (mem_view s)" by simp
  moreover have "v_sources (mem_view s) j \<noteq> None \<Longrightarrow> v_sources (mem_view ?s) j \<noteq> None" for j by (simp add: lookup_put)
  ultimately have "sources_ok L (mem_view ?s)" using d(3) unfolding sources_ok_def by metis
  with view show ?thesis using mem_ok_sources [OF d(1) src(1)] by (simp add: data_ok_def)
qed

lemma wanted_put_source:
  "wanted (mem_view (s\<lparr>sources := put i src (sources s)\<rparr>)) =
     (wanted (mem_view s))(i := (if s_schedule src = [] then None else Some (s_schedule src)))"
  by (auto simp: wanted_def fun_eq_iff lookup_put)

lemma data_ok_DeleteSource:
  assumes ok: "data_ok L s" and svc: "sv_ops svc = memory_ops" "sv_local svc = L" and i: "i \<noteq> L"
    and run: "Adopt svc caller None detail (w\<lparr>w_store := mem_DeleteSource i s\<rparr>) = (w', r)"
  shows "data_ok L (w_store w') \<and> wanted (mem_view (w_store w')) = (wanted (mem_view s))(i := None)"
proof -
  note d = data_okD [OF ok]
  let ?s = "mem_DeleteSource i s" and ?v = "mem_view s"
  have del: "mem_ok ?s" "mem_view ?s = spec_DeleteSource i ?v" using mem_DeleteSource_spec [OF d(1)] by simp_all
  have moved: "mem_ok (w_store w')" "same_data (spec_MoveToSource None L (spec_DeleteSource i ?v)) (mem_view (w_store w'))"
    using memory.Adopt_run [OF _ svc(1) run] del svc(2) by (auto simp del: mem_view_simps)
  have src: "v_sources (mem_view (w_store w')) = (v_sources ?v)(i := None)"
    using moved(2) by (simp add: same_data_sel spec_MoveToSource_def spec_DeleteSource_def del: mem_view_simps)
  have groups: "v_groups (mem_view (w_store w')) = v_groups (spec_MoveToSource None L (spec_DeleteSource i ?v))"
    using moved(2) by (simp add: same_data_sel del: mem_view_simps)
  have "\<exists>j. g_source g = Some j \<and> v_sources (mem_view (w_store w')) j \<noteq> None"
    if g: "v_groups (mem_view (w_store w')) k = Some g" for k g
  proof -
    let ?del = "\<lambda>x :: Group. if g_source x = Some i then x\<lparr>g_source := None\<rparr> else x"
    let ?move = "\<lambda>x :: Group. if g_source x = None then x\<lparr>g_source := Some L\<rparr> else x"
    have "map_option ?move (map_option ?del (v_groups ?v k)) = Some g"
      using g unfolding groups by (simp add: spec_MoveToSource_def spec_DeleteSource_def del: mem_view_simps option.map_comp)
    then obtain g1 where g1: "v_groups ?v k = Some g1" "g = ?move (?del g1)" by (cases "v_groups ?v k") simp_all
    then obtain g0 where g0: "v_groups ?v k = Some g0"
      "g_source g = (if g_source g0 = Some i \<or> g_source g0 = None then Some L else g_source g0)" by simp
    obtain j where j: "g_source g0 = Some j" "v_sources ?v j \<noteq> None" using d(3) g0(1) unfolding sources_ok_def by blast
    have "v_sources ?v L \<noteq> None" using d(3) unfolding sources_ok_def by blast
    then show ?thesis using g0(2) j i by (auto simp: src simp del: mem_view_simps)
  qed
  moreover have "view_ok (mem_view (w_store w'))"
    using view_ok_MoveToSource [OF view_ok_DeleteSource [OF d(2)]] same_data_ok [OF moved(2)] by blast
  ultimately have "data_ok L (w_store w')"
    using moved(1) d(3) i unfolding data_ok_def sources_ok_def src by auto
  moreover have "wanted (mem_view (w_store w')) = (wanted ?v)(i := None)"
    by (auto simp: wanted_def fun_eq_iff src simp del: mem_view_simps)
  ultimately show ?thesis by blast
qed

section \<open>Handlers\<close>

definition keepsH :: "(MemoryStore, 'c) SetupConfig \<Rightarrow> (MemoryStore, 'c, 'a) handler \<Rightarrow> bool" where
  "keepsH cfg h \<longleftrightarrow> (\<forall>st. server_ok cfg st \<longrightarrow> fresh_id st \<longrightarrow> server_ok cfg (fst (h st)))"

lemma keepsH_silent: "silent h \<Longrightarrow> keepsH cfg h"
  unfolding keepsH_def silent_def by (metis fst_conv)

lemma silent_run:
  assumes "silent m" "bindH m f st = (st', res)"
  obtains (ended) "st' = st" | (went_on) x where "m st = (st, Inr x)" "f x st = (st', res)"
proof -
  obtain r where "m st = (st, r)" using assms(1) by (auto simp: silent_def)
  with assms(2) that show thesis by (cases r) (auto simp: bindH_def)
qed

lemma keepsH_bind: "silent m \<Longrightarrow> (\<And>x. keepsH cfg (f x)) \<Longrightarrow> keepsH cfg (bindH m f)"
  unfolding keepsH_def by (metis prod.collapse silent_run)

lemma keepsH_performs:
  assumes "installed cfg" "performs (sc_GroupSvc cfg) caller h"
  shows "keepsH cfg h"
  unfolding keepsH_def
proof (intro allI impI)
  fix st assume ok: "server_ok cfg st"
  note d = server_okD [OF ok]
  have svc: "sv_ops (sc_GroupSvc cfg) = memory_ops" using assms(1) by (simp add: installed_def)
  have sched: "sr_sched (fst (h st)) = sr_sched st" using assms(2) unfolding performs_def by blast
  from assms(2) consider "sr_world (fst (h st)) = sr_world st"
    | req r where "perform (sc_GroupSvc cfg) caller req (sr_world st) = (sr_world (fst (h st)), r)"
    unfolding performs_def by blast
  then show "server_ok cfg (fst (h st))"
  proof cases
    case 1
    then show ?thesis using ok sched by (simp add: server_ok_def)
  next
    case 2
    then show ?thesis using data_ok_perform [OF d(1) svc 2] d sched by (simp add: server_ok_def)
  qed
qed

lemma server_ok_RunSync:
  assumes "installed cfg" "server_ok cfg st"
  shows "server_ok cfg (st\<lparr>sr_world := fst (RunSync (sc_SyncEngine cfg) j content (sr_world st))\<rparr>)"
  using data_ok_RunSync [OF server_okD(1) [OF assms(2)] _ _ _ prod.collapse [symmetric], of "sc_SyncEngine cfg" j content] assms
  by (simp add: server_ok_def installed_def)

lemma keepsH_RunSync:
  assumes "installed cfg" "\<And>x. silent (g x)"
  shows "keepsH cfg (bindH (call bad (RunSync (sc_SyncEngine cfg) j content)) g)"
  unfolding keepsH_def
proof (intro allI impI)
  fix st assume ok: "server_ok cfg st"
  obtain w r where m: "RunSync (sc_SyncEngine cfg) j content (sr_world st) = (w, r)" by force
  have "fst (bindH (call bad (RunSync (sc_SyncEngine cfg) j content)) g st) = st\<lparr>sr_world := w\<rparr>"
  proof (cases r)
    case (Inr x)
    obtain r' where "g x (st\<lparr>sr_world := w\<rparr>) = (st\<lparr>sr_world := w\<rparr>, r')" using assms(2) by (auto simp: silent_def)
    then show ?thesis using m Inr by (simp add: bindH_def call_def)
  qed (simp add: bindH_def call_def m)
  then show "server_ok cfg (fst (bindH (call bad (RunSync (sc_SyncEngine cfg) j content)) g st))"
    using server_ok_RunSync [OF assms(1) ok, of j content] m by simp
qed

lemma keepsH_uploadAndSync: "installed cfg \<Longrightarrow> keepsH cfg (uploadAndSync cfg r)"
  unfolding uploadAndSync_def by (intro keepsH_bind keepsH_RunSync quiet_intros)

lemma keepsH_triggerSync: "installed cfg \<Longrightarrow> keepsH cfg (triggerSync cfg r)"
  unfolding triggerSync_def by (intro keepsH_bind keepsH_RunSync quiet_intros)

text \<open>The scheduler follows what is stored.\<close>

lemma server_ok_registered:
  assumes cfg: "cron_laws (sc_Scheduler cfg)" and ok: "server_ok cfg st"
    and data: "data_ok (sv_local (sc_GroupSvc cfg)) (w_store w)"
    and want: "wanted (mem_view (w_store w)) = (wanted (mem_view (w_store (sr_world st))))(i \<mapsto> sched)"
    and parses: "cn_parses (sc_Scheduler cfg) sched"
  shows "server_ok cfg \<lparr>sr_world = w, sr_sched = fst (Register (sc_Scheduler cfg) i sched (sr_sched st))\<rparr>"
  using Register_plan [OF cfg server_okD(2) [OF ok] prod.collapse [symmetric], of i sched] data want parses server_okD(3) [OF ok]
  by (simp add: server_ok_def)

lemma server_ok_unregistered:
  assumes cfg: "cron_laws (sc_Scheduler cfg)" and ok: "server_ok cfg st"
    and data: "data_ok (sv_local (sc_GroupSvc cfg)) (w_store w)"
    and want: "wanted (mem_view (w_store w)) = (wanted (mem_view (w_store (sr_world st))))(i := None)"
  shows "server_ok cfg \<lparr>sr_world = w, sr_sched = Unregister (sc_Scheduler cfg) i (sr_sched st)\<rparr>"
  using Unregister_plan [OF cfg server_okD(2) [OF ok], of i] data want server_okD(3) [OF ok] by (simp add: server_ok_def)

lemma silent_valid_schedule [quiet_intros]: "silent (valid_schedule cfg sched)"
  unfolding valid_schedule_def by (intro quiet_intros)

lemma silent_reservedNames [quiet_intros]: "silent (reservedNames cfg i globs)"
  unfolding reservedNames_def by (intro quiet_intros)

lemma silent_changeableSource [quiet_intros]: "silent (changeableSource cfg i)"
  unfolding changeableSource_def by (intro quiet_intros)

lemma valid_schedule_Inr: "valid_schedule cfg sched st = (st', Inr u) \<Longrightarrow> sched = [] \<or> cn_parses (sc_Scheduler cfg) sched"
  by (auto simp: valid_schedule_def check_def ValidateSchedule_def split: if_splits)

lemma changeableSource_Inr:
  assumes "sc_Store cfg = memory_ops" "changeableSource cfg i st = (st', Inr src)"
  shows "lookup (sources (w_store (sr_world st))) i = Some src \<and> s_type src \<noteq> SourceTypeLocal"
  using assms by (auto simp: changeableSource_def bindH_def call_def readS_def check_def mem_GetSource_def
      split: option.splits if_splits)

lemma installedD:
  assumes "installed cfg"
  shows "sv_ops (sc_GroupSvc cfg) = memory_ops" "sc_Store cfg = memory_ops" "cron_laws (sc_Scheduler cfg)"
    "sv_lookup (sc_GroupSvc cfg) = None"
  using assms by (simp_all add: installed_def)

lemma local_source:
  assumes "data_ok L s"
  shows "\<exists>src. lookup (sources s) L = Some src \<and> s_type src = SourceTypeLocal"
  using data_okD(3) [OF assms] by (simp add: sources_ok_def)

definition keeps_at :: "(MemoryStore, 'c) SetupConfig \<Rightarrow> (MemoryStore, 'c) Server \<Rightarrow> (MemoryStore, 'c, 'a) handler \<Rightarrow> bool" where
  "keeps_at cfg st h \<longleftrightarrow> (server_ok cfg st \<longrightarrow> fresh_id st \<longrightarrow> server_ok cfg (fst (h st)))"

lemma keeps_at_bind:
  assumes "silent m" "\<And>x. m st = (st, Inr x) \<Longrightarrow> keeps_at cfg st (f x)"
  shows "keeps_at cfg st (bindH m f)"
proof -
  obtain r where m: "m st = (st, r)" using assms(1) by (auto simp: silent_def)
  then show ?thesis using assms(2) by (cases r) (auto simp: keeps_at_def bindH_def)
qed

lemma keepsH_at: "(\<And>st. keeps_at cfg st h) \<Longrightarrow> keepsH cfg h"
  by (simp add: keepsH_def keeps_at_def)

lemma storeSource_keeps:
  assumes cfg: "installed cfg" and valid: "so_schedule req = [] \<or> cn_parses (sc_Scheduler cfg) (so_schedule req)"
    and nonlocal: "typ \<noteq> SourceTypeLocal"
  shows "keeps_at cfg st (storeSource cfg req typ reserved)"
  unfolding keeps_at_def
proof (intro impI)
  assume ok: "server_ok cfg st" and fresh: "fresh_id st"
  let ?s = "w_store (sr_world st)" and ?i = "w_ids (sr_world st) 0"
  note d = server_okD [OF ok] and c = installedD [OF cfg]
  define src where "src = \<lparr>s_id = ?i, s_name = so_name req, s_type = typ, s_schedule = so_schedule req, s_dn_regexp = so_dn_regexp req,
      s_rel_regexp = so_rel_regexp req, s_file_path = so_file_path req, s_last_synced = None, s_last_status = [],
      s_created = w_now (sr_world st), s_updated = w_now (sr_world st), s_reserved = reserved\<rparr>"
  define w where "w = (sr_world st)\<lparr>w_ids := \<lambda>n. w_ids (sr_world st) (Suc n), w_store := ?s\<lparr>sources := put ?i src (sources ?s)\<rparr>\<rparr>"
  have none: "lookup (sources ?s) ?i = None" using fresh by (simp add: fresh_id_def)
  have data: "data_ok (sv_local (sc_GroupSvc cfg)) (w_store w)"
    using data_ok_put_source [OF d(1), of src ?i] none by (simp add: w_def src_def)
  have want: "wanted (mem_view (w_store w)) = (wanted (mem_view ?s))(?i := (if so_schedule req = [] then None else Some (so_schedule req)))"
    by (simp add: w_def wanted_put_source src_def del: mem_view_simps)
  have run: "fst (storeSource cfg req typ reserved st) =
      (if so_schedule req = [] then st\<lparr>sr_world := w\<rparr>
       else \<lparr>sr_world = w, sr_sched = fst (Register (sc_Scheduler cfg) ?i (so_schedule req) (sr_sched st))\<rparr>)"
    by (simp add: storeSource_def bindH_def call_def drawID_def writeS_def c(2) mem_CreateSource_def schedule_def check_def reply_def
        src_def w_def Let_def split: prod.split sum.split)
  show "server_ok cfg (fst (storeSource cfg req typ reserved st))"
  proof (cases "so_schedule req = []")
    case True
    have "wanted (mem_view ?s) ?i = None" using none by (simp add: wanted_def)
    then have "wanted (mem_view (w_store w)) = wanted (mem_view ?s)" using want True by auto
    then show ?thesis using True data d by (simp add: run server_ok_def)
  next
    case False
    then show ?thesis using server_ok_registered [OF c(3) ok data, of ?i "so_schedule req"] want valid by (simp add: run)
  qed
qed

lemma keepsH_createSource: "installed cfg \<Longrightarrow> keepsH cfg (createSource cfg r)"
  unfolding createSource_def Let_def
  by (intro keepsH_at keeps_at_bind quiet_intros storeSource_keeps)
    (auto simp: check_def dest!: valid_schedule_Inr split: if_splits)

lemma storeUpdate_keeps:
  assumes cfg: "installed cfg" and valid: "s_schedule upd = [] \<or> cn_parses (sc_Scheduler cfg) (s_schedule upd)"
    and old: "lookup (sources (w_store (sr_world st))) i = Some old" "s_id upd = i" "s_type upd = s_type old"
  shows "keeps_at cfg st (storeUpdate cfg i upd)"
  unfolding keeps_at_def
proof (intro impI)
  assume ok: "server_ok cfg st"
  let ?s = "w_store (sr_world st)"
  note d = server_okD [OF ok] and c = installedD [OF cfg]
  define src where "src = old\<lparr>s_name := s_name upd, s_schedule := s_schedule upd, s_dn_regexp := s_dn_regexp upd,
      s_rel_regexp := s_rel_regexp upd, s_file_path := s_file_path upd, s_reserved := s_reserved upd, s_updated := w_now (sr_world st)\<rparr>"
  define w where "w = (sr_world st)\<lparr>w_store := ?s\<lparr>sources := put i src (sources ?s)\<rparr>\<rparr>"
  have "s_id old = i" using mem_okD(6) [OF data_okD(1) [OF d(1)] old(1)] .
  then have data: "data_ok (sv_local (sc_GroupSvc cfg)) (w_store w)"
    using data_ok_put_source [OF d(1), of src i] old(1) by (simp add: w_def src_def)
  have want: "wanted (mem_view (w_store w)) = (wanted (mem_view ?s))(i := (if s_schedule upd = [] then None else Some (s_schedule upd)))"
    by (simp add: w_def wanted_put_source src_def del: mem_view_simps)
  have run: "fst (storeUpdate cfg i upd st) =
      (if s_schedule upd = [] then \<lparr>sr_world = w, sr_sched = Unregister (sc_Scheduler cfg) i (sr_sched st)\<rparr>
       else \<lparr>sr_world = w, sr_sched = fst (Register (sc_Scheduler cfg) i (s_schedule upd) (sr_sched st))\<rparr>)"
    by (simp add: storeUpdate_def bindH_def call_def writeS_def readS_def c(2) mem_UpdateSource_def mem_GetSource_def old(1,2)
        schedule_def reply_def src_def w_def lookup_put split: prod.split sum.split)
  show "server_ok cfg (fst (storeUpdate cfg i upd st))"
    by (cases "s_schedule upd = []")
      (use server_ok_registered [OF c(3) ok data, of i "s_schedule upd"] server_ok_unregistered [OF c(3) ok data, of i] want valid
        in \<open>simp_all add: run\<close>)
qed

lemma keepsH_updateSource: "installed cfg \<Longrightarrow> keepsH cfg (updateSource cfg r)"
  unfolding updateSource_def
proof (intro keepsH_at keeps_at_bind quiet_intros)
  fix st i req u src reserved
  assume cfg: "installed cfg" and v: "valid_schedule cfg (so_schedule req) st = (st, Inr u)" and s: "changeableSource cfg i st = (st, Inr src)"
  note old = changeableSource_Inr [OF installedD(2) [OF cfg] s]
  show "keeps_at cfg st (storeUpdate cfg i (src\<lparr>s_name := so_name req, s_schedule := so_schedule req, s_dn_regexp := so_dn_regexp req,
                   s_rel_regexp := so_rel_regexp req, s_file_path := so_file_path req, s_reserved := reserved\<rparr>))"
    unfolding keeps_at_def
  proof (intro impI)
    assume ok: "server_ok cfg st" "fresh_id st"
    have "s_id src = i" using mem_okD(6) [OF data_okD(1) [OF server_okD(1) [OF ok(1)]]] old by blast
    then show "server_ok cfg (fst (storeUpdate cfg i (src\<lparr>s_name := so_name req, s_schedule := so_schedule req, s_dn_regexp := so_dn_regexp req,
                   s_rel_regexp := so_rel_regexp req, s_file_path := so_file_path req, s_reserved := reserved\<rparr>) st))"
      using storeUpdate_keeps [OF cfg, of "src\<lparr>s_name := so_name req, s_schedule := so_schedule req, s_dn_regexp := so_dn_regexp req,
          s_rel_regexp := so_rel_regexp req, s_file_path := so_file_path req, s_reserved := reserved\<rparr>" st i src] old valid_schedule_Inr [OF v] ok
      by (simp add: keeps_at_def)
  qed
qed

lemma dropSource_keeps:
  assumes cfg: "installed cfg" and src: "lookup (sources (w_store (sr_world st))) i = Some src" "s_type src \<noteq> SourceTypeLocal"
  shows "keeps_at cfg st (dropSource cfg i src)"
  unfolding keeps_at_def
proof (intro impI)
  assume ok: "server_ok cfg st"
  let ?s = "w_store (sr_world st)" and ?detail = "''source '' @ s_name src @ '' was deleted''"
  note d = server_okD [OF ok] and c = installedD [OF cfg]
  obtain w r where a: "Adopt (sc_GroupSvc cfg) APITokenCaller None ?detail ((sr_world st)\<lparr>w_store := mem_DeleteSource i ?s\<rparr>) = (w, r)"
    by force
  have "i \<noteq> sv_local (sc_GroupSvc cfg)" using local_source [OF d(1)] src by auto
  from data_ok_DeleteSource [OF d(1) c(1) refl this a]
  have "server_ok cfg \<lparr>sr_world = w, sr_sched = Unregister (sc_Scheduler cfg) i (sr_sched st)\<rparr>"
    using server_ok_unregistered [OF c(3) ok] by blast
  moreover have "fst (dropSource cfg i src st) = \<lparr>sr_world = w, sr_sched = Unregister (sc_Scheduler cfg) i (sr_sched st)\<rparr>"
    using a by (simp add: dropSource_def bindH_def call_def writeS_def schedule_def reply_def c(2) split: sum.split)
  ultimately show "server_ok cfg (fst (dropSource cfg i src st))" by simp
qed

lemma keepsH_deleteSource: "installed cfg \<Longrightarrow> keepsH cfg (deleteSource cfg r)"
  unfolding deleteSource_def
  by (intro keepsH_at keeps_at_bind quiet_intros dropSource_keeps) (auto dest!: changeableSource_Inr [OF installedD(2)])

section \<open>Steps\<close>

lemma performs_api:
  "performs (sc_GroupSvc cfg) APITokenCaller (createGroup cfg r)" "performs (sc_GroupSvc cfg) APITokenCaller (updateGroup cfg r)"
  "performs (sc_GroupSvc cfg) APITokenCaller (deleteGroup cfg r)" "performs (sc_GroupSvc cfg) APITokenCaller (addMember cfg r)"
  "performs (sc_GroupSvc cfg) APITokenCaller (removeMember cfg r)"
  unfolding createGroup_def updateGroup_def deleteGroup_def addMember_def removeMember_def Let_def
  by (intro performs_check performs_call, rule perform_fst, intro quiet_intros)+

lemma reads_keeps:
  assumes "installed cfg" "reads (sc_GroupSvc cfg) h"
  shows "keepsH cfg h"
  using assms by (simp add: keepsH_def reads_def looked_up_def installedD server_ok_def)

lemma api_routes_keep:
  assumes "installed cfg" "(m, route, g, h) \<in> set (api_routes cfg)"
  shows "keepsH cfg (h r)"
  using assms(2) keepsH_performs [OF assms(1) performs_api(1)] keepsH_performs [OF assms(1) performs_api(2)]
    keepsH_performs [OF assms(1) performs_api(3)] keepsH_performs [OF assms(1) performs_api(4)]
    keepsH_performs [OF assms(1) performs_api(5)] keepsH_createSource [OF assms(1)] keepsH_updateSource [OF assms(1)]
    keepsH_deleteSource [OF assms(1)] keepsH_uploadAndSync [OF assms(1)] keepsH_triggerSync [OF assms(1)]
    reads_keeps [OF assms(1) reads_getUserTokens] silent_api [THEN keepsH_silent]
  unfolding registerGroupRoutes_def registerUserRoutes_def registerSyncRoutes_def registerAdminRoutes_def
  by auto

lemma server_ok_api:
  assumes cfg: "installed cfg" and ok: "server_ok cfg st" "fresh_id st" and run: "serve_api cfg r st = Some (st', resp)"
  shows "server_ok cfg st'"
proof -
  obtain m route g h where x: "(st', resp) = run_api cfg r g h st" "(m, route, g, h) \<in> set (api_routes cfg)"
    using serve_api_Some [OF run] by blast
  then have "st' = st \<or> st' = fst (h r st)"
    by (auto simp: run_api_def answer_def split: option.splits sum.splits prod.splits)
  then show ?thesis using ok api_routes_keep [OF cfg x(2), of r] by (auto simp: keepsH_def)
qed

lemma server_ok_manage:
  assumes cfg: "installed cfg" and ok: "server_ok cfg st" and run: "serve_manage cfg r st = Some (st', resp)"
  shows "server_ok cfg st'"
proof -
  have none: "sv_lookup (sc_GroupSvc cfg) = None" by (rule installedD [OF cfg])
  from serve_manage_authority [OF run] show ?thesis
  proof
    assume "signed_in cfg st st'"
    then have "st' = st" by (cases st; cases st') (auto simp: signed_in_def looked_up_def none)
    then show ?thesis using ok by simp
  next
    assume "by_person cfg r st st'"
    then obtain caller w req resp where p: "sr_sched st' = sr_sched st" "judged cfg r (sr_world st) w caller"
      "perform (sc_GroupSvc cfg) caller req w = (sr_world st', resp)" unfolding by_person_def by blast
    have same: "w' = w" if "GetUserTokens (sc_GroupSvc cfg) email w = (w', r)" for email w w' r
      using GetUserTokens_looked_up [of "sc_GroupSvc cfg" w email] that by (simp add: looked_up_def none)
    have "w = sr_world st" using p(2) unfolding judged_def by (auto split: if_splits dest!: same)
    then show ?thesis using data_ok_perform [OF _ installedD(1) [OF cfg] p(3)] server_okD [OF ok] p(1) by (simp add: server_ok_def)
  qed
qed

lemma server_ok_step:
  assumes cfg: "installed cfg" and step: "system_step cfg st st'" and ok: "server_ok cfg st"
  shows "server_ok cfg st'"
  using step
proof cases
  case (request r resp)
  from request(2) consider "st' = st" | "serve_manage cfg r st = Some (st', resp)" | "serve_api cfg r st = Some (st', resp)"
    by (auto simp: SetupRouter_def split: if_splits option.splits)
  then show ?thesis
  proof cases
    case 1 then show ?thesis using ok by simp
  next
    case 2 then show ?thesis by (rule server_ok_manage [OF cfg ok])
  next
    case 3 then show ?thesis by (rule server_ok_api [OF cfg ok request(1)])
  qed
next
  case (scheduled e sched j w res)
  then show ?thesis using server_ok_RunSync [OF cfg ok, of j None] by simp
next
  case (clock now)
  then show ?thesis using ok by (simp add: server_ok_def)
next
  case (refreshed w res)
  then show ?thesis using ok memory.refreshCache_run [OF refreshed(2)] by (simp add: server_ok_def)
qed

lemma server_ok_reachable:
  assumes "reachable cfg st0 st" "installed cfg" "server_ok cfg st0"
  shows "server_ok cfg st"
  using assms by induction (auto intro: server_ok_step)

end
