(* ===== verification/KeycloakSource.thy ===== *)
theory KeycloakSource
  imports KeycloakMapping EngineLaws
begin

text \<open>
  \<open>internal/keycloak/source.go\<close> and \<open>client.go\<close>: the full read of everybody (\<open>Fetch\<close>), the single read of
  somebody the last full read did not know (\<open>EnsureUser\<close>), and the client's paging and cached token.
  What Keycloak answers is a parameter: the users, one page of them, a token. Requests and JSON are not
  modelled, nor the time limits.

  The lemmas: what \<open>Fetch\<close> gives meets what the sync engine asks of its reader; \<open>EnsureUser\<close> looks
  nobody up twice within \<open>retryAfter\<close>, and writes entries of its source without asking who owns the group.
\<close>

record KcUser =
  u_email :: string
  u_enabled :: bool
  u_attributes :: "string \<Rightarrow> string list"

record KcSource =
  ks_mapping :: Mapping
  ks_source_id :: "uuid option"
  ks_known :: "string list"
  ks_tried :: "(string, time) gomap"

definition retryAfter :: time where "retryAfter = 10 * 60 * 1000000000"

definition NewSource :: "Mapping \<Rightarrow> KcSource" where
  "NewSource m = \<lparr>ks_mapping = m, ks_source_id = None, ks_known = [], ks_tried = []\<rparr>"

definition SetSourceID :: "uuid \<Rightarrow> KcSource \<Rightarrow> KcSource" where
  "SetSourceID i s = s\<lparr>ks_source_id := Some i\<rparr>"

section \<open>Fetch\<close>

record Fetched =
  f_tuples :: "TuplePair list"
  f_known :: "string list"
  f_unmapped :: Unmapped
  f_invalid :: nat

definition fetch_user :: "Mapping \<Rightarrow> KcUser \<Rightarrow> Fetched \<Rightarrow> Fetched" where
  "fetch_user m u f =
     (let email = NormalizeID (u_email u) in
      if email = [] \<or> \<not> u_enabled u then f
      else if ValidateEmail email \<noteq> Inr () then f\<lparr>f_invalid := f_invalid f + 1\<rparr>
      else let (ts, unmapped) = Derive m email (u_attributes u (mp_attribute m)) (f_unmapped f)
           in f\<lparr>f_known := List.insert email (f_known f), f_tuples := f_tuples f @ ts, f_unmapped := unmapped\<rparr>)"

definition skipped_note :: "nat \<Rightarrow> string" where
  "skipped_note n = ''skipped '' @ decimal n @ '' user(s) whose e-mail address is not a plain address''"

definition Fetch :: "error + KcUser list \<Rightarrow> KcSource \<Rightarrow> KcSource \<times> (error + TuplePair list \<times> (string, string) gomap \<times> string list)" where
  "Fetch users s =
     (case users of Inl e \<Rightarrow> (s, Inl e)
      | Inr us \<Rightarrow>
        (let f = fold (fetch_user (ks_mapping s)) us \<lparr>f_tuples = [], f_known = [], f_unmapped = newUnmapped, f_invalid = 0\<rparr>;
             notes = Notes (f_unmapped f)
         in (s\<lparr>ks_known := f_known f, ks_tried := []\<rparr>,
             Inr (f_tuples f, Descriptions (ks_mapping s), if f_invalid f > 0 then notes @ [skipped_note (f_invalid f)] else notes))))"

lemma fetch_user_tuples:
  "f_tuples (fetch_user m u f) = f_tuples f @ (let email = NormalizeID (u_email u) in
     if email = [] \<or> \<not> u_enabled u \<or> ValidateEmail email \<noteq> Inr () then []
     else fst (Derive m email (u_attributes u (mp_attribute m)) (f_unmapped f)))"
  by (simp add: fetch_user_def Let_def split: prod.split)

lemma fetch_users_set:
  "t \<in> set (f_tuples (fold (fetch_user m) us f)) \<longleftrightarrow> t \<in> set (f_tuples f) \<or>
     (\<exists>u \<in> set us. u_enabled u \<and> ValidateEmail (NormalizeID (u_email u)) = Inr () \<and> p_type t = ''user''
        \<and> p_member t = NormalizeID (u_email u) \<and> derives m (u_attributes u (mp_attribute m)) (p_group t) (p_relation t))"
proof (induction us arbitrary: f)
  case (Cons u us)
  have "NormalizeID (u_email u) = [] \<Longrightarrow> ValidateEmail (NormalizeID (u_email u)) \<noteq> Inr ()"
    using ValidateEmail_chars(2) by blast
  with Cons show ?case by (auto simp: fetch_user_tuples Let_def Derive_set)
qed simp

text \<open>Exactly the memberships of everybody who is enabled and has a plain address.\<close>

lemma Fetch_set:
  assumes "snd (Fetch (Inr us) s) = Inr (ts, ds, ns)"
  shows "t \<in> set ts \<longleftrightarrow> (\<exists>u \<in> set us. u_enabled u \<and> ValidateEmail (NormalizeID (u_email u)) = Inr () \<and> p_type t = ''user''
        \<and> p_member t = NormalizeID (u_email u)
        \<and> derives (ks_mapping s) (u_attributes u (mp_attribute (ks_mapping s))) (p_group t) (p_relation t))"
  using assms fetch_users_set [of t "ks_mapping s" us] by (auto simp: Fetch_def Let_def)

lemma Fetch_valid:
  assumes "snd (Fetch users s) = Inr (ts, ds, ns)" "mapping_ok rels (ks_mapping s)" "RelationMember \<in> set (allowed rels)"
    and "t \<in> set ts"
  shows "ValidateTuple t = Inr () \<and> p_relation t \<in> set (allowed rels) \<and> p_group t \<in> set (MappedGroups (ks_mapping s))"
proof -
  obtain us where us: "users = Inr us" using assms(1) by (cases users) (auto simp: Fetch_def)
  from Fetch_set [OF assms(1) [unfolded us], THEN iffD1, OF assms(4)] obtain u :: KcUser where
    u: "ValidateEmail (NormalizeID (u_email u)) = Inr ()" "p_type t = ''user''" "p_member t = NormalizeID (u_email u)"
      "derives (ks_mapping s) (u_attributes u (mp_attribute (ks_mapping s))) (p_group t) (p_relation t)" by blast
  then have "t \<in> set (fst (Derive (ks_mapping s) (NormalizeID (u_email u)) (u_attributes u (mp_attribute (ks_mapping s))) newUnmapped))"
    by (simp add: Derive_set)
  from Derive_valid [OF assms(2,3) u(1) this] show ?thesis by blast
qed

text \<open>Plugged into the sync engine, it is the reader the engine relies on.\<close>

lemma Fetch_reads_valid:
  assumes "mapping_ok rels (ks_mapping s)" "RelationMember \<in> set (allowed rels)"
  shows "reads_valid (eng\<lparr>eg_keycloak := Some (snd (Fetch users s))\<rparr>)"
  using Fetch_valid [OF _ assms] ValidateTuple_shape by (fastforce simp: reads_valid_def)

section \<open>EnsureUser\<close>

text \<open>Entering one membership after the other; the first failure ends it (\<open>False\<close>).\<close>

fun ensure_loop :: "'s StoreOps \<Rightarrow> uuid option \<Rightarrow> TuplePair list \<Rightarrow> 's World \<Rightarrow> 's World \<times> bool" where
  "ensure_loop ops sourceID [] w = (w, True)"
| "ensure_loop ops sourceID (t # ts) w =
     (case bindS drawID (\<lambda>new. writeS (\<lambda>now. st_AddMember ops now new (p_group t) (p_relation t) (p_type t) (p_member t) sourceID None)) w of
        (w', Inl _) \<Rightarrow> (w', False)
      | (w', Inr _) \<Rightarrow> ensure_loop ops sourceID ts w')"

definition recently_tried :: "time \<Rightarrow> (string, time) gomap \<Rightarrow> string \<Rightarrow> bool" where
  "recently_tried now tried email \<longleftrightarrow> (case lookup tried email of None \<Rightarrow> False | Some t \<Rightarrow> now - t < retryAfter)"

definition EnsureUser :: "'s StoreOps \<Rightarrow> (string \<Rightarrow> error + KcUser option) \<Rightarrow> string \<Rightarrow> KcSource \<times> 's World \<Rightarrow> KcSource \<times> 's World" where
  "EnsureUser ops ask email sw =
     (let (s, w) = sw; email = NormalizeID email in
      if ValidateEmail email \<noteq> Inr () then (s, w)
      else if ks_source_id s = None \<or> email \<in> set (ks_known s) \<or> recently_tried (w_now w) (ks_tried s) email then (s, w)
      else let s = s\<lparr>ks_tried := put email (w_now w) (ks_tried s)\<rparr> in
        case ask email of
          Inl _ \<Rightarrow> (s, w)
        | Inr None \<Rightarrow> (s, w)
        | Inr (Some u) \<Rightarrow>
          if \<not> u_enabled u then (s, w)
          else let ts = fst (Derive (ks_mapping s) email (u_attributes u (mp_attribute (ks_mapping s))) newUnmapped) in
            case ensure_loop ops (ks_source_id s) ts w of
              (w', False) \<Rightarrow> (s, w')
            | (w', True) \<Rightarrow> (s\<lparr>ks_known := List.insert email (ks_known s)\<rparr>, w'))"

text \<open>Whoever was looked up is not looked up again before \<open>retryAfter\<close> has passed: Keycloak is not even asked.\<close>

lemma EnsureUser_tried:
  assumes "EnsureUser ops ask email (s, w) = (s', w')" "ks_source_id s \<noteq> None" "ValidateEmail (NormalizeID email) = Inr ()"
  shows "NormalizeID email \<in> set (ks_known s') \<or> recently_tried (w_now w) (ks_tried s') (NormalizeID email)"
proof -
  let ?e = "NormalizeID email"
  have r: "recently_tried now (put ?e now (ks_tried s)) ?e" for now
    by (simp add: recently_tried_def retryAfter_def)
  show ?thesis using assms r [of "w_now w"]
    by (auto simp: EnsureUser_def Let_def split: if_splits sum.splits option.splits prod.splits bool.splits)
qed

lemma EnsureUser_quiet:
  assumes "NormalizeID email \<in> set (ks_known s) \<or> recently_tried (w_now w) (ks_tried s) (NormalizeID email)"
  shows "EnsureUser ops ask email (s, w) = (s, w)"
  using assms by (auto simp: EnsureUser_def Let_def)

section \<open>The client\<close>

definition pageSize :: nat where "pageSize = 100"

text \<open>The loop of \<open>ListUsers\<close> ends when a page is not full, which the server decides.\<close>

partial_function (option) list_pages :: "(nat \<Rightarrow> error + KcUser list) \<Rightarrow> nat \<Rightarrow> KcUser list \<Rightarrow> (error + KcUser list) option" where
  "list_pages page first all =
     (case page first of Inl e \<Rightarrow> Some (Inl e)
      | Inr us \<Rightarrow> if length us < pageSize then Some (Inr (all @ us)) else list_pages page (first + pageSize) (all @ us))"

definition ListUsers :: "(nat \<Rightarrow> error + KcUser list) \<Rightarrow> (error + KcUser list) option" where
  "ListUsers page = list_pages page 0 []"

text \<open>Over a server that pages through one list it ends with exactly that list.\<close>

definition serves :: "KcUser list \<Rightarrow> nat \<Rightarrow> error + KcUser list" where
  "serves us first = Inr (take pageSize (drop first us))"

lemma list_pages_serves: "list_pages (serves us) first (take first us) = Some (Inr us)"
proof (induction "length us - first" arbitrary: first rule: less_induct)
  case less
  show ?case
  proof (cases "length (take pageSize (drop first us)) < pageSize")
    case True
    then have "take pageSize (drop first us) = drop first us" by simp
    with True show ?thesis by (subst list_pages.simps) (simp add: serves_def)
  next
    case False
    then have l: "length us - (first + pageSize) < length us - first" by (auto simp: pageSize_def)
    have "take first us @ take pageSize (drop first us) = take (first + pageSize) us" by (simp add: take_add)
    with False less [OF l] show ?thesis by (subst list_pages.simps) (simp add: serves_def)
  qed
qed

lemma ListUsers_serves: "ListUsers (serves us) = Some (Inr us)"
  using list_pages_serves [of us 0] by (simp add: ListUsers_def)

definition FindUserByEmail :: "(string \<Rightarrow> error + KcUser list) \<Rightarrow> string \<Rightarrow> error + KcUser option" where
  "FindUserByEmail get email =
     bindE (get email) (\<lambda>us. Inr (find (\<lambda>u. to_lower (u_email u) = to_lower email) us))"

text \<open>The cached token: asked for anew from half a minute before it ends, at the earliest after ten seconds.\<close>

record KcToken =
  kt_token :: string
  kt_expires :: time

definition accessToken :: "(error + string \<times> int) \<Rightarrow> time \<Rightarrow> KcToken \<Rightarrow> KcToken \<times> (error + string)" where
  "accessToken post now c =
     (if kt_token c \<noteq> [] \<and> now < kt_expires c then (c, Inr (kt_token c))
      else case post of Inl e \<Rightarrow> (c, Inl e)
        | Inr (tok, expiresIn) \<Rightarrow>
            if tok = [] then (c, Inl (ErrText ''keycloak token''))
            else (\<lparr>kt_token = tok, kt_expires = now + max (expiresIn - 30) 10 * 1000000000\<rparr>, Inr tok))"

section \<open>What EnsureUser writes\<close>

definition tuple_entry_key :: "TuplePair \<Rightarrow> TupleKey" where
  "tuple_entry_key t = entry_key (p_group t) (p_relation t) (p_type t) (p_member t)"

text \<open>
  \<open>only_entered ks jo v v'\<close>: only entries at \<open>ks\<close> differ, one that is new is of the source \<open>jo\<close>, one that
  was there keeps its source.
\<close>

definition only_entered :: "TupleKey set \<Rightarrow> uuid option \<Rightarrow> StoreView \<Rightarrow> StoreView \<Rightarrow> bool" where
  "only_entered ks jo v v' \<longleftrightarrow> v_groups v' = v_groups v \<and> v_managers v' = v_managers v \<and> v_history v' = v_history v
     \<and> v_sources v' = v_sources v \<and> (\<forall>k. k \<notin> ks \<longrightarrow> v_entries v' k = v_entries v k)
     \<and> (\<forall>k e. v_entries v' k = Some e \<longrightarrow> en_source e = (case v_entries v k of None \<Rightarrow> jo | Some e0 \<Rightarrow> en_source e0))
     \<and> (\<forall>k. v_entries v k \<noteq> None \<longrightarrow> v_entries v' k \<noteq> None)"

lemma only_entered_refl [simp]: "only_entered ks jo v v"
  by (auto simp: only_entered_def)

lemma only_entered_trans:
  assumes "only_entered A jo u v" "only_entered B jo v w"
  shows "only_entered (A \<union> B) jo u w"
proof -
  have "en_source e = (case v_entries u k of None \<Rightarrow> jo | Some e0 \<Rightarrow> en_source e0)" if e: "v_entries w k = Some e" for k e
  proof (cases "v_entries v k")
    case None
    then have "v_entries u k = None" using assms(1) unfolding only_entered_def by blast
    then show ?thesis using assms(2) e None by (simp add: only_entered_def)
  next
    case (Some x)
    then have "en_source e = en_source x" using assms(2) e by (simp add: only_entered_def)
    then show ?thesis using assms(1) Some by (simp add: only_entered_def)
  qed
  then show ?thesis using assms by (simp add: only_entered_def)
qed

lemma only_entered_AddMember: "only_entered {k} jo v (spec_AddMember k jo ex v)"
  by (auto simp: only_entered_def spec_AddMember_def split: option.split)

context store
begin

lemma ensure_loop_run:
  "ok (w_store w) \<Longrightarrow> ensure_loop ops jo ts w = (w', b) \<Longrightarrow>
   ok (w_store w') \<and> w_now w' = w_now w
   \<and> only_entered (tuple_entry_key ` set ts) jo (view (w_store w)) (view (w_store w'))
   \<and> (b \<longrightarrow> (\<forall>t \<in> set ts. v_entries (view (w_store w')) (tuple_entry_key t) \<noteq> None))"
proof (induction ts arbitrary: w)
  case (Cons t ts)
  let ?m = "bindS drawID (\<lambda>new. writeS (\<lambda>now. st_AddMember ops now new (p_group t) (p_relation t) (p_type t) (p_member t) jo None))"
  show ?case
  proof (cases "st_AddMember ops (w_now w) (w_ids w 0) (p_group t) (p_relation t) (p_type t) (p_member t) jo None (w_store w)")
    case (Inl e)
    then have "b = False \<and> w_store w' = w_store w \<and> w_now w' = w_now w"
      using Cons.prems(2) by (auto simp: bindS_drawID writeS_def)
    then show ?thesis using Cons.prems(1) by simp
  next
    case (Inr s)
    define w1 where "w1 = w\<lparr>w_ids := \<lambda>n. w_ids w (Suc n), w_store := s\<rparr>"
    have run: "ensure_loop ops jo ts w1 = (w', b)"
      using Cons.prems(2) Inr by (simp add: bindS_drawID writeS_def w1_def)
    have s: "ok s" "view s = spec_AddMember (tuple_entry_key t) jo None (view (w_store w))"
      using AddMember [OF Cons.prems(1) Inr] by (simp_all add: tuple_entry_key_def)
    have IH: "ok (w_store w') \<and> w_now w' = w_now w1
       \<and> only_entered (tuple_entry_key ` set ts) jo (view (w_store w1)) (view (w_store w'))
       \<and> (b \<longrightarrow> (\<forall>t \<in> set ts. v_entries (view (w_store w')) (tuple_entry_key t) \<noteq> None))"
      using Cons.IH [OF _ run] s(1) by (simp add: w1_def)
    have one: "only_entered {tuple_entry_key t} jo (view (w_store w)) (view (w_store w1))"
      using s(2) only_entered_AddMember by (simp add: w1_def)
    have "v_entries (view (w_store w1)) (tuple_entry_key t) \<noteq> None"
      using s(2) by (simp add: w1_def spec_AddMember_def)
    then have "v_entries (view (w_store w')) (tuple_entry_key t) \<noteq> None"
      using IH unfolding only_entered_def by blast
    then show ?thesis
      using IH only_entered_trans [OF one, of "tuple_entry_key ` set ts"] by (simp add: w1_def)
  qed
qed simp

text \<open>
  It touches entries only, and only those the mapping derives for this one person; but it asks
  neither who owns the group nor whether it exists.
\<close>

lemma EnsureUser_run:
  assumes ok: "ok (w_store w)" and run: "EnsureUser ops ask email (s, w) = (s', w')"
  shows "ok (w_store w') \<and> w_now w' = w_now w
    \<and> only_entered {k. \<exists>t vals. k = tuple_entry_key t \<and> p_type t = ''user'' \<and> p_member t = NormalizeID email
          \<and> derives (ks_mapping s) vals (p_group t) (p_relation t)} (ks_source_id s) (view (w_store w)) (view (w_store w'))"

proof -
  have stay: ?thesis if "w' = w" using that ok by simp
  have mono: "only_entered B jo u v" if "only_entered A jo u v" "A \<subseteq> B" for A B jo u v
    using that unfolding only_entered_def by blast
  show ?thesis
  proof (cases "w' = w")
    case False
    with run obtain u :: KcUser and b where
      "ensure_loop ops (ks_source_id s) (fst (Derive (ks_mapping s) (NormalizeID email)
          (u_attributes u (mp_attribute (ks_mapping s))) newUnmapped)) w = (w', b)"
      by (auto simp: EnsureUser_def Let_def split: if_splits sum.splits option.splits prod.splits bool.splits)
    note e = ensure_loop_run [OF ok this]
    have "tuple_entry_key ` set (fst (Derive (ks_mapping s) (NormalizeID email)
          (u_attributes u (mp_attribute (ks_mapping s))) newUnmapped)) \<subseteq> {k. \<exists>t vals. k = tuple_entry_key t \<and> p_type t = ''user'' \<and> p_member t = NormalizeID email
          \<and> derives (ks_mapping s) vals (p_group t) (p_relation t)}"
      unfolding image_def using Derive_set by blast
    with e mono show ?thesis by blast
  qed (rule stay)
qed

end

end
