(* ===== verification/StartupLaws.thy ===== *)
theory StartupLaws
  imports Startup
begin

text \<open>
  The in-memory service starts in a state that satisfies the invariant of the theory System: what is
  seeded belongs to no source, the local source is made, and the groups pass to it.
\<close>

section \<open>Seeding\<close>

text \<open>Before there is a source: every group belongs to none.\<close>

definition unowned :: "MemoryStore \<Rightarrow> bool" where
  "unowned s \<longleftrightarrow> mem_ok s \<and> view_ok (mem_view s) \<and> sources s = [] \<and> (\<forall>i g. lookup (groups s) i = Some g \<longrightarrow> g_source g = None)"

lemma unowned_new: "unowned NewMemoryStore"
  by (simp add: unowned_def NewMemoryStore_def mem_ok_def view_ok_def mem_entries_def)

lemma forS_Inr:
  assumes "forS f xs w = (w', Inr u)" "P (w_store w)"
    and "\<And>x w w' u. x \<in> set xs \<Longrightarrow> P (w_store w) \<Longrightarrow> f x w = (w', Inr u) \<Longrightarrow> P (w_store w')"
  shows "P (w_store w')"
  using assms
proof (induction xs arbitrary: w)
  case (Cons x xs)
  then obtain w1 where "f x w = (w1, Inr ())" "forS f xs w1 = (w', Inr u)" by (auto simp: bindS_Inr)
  with Cons show ?case by (metis list.set_intros)
qed (simp add: ret_def)

lemma seeded_groups:
  assumes "forS (\<lambda>(i, d, desc). bindS (writeR (\<lambda>now. st_CreateGroup memory_ops now \<lparr>g_id = i, g_token = [], g_display = d, g_desc = desc,
         g_source = None, g_source_name = [], g_relations = [], g_created = 0, g_updated = 0\<rparr>)) (\<lambda>_. ret ())) gs w = (w', Inr u)"
    and "unowned (w_store w)" "\<And>x. x \<in> set gs \<Longrightarrow> RelationSeparator \<notin> set (fst x)"
  shows "unowned (w_store w') \<and> (\<forall>x \<in> set gs. lookup (groups (w_store w')) (fst x) \<noteq> None)
    \<and> (\<forall>i. lookup (groups (w_store w)) i \<noteq> None \<longrightarrow> lookup (groups (w_store w')) i \<noteq> None)"
  using assms
proof (induction gs arbitrary: w)
  case (Cons x gs)
  obtain i d desc where x: "x = (i, d, desc)" by (cases x)
  let ?g = "\<lparr>g_id = i, g_token = [], g_display = d, g_desc = desc,
         g_source = None, g_source_name = [], g_relations = [], g_created = 0, g_updated = 0\<rparr>"
  obtain w1 g' s where w1: "mem_CreateGroup (w_now w) ?g (w_store w) = Inr (s, g')" "w1 = w\<lparr>w_store := s\<rparr>"
    and rest: "forS (\<lambda>(i, d, desc). bindS (writeR (\<lambda>now. st_CreateGroup memory_ops now \<lparr>g_id = i, g_token = [], g_display = d, g_desc = desc,
         g_source = None, g_source_name = [], g_relations = [], g_created = 0, g_updated = 0\<rparr>)) (\<lambda>_. ret ())) gs w1 = (w', Inr u)"
    using Cons.prems(1) by (auto simp: x bindS_Inr writeR_Inr ret_run)
  have u: "mem_ok (w_store w)" "view_ok (mem_view (w_store w))" "sources (w_store w) = []"
    "\<And>i g. lookup (groups (w_store w)) i = Some g \<Longrightarrow> g_source g = None" using Cons.prems(2) by (auto simp: unowned_def)
  note spec = mem_CreateGroup_spec [OF u(1) w1(1)]
  have sep: "RelationSeparator \<notin> set i" using Cons.prems(3) [of x] x by simp
  have "view_ok (mem_view s)" using spec view_ok_CreateGroup [OF u(2), of ?g "w_now w"] sep by (simp del: mem_view_simps)
  moreover have "groups s = put i (?g\<lparr>g_created := w_now w, g_updated := w_now w, g_token := GroupPrefix @ i\<rparr>) (groups (w_store w))"
    "sources s = []"
    using w1(1) u(3) by (auto simp: mem_CreateGroup_def Let_def split: if_splits)
  ultimately have "unowned (w_store w1)" "\<forall>j. lookup (groups (w_store w1)) j = None \<longleftrightarrow> j \<noteq> i \<and> lookup (groups (w_store w)) j = None"
    using spec u(4) by (auto simp: unowned_def w1(2) lookup_put)
  with Cons.IH [OF rest] Cons.prems(3) show ?case by (auto simp: x)
qed (simp add: ret_def)

lemma SeedMockData_unowned:
  assumes run: "SeedMockData memory_ops w = (w', Inr u)" and ok: "unowned (w_store w)"
  shows "unowned (w_store w')"
proof -
  obtain w1 where w1: "forS (\<lambda>(i, d, desc). bindS (writeR (\<lambda>now. st_CreateGroup memory_ops now \<lparr>g_id = i, g_token = [], g_display = d, g_desc = desc,
         g_source = None, g_source_name = [], g_relations = [], g_created = 0, g_updated = 0\<rparr>)) (\<lambda>_. ret ())) mock_groups w = (w1, Inr ())"
    and rest: "forS (\<lambda>(email, i, relation). bindS drawID (\<lambda>new.
         writeS (\<lambda>now. st_AddMember memory_ops now new i relation ''user'' email None None))) mock_memberships w1 = (w', Inr u)"
    using run unfolding SeedMockData_def bindS_Inr by auto
  have "\<And>x. x \<in> set mock_groups \<Longrightarrow> RelationSeparator \<notin> set (fst x)" by (auto simp: mock_groups_def)
  note g = seeded_groups [OF w1 ok this]
  let ?P = "\<lambda>s. unowned s \<and> (\<forall>x \<in> set mock_groups. lookup (groups s) (fst x) \<noteq> None)"
  have "?P (w_store w')"
  proof (rule forS_Inr [where P = ?P, OF rest])
    show "?P (w_store w1)" using g by blast
    fix x v v' u' assume x: "x \<in> set mock_memberships" and p: "?P (w_store v)"
      and step: "(case x of (email, i, relation) \<Rightarrow> bindS drawID (\<lambda>new.
         writeS (\<lambda>now. st_AddMember memory_ops now new i relation ''user'' email None None))) v = (v', Inr u')"
    obtain email i relation where e: "x = (email, i, relation)" by (cases x)
    have "fst (snd x) \<in> fst ` set mock_groups" using x by (auto simp: mock_groups_def mock_memberships_def)
    then obtain gr where gr: "lookup (groups (w_store v)) i = Some gr" using p e by auto
    let ?k = "entry_key i relation ''user'' email"
    have u: "mem_ok (w_store v)" "view_ok (mem_view (w_store v))" "g_source gr = None" using p gr by (auto simp: unowned_def)
    have s': "w_store v' = mem_AddMember (w_now v) (w_ids v 0) i relation ''user'' email None None (w_store v)"
      using step by (auto simp: e bindS_drawID writeS_def)
    have spec: "mem_ok (w_store v')" "mem_view (w_store v') = spec_AddMember ?k None None (mem_view (w_store v))"
      using mem_AddMember_spec [OF u(1)] by (simp_all add: s')
    have "RelationSeparator \<notin> set i" using view_okD(3) [OF u(2)] gr by simp
    then have "wf_key ?k" by (simp add: wf_entry_key)
    then have "view_ok (mem_view (w_store v'))"
      using view_ok_AddMember [OF u(2), of ?k gr None None] gr u(3) spec(2) by (simp del: mem_view_simps add: mem_view_simps(1))
    moreover have "groups (w_store v') = groups (w_store v)" "sources (w_store v') = sources (w_store v)"
      by (simp_all add: s' mem_AddMember_def Let_def split: prod.split if_split)
    ultimately show "?P (w_store v')" using p spec(1) by (simp add: unowned_def)
  qed
  then show ?thesis by blast
qed

section \<open>The local source\<close>

lemma setupLocalSource_unowned:
  assumes ok: "unowned (w_store w)" and run: "setupLocalSource memory_ops name w = (w', Inr i)"
  shows "\<exists>src. s_type src = SourceTypeLocal \<and> s_schedule src = [] \<and> s_id src = i
    \<and> w_store w' = (w_store w)\<lparr>sources := [(i, src)]\<rparr>"
proof -
  have "sources (w_store w) = []" using ok by (simp add: unowned_def)
  then have "i = w_ids w 0 \<and> w_store w' = (w_store w)\<lparr>sources := [(i, (new_source i name SourceTypeLocal [] [])
      \<lparr>s_created := w_now w, s_updated := w_now w\<rparr>)]\<rparr>"
    using run by (auto simp: setupLocalSource_def bindS_readS mem_ListSources_def bindS_drawID bindS_writeS ret_def
        mem_CreateSource_def new_source_def)
  then show ?thesis
    by (intro exI [of _ "(new_source i name SourceTypeLocal [] [])\<lparr>s_created := w_now w, s_updated := w_now w\<rparr>"])
      (simp add: new_source_def)
qed

lemma adopt_all:
  assumes ok: "unowned s" and src: "s_type src = SourceTypeLocal" "s_id src = L"
    and svc: "sv_ops svc = memory_ops" "sv_local svc = L"
    and w: "w_store w = s\<lparr>sources := [(L, src)]\<rparr>" and run: "Adopt svc systemCaller None detail w = (w', r)"
  shows "data_ok L (w_store w') \<and> v_sources (mem_view (w_store w')) = [L \<mapsto> src]"
proof -
  let ?s = "s\<lparr>sources := [(L, src)]\<rparr>" and ?v' = "mem_view (w_store w')"
  have u: "mem_ok s" "view_ok (mem_view s)" "\<And>i g. lookup (groups s) i = Some g \<Longrightarrow> g_source g = None"
    using ok by (auto simp: unowned_def)
  have s: "mem_ok ?s" using u(1) src(2) by (simp add: mem_ok_def)
  have v: "mem_view ?s = (mem_view s)\<lparr>v_sources := [L \<mapsto> src]\<rparr>" by (auto simp: mem_view_def)
  then have vok: "view_ok (mem_view ?s)" using u(2) by (simp only: view_ok_sources)
  have moved: "mem_ok (w_store w')" "same_data (spec_MoveToSource None L (mem_view ?s)) ?v'"
    using memory.Adopt_run [OF _ svc(1) run] s svc(2) unfolding w by (auto simp del: mem_view_simps)
  have srcs: "v_sources ?v' = [L \<mapsto> src]"
    using moved(2) by (simp add: same_data_sel spec_MoveToSource_def v del: mem_view_simps)
  have "v_groups ?v' = v_groups (spec_MoveToSource None L (mem_view ?s))" using moved(2) by (simp add: same_data_sel del: mem_view_simps)
  then have "g_source g = Some L" if "v_groups ?v' i = Some g" for i g
    using that u(3) by (auto simp: spec_MoveToSource_def v simp del: mem_view_simps) auto
  then have "sources_ok L ?v'" using src(1) unfolding sources_ok_def srcs by simp
  moreover have "view_ok ?v'" using view_ok_MoveToSource [OF vok] same_data_ok [OF moved(2)] by blast
  ultimately show ?thesis using moved(1) srcs by (simp add: data_ok_def del: mem_view_simps)
qed

lemma adoptIntoLocal_ok:
  assumes ok: "unowned s" and src: "s_type src = SourceTypeLocal" "s_id src = L"
    and svc: "sv_ops svc = memory_ops" "sv_local svc = L" and w: "w_store w = s\<lparr>sources := [(L, src)]\<rparr>"
    and run: "adoptIntoLocal svc adopt w = (w', Inr u)"
  shows "data_ok L (w_store w') \<and> v_sources (mem_view (w_store w')) = [L \<mapsto> src]"
proof -
  obtain w1 x where a: "Adopt svc systemCaller None ''belonged to no source'' w = (w1, Inr x)"
    and rest: "(if length adopt = 0 then ret ()
      else bindS (readS (\<lambda>_ s. st_ListSources (sv_ops svc) s)) (\<lambda>srcs. forS (adopt_source svc srcs) adopt)) w1 = (w', Inr u)"
    using run unfolding adoptIntoLocal_def bindS_Inr by blast
  note first = adopt_all [OF ok src svc w a]
  have "w_store w' = w_store w1"
  proof (cases "length adopt = 0")
    case True
    then show ?thesis using rest by (simp add: ret_def)
  next
    case False
    let ?srcs = "mem_ListSources (w_store w1)"
    have "set ?srcs = ran (v_sources (mem_view (w_store w1)))"
      using mem_ListSources_set [OF data_okD(1) [OF conjunct1 [OF first]]] by simp
    also have "\<dots> = {src}" unfolding conjunct2 [OF first] by (auto simp: ran_def)
    finally have "set ?srcs = {src}" .
    then have only: "adopt_source svc ?srcs name v = (v', Inr y) \<Longrightarrow> v' = v" for name v v' y
      using src(1) by (auto simp: adopt_source_def ret_def pureS_def find_Some_iff split: option.splits if_splits dest!: nth_mem)
    have "forS (adopt_source svc ?srcs) adopt w1 = (w', Inr u)" using rest False by (simp add: bindS_readS svc(1))
    then show ?thesis
      by (rule forS_Inr [where P = "\<lambda>s. s = w_store w1"]) (auto dest: only)
  qed
  then show ?thesis using first by (simp only:)
qed

section \<open>The start\<close>

theorem RunApplication_ok:
  assumes cron: "cron_laws (ou_cron ou)" "cn_Entries (ou_cron ou) (ou_cron_New ou) = Map.empty"
    and nokc: "kc_RealmURL (ac_Keycloak cfg) = []" and new: "w_store w = NewMemoryStore"
    and run: "RunApplication ou cfg memory_ops stats w = (w', Inr (sc, sd))"
  shows "installed sc \<and> server_ok sc \<lparr>sr_world = w', sr_sched = sd\<rparr>"
proof -
  from run obtain w1 w2 L rels w3 w4 where
    w1: "(if ac_DBAddMockData cfg then SeedMockData memory_ops else ret ()) w = (w1, Inr ())"
    and w2: "setupLocalSource memory_ops (ac_LocalSourceName cfg) w1 = (w2, Inr L)"
    and w3: "adoptIntoLocal \<lparr>sv_ops = memory_ops, sv_relations = rels, sv_local = L, sv_cached = True, sv_lookup = None\<rparr>
        (ac_AdoptSources cfg) w2 = (w3, Inr ())"
    and w4: "refreshCache \<lparr>sv_ops = memory_ops, sv_relations = rels, sv_local = L, sv_cached = True, sv_lookup = None\<rparr> w3 = (w4, Inr ())"
    and w': "w' = w4" "sd = (case Start (ou_cron ou) memory_ops (w_store w4) (NewScheduler (ou_cron_New ou)) of
              Inl _ \<Rightarrow> NewScheduler (ou_cron_New ou) | Inr sd \<Rightarrow> sd)"
    and sc: "sv_ops (sc_GroupSvc sc) = memory_ops" "sc_Store sc = memory_ops" "sv_lookup (sc_GroupSvc sc) = None"
      "eg_ops (sc_SyncEngine sc) = memory_ops" "eg_keycloak (sc_SyncEngine sc) = None" "sv_local (sc_GroupSvc sc) = L"
      "eg_afterSync (sc_SyncEngine sc) = refreshCache (sc_GroupSvc sc)" "sc_Scheduler sc = ou_cron ou"
    unfolding RunApplication_def Let_def nokc
    by (auto simp: bindS_Inr pureS_run readS_run ret_run split: if_splits)
  have "unowned (w_store w1)" using w1 SeedMockData_unowned unowned_new new by (auto simp: ret_def split: if_splits)
  note u = this
  obtain src where src: "s_type src = SourceTypeLocal" "s_schedule src = []" "s_id src = L"
    "w_store w2 = (w_store w1)\<lparr>sources := [(L, src)]\<rparr>" using setupLocalSource_unowned [OF u w2] by blast
  have ad: "data_ok L (w_store w3)" "v_sources (mem_view (w_store w3)) = [L \<mapsto> src]"
    using adoptIntoLocal_ok [OF u src(1,3) _ _ src(4) w3] by (simp_all del: mem_view_simps)
  have store: "w_store w' = w_store w3" using memory.refreshCache_run [OF w4] w' by simp
  have "set (mem_ListSources (w_store w4)) = ran (v_sources (mem_view (w_store w3)))"
    using mem_ListSources_set [OF data_okD(1) [OF ad(1)]] store w'(1) by simp
  also have "\<dots> = {src}" unfolding ad(2) by (auto simp: ran_def)
  finally have "set (mem_ListSources (w_store w4)) = {src}" .
  moreover have "\<forall>x \<in> set xs. s_schedule x = [] \<Longrightarrow> fold (start_source (ou_cron ou)) xs sd0 = sd0" for xs sd0
    by (induction xs) (simp_all add: start_source_def)
  ultimately have "fold (start_source (ou_cron ou)) (mem_ListSources (w_store w4)) sd0 = sd0" for sd0
    using src(2) by simp
  then have "sd = NewScheduler (ou_cron_New ou)" using w'(2) by (simp add: Start_def bindE_def)
  moreover have "wanted (mem_view (w_store w')) = Map.empty"
    using ad(2) src(2) store by (auto simp: wanted_def fun_eq_iff simp del: mem_view_simps)
  moreover have "installed sc"
    using sc cron still_refreshCache by (simp add: installed_def reads_valid_def)
  ultimately show ?thesis
    using ad(1) store sched_ok_new [OF cron(2)] sc by (simp add: server_ok_def del: mem_view_simps)
qed

end
