(* ===== verification/SystemLaws.thy ===== *)
theory SystemLaws
  imports StartupLaws KeycloakSource
begin

text \<open>
  What the routes, the services behind them and the in-memory store guarantee together: how far a
  signed-in person and the bearer of an upload token reach, what is left of a deleted source, and
  that the cron entries are the stored schedules.
\<close>

section \<open>Signed-in people\<close>

text \<open>
  \<open>speaks_for cfg r now s caller person\<close>: the request's token names the caller, who is judged by the
  tokens of the person, themselves or somebody an administrator acts for.
\<close>

definition speaks_for :: "(MemoryStore, 'c) SetupConfig \<Rightarrow> HttpRequest \<Rightarrow> time \<Rightarrow> MemoryStore \<Rightarrow> Caller \<Rightarrow> string \<Rightarrow> bool" where
  "speaks_for cfg r now s caller person \<longleftrightarrow>
     (\<exists>verify raw. sc_Verifier cfg = Some verify \<and> lb_CutBearerPrefix (sc_Library cfg) (rq_authorization r) = Some raw
        \<and> verify raw = Inr (cl_actor caller))
     \<and> cl_actor caller \<noteq> [] \<and> cl_tokens caller = mem_GetUserTokens now s (NormalizeID person)
     \<and> cl_admin caller = isAdmin (sc_AdminTokens cfg) (cl_tokens caller)
     \<and> (person = cl_actor caller \<or> isAdmin (sc_AdminTokens cfg) (mem_GetUserTokens now s (NormalizeID (cl_actor caller))))"

text \<open>What \<open>authn.ActAs\<close> promises: who may not act for others acts as themselves.\<close>

definition acts_ok :: "Library \<Rightarrow> bool" where
  "acts_ok lb \<longleftrightarrow> (\<forall>header actor target. lb_ActAs lb header actor False = Inr target \<longrightarrow> target = actor)"

lemma GetUserTokens_memory:
  assumes "sv_ops svc = memory_ops" "sv_lookup svc = None" "GetUserTokens svc email w = (w', Inr toks)"
  shows "w' = w \<and> toks = mem_GetUserTokens (w_now w) (w_store w) (NormalizeID email)"
  using assms by (auto simp: GetUserTokens_def Let_def bindS_Inr pureS_run ret_run readS_run split: if_splits)

lemma judged_memory:
  assumes cfg: "installed cfg" and acts: "acts_ok (sc_Library cfg)" and j: "judged cfg r w w' caller"
  shows "w' = w \<and> (\<exists>person. speaks_for cfg r (w_now w) (w_store w) caller person)"
proof -
  have svc: "sv_ops (sc_GroupSvc cfg) = memory_ops" "sv_lookup (sc_GroupSvc cfg) = None"
    using cfg by (simp_all add: installed_def)
  obtain verify raw own target w1 where v: "sc_Verifier cfg = Some verify"
    "lb_CutBearerPrefix (sc_Library cfg) (rq_authorization r) = Some raw" "verify raw = Inr (cl_actor caller)" "cl_actor caller \<noteq> []"
    and own: "GetUserTokens (sc_GroupSvc cfg) (cl_actor caller) w = (w1, Inr own)"
    and target: "lb_ActAs (sc_Library cfg) (rq_actAs r) (cl_actor caller) (isAdmin (sc_AdminTokens cfg) own) = Inr target"
    and toks: "if target = cl_actor caller then w' = w1 \<and> cl_tokens caller = own
       else GetUserTokens (sc_GroupSvc cfg) target w1 = (w', Inr (cl_tokens caller))"
    and admin: "cl_admin caller = isAdmin (sc_AdminTokens cfg) (cl_tokens caller)"
    using j unfolding judged_def by blast
  note o = GetUserTokens_memory [OF svc own]
  have may: "target = cl_actor caller \<or> isAdmin (sc_AdminTokens cfg) own"
    using target acts unfolding acts_ok_def by (cases "isAdmin (sc_AdminTokens cfg) own") auto
  have "w' = w \<and> cl_tokens caller = mem_GetUserTokens (w_now w) (w_store w) (NormalizeID target)"
    using toks o GetUserTokens_memory [OF svc, of target w1 w' "cl_tokens caller"] by (auto split: if_splits)
  then show ?thesis using v o may admin unfolding speaks_for_def by blast
qed

theorem person_scope_memory:
  assumes cfg: "installed cfg" and acts: "acts_ok (sc_Library cfg)" and ok: "mem_ok (w_store (sr_world st))"
    and run: "serve_manage cfg r st = Some (st', resp)"
  shows "sr_sched st' = sr_sched st \<and> (w_store (sr_world st') = w_store (sr_world st) \<or>
    (\<exists>caller person. speaks_for cfg r (w_now (sr_world st)) (w_store (sr_world st)) caller person
       \<and> allowed_step (sv_local (sc_GroupSvc cfg)) caller (w_now (sr_world st))
           (mem_view (w_store (sr_world st))) (mem_view (w_store (sr_world st')))))"
proof -
  have svc: "sv_ops (sc_GroupSvc cfg) = memory_ops" "sv_lookup (sc_GroupSvc cfg) = None"
    using cfg by (simp_all add: installed_def)
  from serve_manage_authority [OF run] show ?thesis
  proof
    assume "signed_in cfg st st'"
    then show ?thesis by (auto simp: signed_in_def looked_up_def svc)
  next
    assume "by_person cfg r st st'"
    then obtain caller w req resp where p: "sr_sched st' = sr_sched st" "judged cfg r (sr_world st) w caller"
      "perform (sc_GroupSvc cfg) caller req w = (sr_world st', resp)" unfolding by_person_def by blast
    note j = judged_memory [OF cfg acts p(2)]
    then obtain person where s: "speaks_for cfg r (w_now (sr_world st)) (w_store (sr_world st)) caller person" by blast
    have run': "perform (sc_GroupSvc cfg) caller req (sr_world st) = (sr_world st', resp)" using p(3) j by simp
    show ?thesis
      by (rule memory_request [OF ok svc(1) run']) (use p(1) s in blast)+
  qed
qed

section \<open>Upload tokens\<close>

text \<open>All that may differ is what belongs to the source: other groups keep record and entries.\<close>

definition others_untouched :: "uuid \<Rightarrow> StoreView \<Rightarrow> StoreView \<Rightarrow> bool" where
  "others_untouched j v v' \<longleftrightarrow>
     (\<forall>i g. v_groups v i = Some g \<longrightarrow> g_source g \<noteq> Some j \<longrightarrow> v_groups v' i = Some g
        \<and> v_managers v' = v_managers v \<and> (\<forall>k. k_group k = i \<longrightarrow> v_entries v' k = v_entries v k))"

theorem upload_scope_memory:
  assumes cfg: "installed cfg" and ok: "data_ok (sv_local (sc_GroupSvc cfg)) (w_store (sr_world st))"
    and token: "presented_token (rq_authorization r) \<notin> set (sc_APIWriteTokens cfg)"
    and run: "serve_api cfg r st = Some (st', resp)"
  shows "sr_sched st' = sr_sched st \<and> (w_store (sr_world st') = w_store (sr_world st) \<or>
    (\<exists>t \<in> set (sc_SourceUploadTokens cfg). ut_token t = presented_token (rq_authorization r)
       \<and> (\<exists>j src. v_sources (mem_view (w_store (sr_world st))) j = Some src \<and> s_name src = ut_source t
            \<and> others_untouched j (mem_view (w_store (sr_world st))) (mem_view (w_store (sr_world st'))))))"
proof -
  have c: "sc_Store cfg = memory_ops" "eg_ops (sc_SyncEngine cfg) = memory_ops" "reads_valid (sc_SyncEngine cfg)"
    "still (eg_afterSync (sc_SyncEngine cfg))" "sv_lookup (sc_GroupSvc cfg) = None"
    using cfg by (simp_all add: installed_def)
  from serve_api_authority [OF run] token consider "unchanged cfg st st'" | "by_upload_token cfg r st st'"
    by (auto simp: by_write_token_def)
  then show ?thesis
  proof cases
    case 1
    then show ?thesis by (auto simp: unchanged_def looked_up_def c)
  next
    case 2
    then obtain t j src content where t: "t \<in> set (sc_SourceUploadTokens cfg)" "ut_token t = presented_token (rq_authorization r)"
      and src: "st_GetSource (sc_Store cfg) (w_store (sr_world st)) j = Inr src" "s_name src = ut_source t"
      and w: "sr_world st' = fst (RunSync (sc_SyncEngine cfg) j (Some content) (sr_world st))" "sr_sched st' = sr_sched st"
      unfolding by_upload_token_def by blast
    have s: "v_sources (mem_view (w_store (sr_world st))) j = Some src"
      using src(1) by (simp add: c mem_GetSource_def split: option.splits)
    have "RunSync (sc_SyncEngine cfg) j (Some content) (sr_world st) =
        (sr_world st', snd (RunSync (sc_SyncEngine cfg) j (Some content) (sr_world st)))" by (simp add: w)
    from RunSync_memory_others [OF data_okD(1,2) [OF ok] c(2-4) this]
    have "others_untouched j (mem_view (w_store (sr_world st))) (mem_view (w_store (sr_world st')))"
      unfolding others_untouched_def by blast
    then show ?thesis using t s src(2) w(2) by blast
  qed
qed

section \<open>Deleting a source\<close>

lemma deleted_view:
  assumes "v' = spec_MoveToSource None L (spec_DeleteSource i v)"
  shows "v_sources v' i = None" "v_entries v' k = Some e \<Longrightarrow> L \<noteq> i \<Longrightarrow> en_source e \<noteq> Some i"
    "v_groups v n = Some g \<Longrightarrow> g_source g = Some i \<Longrightarrow> \<exists>g'. v_groups v' n = Some g' \<and> g_source g' = Some L"
  using assms by (auto simp: spec_MoveToSource_def spec_DeleteSource_def split: option.splits if_splits)

theorem deleteSource_memory:
  assumes cfg: "installed cfg" and ok: "server_ok cfg st"
    and i: "lb_uuid_Parse (sc_Library cfg) (rq_param r ''id'') = Some i"
    and run: "deleteSource cfg r st = (st', Inr resp)"
  defines "v \<equiv> mem_view (w_store (sr_world st))" and "v' \<equiv> mem_view (w_store (sr_world st'))"
  shows "v_sources v' i = None \<and> (\<forall>k e. v_entries v' k = Some e \<longrightarrow> en_source e \<noteq> Some i)
    \<and> (\<forall>k g. v_groups v k = Some g \<longrightarrow> g_source g = Some i \<longrightarrow>
         (\<exists>g'. v_groups v' k = Some g' \<and> g_source g' = Some (sv_local (sc_GroupSvc cfg))))
    \<and> (\<forall>e sched. cn_Entries (sc_Scheduler cfg) (sd_cron (sr_sched st')) e \<noteq> Some (sched, i))"
proof -
  let ?L = "sv_local (sc_GroupSvc cfg)" and ?s = "w_store (sr_world st)"
  note d = server_okD [OF ok] and c = installedD [OF cfg]
  from run i obtain st1 src where src: "changeableSource cfg i st = (st1, Inr src)" "dropSource cfg i src st1 = (st', Inr resp)"
    by (auto simp: deleteSource_def id_param_def bindH_def check_def split: prod.splits sum.splits)
  have st1: "st1 = st" using silent_changeableSource [of cfg i] src(1) by (auto simp: silent_def) (metis Pair_inject)
  note loc = changeableSource_Inr [OF c(2) src(1)]
  have ne: "?L \<noteq> i" using local_source [OF d(1)] loc by auto
  let ?detail = "''source '' @ s_name src @ '' was deleted''"
  obtain w res where a: "Adopt (sc_GroupSvc cfg) APITokenCaller None ?detail ((sr_world st)\<lparr>w_store := mem_DeleteSource i ?s\<rparr>) = (w, res)"
    by force
  have st': "sr_world st' = w" "sr_sched st' = Unregister (sc_Scheduler cfg) i (sr_sched st)"
    using src(2) a by (auto simp: st1 dropSource_def bindH_def call_def writeS_def schedule_def reply_def c(2) split: sum.splits)
  have del: "mem_ok (mem_DeleteSource i ?s)" "mem_view (mem_DeleteSource i ?s) = spec_DeleteSource i v"
    using mem_DeleteSource_spec [OF data_okD(1) [OF d(1)]] by (simp_all add: v_def)
  have "same_data (spec_MoveToSource None ?L (spec_DeleteSource i v)) v'"
    using memory.Adopt_run [OF _ c(1) a] del by (auto simp: v'_def st' simp del: mem_view_simps)
  note same = same_data_sel [OF this] and D = deleted_view [OF refl]
  have plan: "sched_ok (sc_Scheduler cfg) (sr_sched st')" "plan (sc_Scheduler cfg) (sr_sched st') i = None"
    using Unregister_plan [OF c(3) d(2), of i] by (simp_all add: st')
  have "cn_Entries (sc_Scheduler cfg) (sd_cron (sr_sched st')) e \<noteq> Some (sched, i)" for e sched
    using plan_iff [OF plan(1)] plan(2) by (metis option.distinct(1))
  then show ?thesis unfolding same using D ne by (metis)
qed

section \<open>Schedules\<close>

theorem schedules_memory:
  assumes "server_ok cfg st"
  shows "(\<exists>e. cn_Entries (sc_Scheduler cfg) (sd_cron (sr_sched st)) e = Some (sched, j)) \<longleftrightarrow>
      sched \<noteq> [] \<and> (\<exists>src. lookup (sources (w_store (sr_world st))) j = Some src \<and> s_schedule src = sched)"
    and "cn_Entries (sc_Scheduler cfg) (sd_cron (sr_sched st)) e = Some (sched, j) \<Longrightarrow>
      cn_Entries (sc_Scheduler cfg) (sd_cron (sr_sched st)) e' = Some (sched', j) \<Longrightarrow> e = e'"
proof -
  note d = server_okD [OF assms]
  have "(\<exists>e. cn_Entries (sc_Scheduler cfg) (sd_cron (sr_sched st)) e = Some (sched, j)) \<longleftrightarrow>
      wanted (mem_view (w_store (sr_world st))) j = Some sched"
    using plan_iff [OF d(2)] d(3) by simp
  also have "\<dots> \<longleftrightarrow> sched \<noteq> [] \<and> (\<exists>src. lookup (sources (w_store (sr_world st))) j = Some src \<and> s_schedule src = sched)"
    by (auto simp: wanted_def split: option.splits if_splits)
  finally show "(\<exists>e. cn_Entries (sc_Scheduler cfg) (sd_cron (sr_sched st)) e = Some (sched, j)) \<longleftrightarrow>
      sched \<noteq> [] \<and> (\<exists>src. lookup (sources (w_store (sr_world st))) j = Some src \<and> s_schedule src = sched)" .
  show "e = e'" if "cn_Entries (sc_Scheduler cfg) (sd_cron (sr_sched st)) e = Some (sched, j)"
      "cn_Entries (sc_Scheduler cfg) (sd_cron (sr_sched st)) e' = Some (sched', j)"
    using sched_okD(2) [OF d(2) that(1)] sched_okD(2) [OF d(2) that(2)] by simp
qed

section \<open>One lookup\<close>

text \<open>The time of the lookup is remembered, and until \<open>retryAfter\<close> has passed nobody asks again.\<close>

theorem EnsureUser_once:
  assumes run: "EnsureUser ops ask email (s, w) = (s', w')" and asked: "s' \<noteq> s"
    and soon: "w_now w2 - w_now w < retryAfter"
  shows "EnsureUser ops ask' email (s', w2) = (s', w2)"
proof -
  let ?e = "NormalizeID email"
  have "lookup (ks_tried s') ?e = Some (w_now w)"
    using run asked by (auto simp: EnsureUser_def Let_def lookup_put split: if_splits sum.splits option.splits prod.splits bool.splits)
  then show ?thesis using soon by (intro EnsureUser_quiet) (simp add: recently_tried_def)
qed

end
