(* ===== verification/Samples.thy ===== *)
theory Samples
  imports MemoryLaws
begin

text \<open>
  One small installation on which the theorems are applied: the local source with the groups \<open>a\<close> and
  \<open>b\<close> (a member of \<open>b\<close> through \<open>a\<close>, a manager of \<open>a\<close>), a CSV source with the group \<open>c\<close> and the reserved
  names \<open>c*\<close>, an administrator, a manager and somebody without rights.
\<close>

definition sample_source :: "uuid \<Rightarrow> string \<Rightarrow> string list \<Rightarrow> Source" where
  "sample_source i typ reserved = \<lparr>s_id = i, s_name = typ, s_type = typ, s_schedule = [], s_dn_regexp = [], s_rel_regexp = [],
     s_file_path = [], s_last_synced = None, s_last_status = [], s_created = 0, s_updated = 0, s_reserved = reserved\<rparr>"

definition sample_group :: "uuid \<Rightarrow> string \<Rightarrow> Group" where
  "sample_group j i = \<lparr>g_id = i, g_token = GroupPrefix @ i, g_display = i, g_desc = [], g_source = Some j,
     g_source_name = [], g_relations = [], g_created = 0, g_updated = 0\<rparr>"

definition sample_tuple :: "uuid \<Rightarrow> uuid \<Rightarrow> string \<Rightarrow> string \<Rightarrow> string \<Rightarrow> MemTuple" where
  "sample_tuple n j g ty m = \<lparr>t_id = n, t_obj = g, t_rel = RelationMember, t_stype = ty, t_sid = m,
     t_srel = (if ty = ''group'' then RelationMember else []), t_source = Some j, t_created = 0, t_expires = None\<rparr>"

definition sample_store :: MemoryStore where
  "sample_store = \<lparr>groups = [(''a'', sample_group 1 ''a''), (''b'', sample_group 1 ''b''), (''c'', sample_group 2 ''c'')],
     sources = [(1, sample_source 1 ''local'' []), (2, sample_source 2 ''csv'' [''c*''])],
     tuples = [sample_tuple 11 1 ''a'' ''user'' ''u@x.de'', sample_tuple 12 1 ''b'' ''group'' ''a'',
               sample_tuple 13 2 ''c'' ''user'' ''v@x.de''],
     syncLogs = [],
     managers = [(''a'', [\<lparr>m_token = ''user:m@x.de'', m_created_by = [], m_created = 0\<rparr>])],
     changes = []\<rparr>"

definition sample_relations :: Relations where
  "sample_relations = \<lparr>allowed = [''owner'', RelationMember]\<rparr>"

definition sample_service :: "MemoryStore Service" where
  "sample_service = \<lparr>sv_ops = memory_ops, sv_relations = sample_relations, sv_local = 1, sv_cached = False, sv_lookup = None\<rparr>"

definition sample_world :: "MemoryStore World" where
  "sample_world = \<lparr>w_store = sample_store, w_cache = [], w_now = 100, w_ids = (\<lambda>n. 1000 + n)\<rparr>"

definition sample_admin :: Caller where
  "sample_admin = \<lparr>cl_actor = ''root@x.de'', cl_behalf = [], cl_tokens = [''user:root@x.de''], cl_admin = True\<rparr>"

definition sample_manager :: Caller where
  "sample_manager = \<lparr>cl_actor = ''m@x.de'', cl_behalf = [], cl_tokens = [''user:m@x.de''], cl_admin = False\<rparr>"

definition sample_stranger :: Caller where
  "sample_stranger = \<lparr>cl_actor = ''s@x.de'', cl_behalf = [], cl_tokens = [''user:s@x.de''], cl_admin = False\<rparr>"

definition sample_engine :: "MemoryStore Engine" where
  "sample_engine = \<lparr>eg_ops = memory_ops, eg_relations = sample_relations, eg_file = (\<lambda>_. None), eg_compile = (\<lambda>_. None),
     eg_ldif = (\<lambda>_. None), eg_keycloak = None, eg_message = (\<lambda>_. ''refused''), eg_afterSync = ret ()\<rparr>"

lemmas sample_defs = sample_source_def sample_group_def sample_tuple_def sample_store_def sample_relations_def
  sample_service_def sample_world_def sample_admin_def sample_manager_def sample_stranger_def sample_engine_def

lemma sample_ok: "mem_ok (w_store sample_world)"
  by (simp add: mem_ok_def sample_defs tuple_key_def)

lemma sample_view_ok: "view_ok (mem_view (w_store sample_world))"
  by (auto simp: view_ok_def entry_owned_def wf_key_def mem_entries_def sample_defs tuple_key_def tuple_entry_def
      split: if_splits)

lemma sample_sel [simp]:
  "w_store sample_world = sample_store" "w_now sample_world = 100" "sv_local sample_service = 1"
  "sv_relations sample_service = sample_relations" "eg_relations sample_engine = sample_relations"
  "cl_admin sample_admin" "\<not> cl_admin sample_manager" "\<not> cl_admin sample_stranger"
  by (simp_all add: sample_defs)

lemmas sample_ok' = sample_ok [unfolded sample_sel]
lemmas sample_view_ok' = sample_view_ok [unfolded sample_sel]

lemma sample_ops [simp]: "sv_ops sample_service = memory_ops" "eg_ops sample_engine = memory_ops"
  "reads_valid sample_engine" "still (eg_afterSync sample_engine)"
  by (simp_all add: sample_defs reads_valid_def still_basic)

text \<open>The CSV source is synced from an upload that puts somebody else into \<open>c\<close>: a run that succeeds.\<close>

definition sample_csv :: string where
  "sample_csv = ''c,W@x.de'' @ [CHR 0x0A]"

lemma sample_sync: "RunSync sample_engine 2 (Some sample_csv) sample_world =
    (fst (RunSync sample_engine 2 (Some sample_csv) sample_world), Inr ())"
proof -
  have "snd (RunSync sample_engine 2 (Some sample_csv) sample_world) = Inr ()" by code_simp
  then show ?thesis by (metis prod.collapse)
qed

end
