(* ===== verification/WebSamples.thy ===== *)
theory WebSamples
  imports SystemLaws Samples
begin

text \<open>
  The sample installation behind a web server: a cron package that keeps its law, the packages of
  \<open>Library\<close> as simple functions, one write, one read and one upload token, and an identity provider
  whose tokens are the addresses they name.
\<close>

definition sample_cron :: "(nat \<times> (nat \<times> string \<times> uuid) list) Cron" where
  "sample_cron = \<lparr>cn_parses = (\<lambda>sched. sched \<noteq> ''never''),
     cn_AddFunc = (\<lambda>sched j (n, es). if sched = ''never'' then None else Some ((Suc n, (n, sched, j) # es), n)),
     cn_Remove = (\<lambda>e (n, es). (n, filter (\<lambda>p. fst p \<noteq> e) es)),
     cn_Entries = (\<lambda>(n, es) e. if e < n then map_of es e else None)\<rparr>"

lemma map_of_filter_key: "map_of (filter (\<lambda>p. fst p \<noteq> e) es) x = (if x = e then None else map_of es x)"
  by (induction es) auto

lemma sample_cron_laws: "cron_laws sample_cron"
  by (auto simp: cron_laws_def sample_cron_def fun_eq_iff map_of_filter_key split: if_splits)

definition sample_library :: Library where
  "sample_library = \<lparr>
     lb_createGroup = (\<lambda>_ b. Inr \<lparr>cg_id = b, cg_display = [], cg_desc = [], cg_managers = []\<rparr>),
     lb_updateGroup = (\<lambda>_ b. Inr \<lparr>ug_display = b, ug_desc = []\<rparr>),
     lb_addMember = (\<lambda>_ b. Inr \<lparr>am_member = b, am_relation = [], am_expires = None\<rparr>),
     lb_changeRelation = (\<lambda>_ b. Inr \<lparr>cr_member = b, cr_relation = [], cr_new = ''owner''\<rparr>),
     lb_addManager = (\<lambda>_ b. Inr b),
     lb_createSource = (\<lambda>_ b. Inr \<lparr>so_name = b, so_type = ''csv'', so_schedule = ''daily'', so_dn_regexp = [], so_file_path = [],
        so_rel_regexp = [], so_reserved = []\<rparr>),
     lb_updateSource = (\<lambda>_ b. Inr \<lparr>so_name = b, so_type = [], so_schedule = ''daily'', so_dn_regexp = [], so_file_path = [],
        so_rel_regexp = [], so_reserved = []\<rparr>),
     lb_FormFile = (\<lambda>_ b. Inr (Inr b)),
     lb_uuid_Parse = (\<lambda>i. if i = ''1'' then Some 1 else if i = ''2'' then Some 2 else None),
     lb_CutBearerPrefix = (\<lambda>h. cut_prefix h ''Bearer ''),
     lb_ActAs = (\<lambda>header actor may. if header = [] \<or> header = actor then Inr actor
        else if may then Inr header else Inl ErrActAsForbidden),
     lb_CORS = (\<lambda>_. None), lb_RejectCrossOriginWrites = (\<lambda>_. None)\<rparr>"

definition sample_config :: "(MemoryStore, nat \<times> (nat \<times> string \<times> uuid) list) SetupConfig" where
  "sample_config = \<lparr>sc_APITokens = [''r''], sc_APIWriteTokens = [''w''],
     sc_SourceUploadTokens = [\<lparr>ut_source = ''csv'', ut_token = ''u''\<rparr>],
     sc_GroupSvc = sample_service, sc_Store = memory_ops, sc_SyncEngine = sample_engine, sc_Scheduler = sample_cron,
     sc_MaxResponseLimit = 50, sc_Verifier = Some Inr, sc_AdminTokens = [''user:root@x.de''], sc_LocalSourceName = ''local'',
     sc_Stats = (\<lambda>_. (0, 0, 0)), sc_Documents = (\<lambda>_. []), sc_Library = sample_library\<rparr>"

definition sample_server :: "(MemoryStore, nat \<times> (nat \<times> string \<times> uuid) list) Server" where
  "sample_server = \<lparr>sr_world = sample_world, sr_sched = NewScheduler (0, [])\<rparr>"

definition sample_request :: "string \<Rightarrow> string \<Rightarrow> string \<Rightarrow> (string \<times> string) list \<Rightarrow> string \<Rightarrow> HttpRequest" where
  "sample_request meth route auth params content = \<lparr>rq_method = meth, rq_route = route, rq_authorization = auth, rq_actAs = [],
     rq_param = (\<lambda>n. case map_of params n of None \<Rightarrow> [] | Some v \<Rightarrow> v), rq_query = (\<lambda>_. None), rq_body = content\<rparr>"

text \<open>The manager of \<open>a\<close> enters somebody; the bearer of the upload token uploads for the CSV source.\<close>

definition sample_join :: HttpRequest where
  "sample_join = sample_request ''POST'' ''/v1/manage/groups/:group/members'' ''Bearer m@x.de'' [(''group'', ''a'')] ''user:n@x.de''"

definition sample_upload :: HttpRequest where
  "sample_upload = sample_request ''POST'' uploadRoute ''Bearer u'' [(''id'', ''2'')] sample_csv"

definition sample_new_source :: HttpRequest where
  "sample_new_source = sample_request ''POST'' ''/v1/sync/sources'' ''Bearer w'' [] ''second''"

lemma sample_installed: "installed sample_config"
  by (simp add: installed_def sample_config_def sample_ops sample_cron_laws) (simp add: sample_service_def)

lemma sample_data_ok: "data_ok 1 sample_store"
proof -
  have s: "lookup (sources sample_store) 1 = Some (sample_source 1 ''local'' [])" "lookup (sources sample_store) 2 \<noteq> None"
    by (simp_all add: sample_store_def)
  have g: "g_source g = Some 1 \<or> g_source g = Some 2" if "lookup (groups sample_store) i = Some g" for i g
    using that by (auto simp: sample_store_def sample_group_def split: if_splits)
  have "\<exists>j. g_source g = Some j \<and> lookup (sources sample_store) j \<noteq> None" if "lookup (groups sample_store) i = Some g" for i g
    using g [OF that] s by (metis option.distinct(1))
  moreover have "s_type (sample_source 1 ''local'' []) = SourceTypeLocal" by (simp add: sample_source_def)
  ultimately have "sources_ok 1 (mem_view sample_store)" using s(1) unfolding sources_ok_def mem_view_simps by blast
  then show ?thesis using sample_ok' sample_view_ok' by (simp add: data_ok_def)
qed

lemma sample_server_ok: "server_ok sample_config sample_server"
proof -
  have "wanted (mem_view sample_store) = Map.empty"
    by (auto simp: wanted_def sample_store_def sample_source_def fun_eq_iff)
  then show ?thesis
    using sample_data_ok sched_ok_new [of sample_cron "(0, [])"]
    by (simp add: server_ok_def sample_config_def sample_server_def sample_cron_def fun_eq_iff del: mem_view_simps)
qed

lemma sample_acts: "acts_ok sample_library"
  by (auto simp: acts_ok_def sample_library_def split: if_splits)

section \<open>A start\<close>

definition sample_settings :: AppConfiguration where
  "sample_settings = \<lparr>ac_DBType = ''memory'', ac_DBConnectionString = [], ac_DBAddMockData = True, ac_GinBindString = '':8085'',
     ac_DevMode = False, ac_APITokens = [''r''], ac_APIWriteTokens = [''w''], ac_SourceUploadTokens = [], ac_CORSAllowedOrigins = [],
     ac_ServiceTimeoutSeconds = 30, ac_MaxResponseLimit = 50, ac_GroupCacheRefreshSeconds = 600, ac_GroupRelations = [''owner''],
     ac_TrustedProxies = [], ac_Keycloak = \<lparr>kc_RealmURL = [], kc_ClientID = [], kc_ClientSecret = [], kc_Mapping = [], kc_SyncSchedule = []\<rparr>,
     ac_LocalSourceName = ''local'', ac_AdoptSources = [], ac_OIDC = \<lparr>oi_IssuerURL = [], oi_ClientID = [], oi_JWKSURL = []\<rparr>,
     ac_AdminTokens = [''user:root@x.de'']\<rparr>"

definition sample_outside :: "(nat \<times> (nat \<times> string \<times> uuid) list) Outside" where
  "sample_outside = \<lparr>ou_cron = sample_cron, ou_cron_New = (0, []), ou_library = sample_library, ou_documents = (\<lambda>_. []),
     ou_oidc_New = (\<lambda>_. Inr Inr), ou_decodeMapping = (\<lambda>_. None), ou_users = Inr [], ou_askUser = (\<lambda>_. Inr None),
     ou_file = (\<lambda>_. None), ou_compile = (\<lambda>_. None), ou_ldif = (\<lambda>_. None), ou_message = (\<lambda>_. ''refused'')\<rparr>"

definition sample_start :: "MemoryStore World" where
  "sample_start = \<lparr>w_store = NewMemoryStore, w_cache = [], w_now = 100, w_ids = (\<lambda>n. 1000 + n)\<rparr>"

definition sample_counts :: "MemoryStore \<Rightarrow> nat \<times> nat \<times> nat" where
  "sample_counts _ = (0, 0, 0)"

lemma sample_starts: "\<exists>w' sc sd. RunApplication sample_outside sample_settings memory_ops sample_counts sample_start = (w', Inr (sc, sd))"
proof -
  have "case snd (RunApplication sample_outside sample_settings memory_ops sample_counts sample_start) of Inl _ \<Rightarrow> False | Inr _ \<Rightarrow> True"
    by code_simp
  then show ?thesis by (metis (no_types) prod.collapse sum.case_eq_if sum.collapse(2))
qed

section \<open>Keycloak and a tree of groups\<close>

definition sample_mapping :: Mapping where
  "sample_mapping = \<lparr>mp_attribute = ''affiliation'', mp_all = Some \<lparr>mg_group = ''all'', mg_desc = []\<rparr>,
     mp_locations = [(''ma'', \<lparr>mg_group = ''mannheim'', mg_desc = []\<rparr>)], mp_roles = [(''staff'', ''owner'')],
     mp_ignored_scopes = [], mp_ignored_values = []\<rparr>"

definition sample_user :: KcUser where
  "sample_user = \<lparr>u_email = ''U@x.de'', u_enabled = True, u_attributes = (\<lambda>a. if a = ''affiliation'' then [''staff@ma''] else [])\<rparr>"

definition sample_keycloak :: KcSource where
  "sample_keycloak = SetSourceID 7 (NewSource sample_mapping)"

definition sample_edges_in :: "Edge list" where
  "sample_edges_in = [Edge ''b'' ''a'', Edge ''a'' ''c'', Edge ''b'' ''c'']"

end
