(* ===== verification/Spec2Isabelle.thy ===== *)
theory Spec2Isabelle
  imports WebSamples
begin

text \<open>
  Role provider service: which tokens a person holds, and who may change the groups behind them.
\<close>

section \<open>Who holds what\<close>

text \<open>C5: the tokens of a person are theirs, and those of exactly the groups and relations they hold,
  directly, through a pattern or through groups entered in groups, by live entries.\<close>

theorem user_tokens_exact:
  assumes "mem_ok s"
  shows "set (mem_GetUserTokens now s email) = {UserPrefix @ email}
     \<union> {GroupPrefix @ g | g r. in_group now (mem_view s) email g r}
     \<union> {GroupToken g r | g r. in_group now (mem_view s) email g r \<and> r \<noteq> RelationMember}"
  using assms by (rule mem_GetUserTokens_spec)

theorem user_tokens_exact_witness:
  "{''user:u@x.de'', ''group:a'', ''group:b''} \<subseteq> {UserPrefix @ ''u@x.de''}
     \<union> {GroupPrefix @ g | g r. in_group 100 (mem_view sample_store) ''u@x.de'' g r}
     \<union> {GroupToken g r | g r. in_group 100 (mem_view sample_store) ''u@x.de'' g r \<and> r \<noteq> RelationMember}"
proof -
  have "set (mem_GetUserTokens 100 sample_store ''u@x.de'') = {''user:u@x.de'', ''group:a'', ''group:b''}" by code_simp
  then show ?thesis unfolding user_tokens_exact [OF sample_ok', symmetric] by simp
qed

text \<open>C6: the members of a group are the subjects of exactly the live entries that count in it: its own
  and those of the groups entered in it, each through the relation it is entered with.\<close>

theorem all_members_exact:
  assumes "mem_ok s"
  shows "set (mem_GetAllMembers now s g r) =
     {memberToken (k_type k) (k_sid k) (k_srel k) | k. counts_in now (mem_view s) g (NormalizeRelation r) k}"
  using assms by (rule mem_GetAllMembers_spec)

theorem all_members_exact_witness:
  "{''user:u@x.de'', ''group:a''} =
     {memberToken (k_type k) (k_sid k) (k_srel k) | k. counts_in 100 (mem_view sample_store) ''b'' (NormalizeRelation []) k}"
proof -
  have "set (mem_GetAllMembers 100 sample_store ''b'' []) = {''user:u@x.de'', ''group:a''}" by code_simp
  then show ?thesis unfolding all_members_exact [OF sample_ok'] by simp
qed

text \<open>C9: the two searches agree: an address no pattern covers is listed among the members of a relation
  of a group exactly if the person's tokens hold that relation's token.\<close>

theorem members_have_tokens:
  assumes "view_ok (mem_view s)" "mem_ok s" "RelationSeparator \<notin> set g" "no_pattern now (tuples s) e"
  shows "UserPrefix @ e \<in> set (mem_GetAllMembers now s g r) \<longleftrightarrow> GroupToken g r \<in> set (mem_GetUserTokens now s e)"
proof -
  have wf: "wf_tuples (tuples s)" by (rule view_ok_tuples [OF assms(1,2)])
  show ?thesis using member_has_token [OF wf assms(3)] token_is_member [OF wf assms(3) assms(4)] by blast
qed

theorem members_have_tokens_witness:
  "UserPrefix @ ''u@x.de'' \<in> set (mem_GetAllMembers 100 sample_store ''b'' [])
    \<longleftrightarrow> GroupToken ''b'' [] \<in> set (mem_GetUserTokens 100 sample_store ''u@x.de'')"
  by (rule members_have_tokens [OF sample_view_ok' sample_ok'])
    (simp_all add: no_pattern_def sample_store_def sample_tuple_def)

text \<open>Memberships only end by themselves: what somebody holds later, the store being the same, they
  held before.\<close>

theorem holdings_only_expire:
  assumes "now \<le> later" "holds later ts email g r"
  shows "holds now ts email g r"
  using assms(2,1) by (rule holds_antimono)

theorem holdings_only_expire_witness: "holds 100 (tuples sample_store) ''u@x.de'' ''a'' ''member''"
proof (rule holdings_only_expire [of 100 200])
  have "sample_tuple 11 1 ''a'' ''user'' ''u@x.de'' \<in> set (user_hits 200 (tuples sample_store) ''u@x.de'')"
    by (simp add: user_hits_def sample_store_def sample_tuple_def live_def live_at_def)
  from holds.direct [OF this] show "holds 200 (tuples sample_store) ''u@x.de'' ''a'' ''member''"
    by (simp add: sample_tuple_def)
qed simp

section \<open>What a request can do\<close>

text \<open>C1: a request to the service either changes nothing or makes one step that its caller has the
  right to: creating a group needs an administrator and a free name, every other change a group of
  the local source that the caller manages or administers; an entry for a group is only added where
  it closes no cycle, one with an expiry only while that lies ahead.\<close>

theorem request_allowed:
  assumes "mem_ok (w_store w)" "sv_ops svc = memory_ops" "perform svc caller req w = (w', r)"
  shows "w_store w' = w_store w \<or> (mem_ok (w_store w')
    \<and> allowed_step (sv_local svc) caller (w_now w) (mem_view (w_store w)) (mem_view (w_store w')))"
  using assms by (rule memory.perform_step)

theorem request_allowed_witness:
  "let w' = fst (perform sample_service sample_manager (ReqRemoveMember ''a'' [] ''user:u@x.de'') sample_world) in
   w_store w' = w_store sample_world \<or> (mem_ok (w_store w')
    \<and> allowed_step 1 sample_manager 100 (mem_view (w_store sample_world)) (mem_view (w_store w')))"
  using request_allowed [OF sample_ok sample_ops(1) prod.collapse [symmetric],
      of sample_manager "ReqRemoveMember ''a'' [] ''user:u@x.de''"]
  unfolding Let_def sample_sel .

text \<open>C8: every request, granted or refused, keeps the invariant: an entry belongs to the source of its
  group, which exists, and is spelled the way the validators leave it.\<close>

theorem request_keeps_invariant:
  assumes "mem_ok (w_store w)" "view_ok (mem_view (w_store w))" "sv_ops svc = memory_ops"
    "perform svc caller req w = (w', r)"
  shows "mem_ok (w_store w') \<and> view_ok (mem_view (w_store w'))"
  using assms by (rule view_ok_request)

theorem request_keeps_invariant_witness:
  "let w' = fst (perform sample_service sample_admin (ReqCreateGroup ''d'' ''D'' [] [''user:m@x.de'']) sample_world) in
   mem_ok (w_store w') \<and> view_ok (mem_view (w_store w'))"
  unfolding Let_def by (rule request_keeps_invariant [OF sample_ok sample_view_ok sample_ops(1) prod.collapse [symmetric]])

text \<open>C25: no request touches a group of another source: its record stays, it gains no manager, and of
  its entries only those go that entered a local group which was deleted.\<close>

theorem request_leaves_other_sources:
  assumes "mem_ok (w_store w)" "sv_ops svc = memory_ops" "perform svc caller req w = (w', r)"
  shows "others_kept (sv_local svc) (mem_view (w_store w)) (mem_view (w_store w'))"
  by (rule memory_request [OF assms]) (simp_all add: others_kept_refl allowed_step_others)

theorem request_leaves_other_sources_witness:
  "others_kept 1 (mem_view sample_store)
     (mem_view (w_store (fst (perform sample_service sample_admin (ReqDeleteGroup ''a'') sample_world))))"
  using request_leaves_other_sources [OF sample_ok sample_ops(1) prod.collapse [symmetric],
      of sample_admin "ReqDeleteGroup ''a''"]
  unfolding sample_sel .

text \<open>C26: who is no administrator and manages no local group changes nothing, whatever they ask for.\<close>

theorem no_right_no_change:
  assumes "mem_ok (w_store w)" "sv_ops svc = memory_ops" "perform svc caller req w = (w', r)"
    and "\<not> cl_admin caller" "\<And>i. \<not> may_maintain (sv_local svc) caller (mem_view (w_store w)) i"
  shows "w_store w' = w_store w"
  by (rule memory_request [OF assms(1-3)]) (use allowed_step_right assms(4,5) in blast)+

lemma sample_stranger_no_right: "\<not> may_maintain 1 sample_stranger (mem_view sample_store) i"
  by (auto simp: may_maintain_def mem_managers_def lookup_default_def sample_defs)

theorem no_right_no_change_witness:
  "w_store (fst (perform sample_service sample_stranger (ReqAddMember ''a'' [] ''user:s@x.de'' None) sample_world)) = sample_store"
  using no_right_no_change [OF sample_ok sample_ops(1) prod.collapse [symmetric] sample_sel(8),
      of "ReqAddMember ''a'' [] ''user:s@x.de'' None"] sample_stranger_no_right
  unfolding sample_sel by blast

text \<open>C27: a manager who is no administrator changes nothing but one group they manage: not its
  existence, no other group, no entry of another group.\<close>

theorem manager_scope:
  assumes "mem_ok (w_store w)" "sv_ops svc = memory_ops" "perform svc caller req w = (w', r)"
    and "\<not> cl_admin caller" and "mem_view (w_store w) = v" "mem_view (w_store w') = v'"
  shows "v' = v \<or> (\<exists>i. may_maintain (sv_local svc) caller v i
    \<and> (\<forall>j. j \<noteq> i \<longrightarrow> v_groups v' j = v_groups v j \<and> v_managers v' j = v_managers v j)
    \<and> (\<forall>k. k_group k \<noteq> i \<longrightarrow> v_entries v' k = v_entries v k) \<and> dom (v_groups v') = dom (v_groups v)
    \<and> v_sources v' = v_sources v)"
  by (rule memory_request [OF assms(1-3)]) (use allowed_step_manager [OF _ assms(4)] assms(5,6) in auto)

theorem manager_scope_witness:
  "let v = mem_view sample_store;
       v' = mem_view (w_store (fst (perform sample_service sample_manager (ReqAddManager ''a'' ''user:n@x.de'') sample_world)))
   in v' = v \<or> (\<exists>i. may_maintain 1 sample_manager v i
    \<and> (\<forall>j. j \<noteq> i \<longrightarrow> v_groups v' j = v_groups v j \<and> v_managers v' j = v_managers v j)
    \<and> (\<forall>k. k_group k \<noteq> i \<longrightarrow> v_entries v' k = v_entries v k) \<and> dom (v_groups v') = dom (v_groups v)
    \<and> v_sources v' = v_sources v)"
  using manager_scope [OF sample_ok sample_ops(1) prod.collapse [symmetric] sample_sel(7) refl refl,
      of "ReqAddManager ''a'' ''user:n@x.de''"]
  unfolding Let_def sample_sel .

text \<open>C28: a refused change of members, relations or managers, or a refused deletion, has changed
  nothing in the store: every check comes before the first write.\<close>

theorem refused_changes_nothing:
  "clean (AddMember svc caller gt rel mt ex) \<and> clean (RemoveMember svc caller gt rel mt)
   \<and> clean (ChangeRelation svc caller gt mt r1 r2) \<and> clean (AddManager svc caller gt mt)
   \<and> clean (RemoveManager svc caller gt mt) \<and> clean (DeleteGroup svc caller gt)"
  by (intro conjI clean_requests)

text \<open>C10: where no group contains itself, directly or through others, no request makes one contain
  itself.\<close>

theorem requests_close_no_cycle:
  assumes "mem_ok (w_store w)" "sv_ops svc = memory_ops" "perform svc caller req w = (w', r)"
    and "acyclic (edge_rel (view_edges (w_now w) (mem_view (w_store w))))"
  shows "acyclic (edge_rel (view_edges (w_now w) (mem_view (w_store w'))))"
  by (rule memory_request [OF assms(1-3)]) (use assms(4) allowed_step_acyclic in auto)

lemma sample_edges: "edge_rel (view_edges 100 (mem_view sample_store)) = {(''b'', ''a'')}"
  unfolding mem_GroupEdges_set [OF sample_ok', symmetric] edge_rel_def mem_GroupEdges_def
  by (auto simp: sample_store_def sample_tuple_def live_def live_at_def)

lemma sample_acyclic: "acyclic {(''b'', ''a'')}"
  by (simp add: acyclic_insert) (simp add: acyclic_def)

theorem requests_close_no_cycle_witness:
  "acyclic (edge_rel (view_edges 100 (mem_view (w_store
     (fst (perform sample_service sample_admin (ReqAddMember ''a'' [] ''group:b'' None) sample_world))))))"
  using requests_close_no_cycle [OF sample_ok sample_ops(1) prod.collapse [symmetric],
      of sample_admin "ReqAddMember ''a'' [] ''group:b'' None"]
  unfolding sample_sel sample_edges using sample_acyclic by blast

text \<open>C11: the search before entering a group in another refuses exactly the entries that would close a
  cycle: it goes through all groups below the member and ends, whatever the store holds.\<close>

theorem cycle_check_exact:
  assumes "mem_ok s" "sv_ops svc = memory_ops"
  shows "checkNoCycle svc now s i j =
    (if (j, i) \<in> (edge_rel (view_edges now (mem_view s)))\<^sup>* then Inl ErrCycle else Inr ())"
  using assms by (rule memory_total.checkNoCycle_iff)

theorem cycle_check_exact_witness: "checkNoCycle sample_service 100 sample_store ''a'' ''b'' = Inl ErrCycle"
  unfolding cycle_check_exact [OF sample_ok' sample_ops(1)] sample_edges by (simp add: r_into_rtrancl)

text \<open>C37: a member token the service accepts is put into one spelling: parsing the token it stores gives
  the same member, in lower case and without white space or separators.\<close>

theorem member_token_canonical:
  assumes "parseMemberToken token = Inr (t, i)"
  shows "parseMemberToken (BuildToken t i) = Inr (t, i) \<and> stored_spelling i"
  using assms by (rule parseMemberToken_canonical)

theorem member_token_canonical_witness:
  "parseMemberToken (BuildToken ''group'' ''ab'') = Inr (''group'', ''ab'') \<and> stored_spelling ''ab''"
  by (rule member_token_canonical [of "'' group:AB#member ''"]) code_simp

text \<open>C40: removing a manager takes the token as it is written: where adding \<open>group:x#member\<close> enters the
  group's plain token, removing the same token looks for a manager nobody entered.\<close>

theorem remove_manager_spelling:
  assumes "ValidateGroupID g = Inr ()" "getGroup svc s g = Inr x" "RelationMember \<in> set (allowed (sv_relations svc))"
  defines "token \<equiv> GroupPrefix @ g @ ''#member''"
  shows "checkManagerToken svc s token = Inr (GroupPrefix @ g) \<and> normalManagerToken token = token"
  unfolding token_def using assms(1-3) by (rule manager_token_spelling)

theorem remove_manager_spelling_witness:
  "checkManagerToken sample_service sample_store (GroupPrefix @ ''b'' @ ''#member'') = Inr (GroupPrefix @ ''b'')
   \<and> normalManagerToken (GroupPrefix @ ''b'' @ ''#member'') = GroupPrefix @ ''b'' @ ''#member''"
proof (rule remove_manager_spelling)
  show "ValidateGroupID ''b'' = Inr ()" by (simp add: ValidateGroupID_iff char_class_defs)
  show "getGroup sample_service sample_store ''b'' = Inr (sample_group 1 ''b'')"
    by (simp add: getGroup_def sample_service_def sample_store_def mem_GetGroup_def)
qed (simp add: sample_defs)

section \<open>What a sync run can do\<close>

text \<open>C22: a sync run that fails, for its data, its relations, a group that is somebody else's or the
  store, leaves every group, entry, manager and history entry as it was; only what the source says of
  its last run changes.\<close>

theorem refused_sync_changes_nothing:
  assumes "mem_ok (w_store w)" "view_ok (mem_view (w_store w))" "eg_ops eng = memory_ops" "reads_valid eng"
    "still (eg_afterSync eng)" "RunSync eng j content w = (w', Inl e)"
  shows "run_recorded j (mem_view (w_store w)) (mem_view (w_store w'))"
  using memory.RunSync_run [OF assms(1,3,4,5,2,6)] by blast

theorem refused_sync_changes_nothing_witness:
  "run_recorded 7 (mem_view sample_store) (mem_view (w_store (fst (RunSync sample_engine 7 None sample_world))))"
  using refused_sync_changes_nothing [OF sample_ok sample_view_ok sample_ops(2-4), of 7 None
      "fst (RunSync sample_engine 7 None sample_world)" ErrRecordNotFound]
  unfolding sample_sel by (simp add: RunSync_def bindS_readS mem_GetSource_def sample_store_def)



text \<open>C23: whatever a run does, a group of another source keeps its record and its entries, and every
  group its managers.\<close>

theorem sync_leaves_other_sources:
  assumes "mem_ok (w_store w)" "view_ok (mem_view (w_store w))" "eg_ops eng = memory_ops" "reads_valid eng"
    "still (eg_afterSync eng)" "RunSync eng j content w = (w', r)"
    and "v_groups (mem_view (w_store w)) i = Some g" "g_source g \<noteq> Some j"
  shows "v_groups (mem_view (w_store w')) i = Some g \<and> v_managers (mem_view (w_store w')) = v_managers (mem_view (w_store w))
    \<and> (\<forall>k. k_group k = i \<longrightarrow> v_entries (mem_view (w_store w')) k = v_entries (mem_view (w_store w)) k)"
  by (rule RunSync_memory_others [OF assms])

theorem sync_leaves_other_sources_witness:
  "let v' = mem_view (w_store (fst (RunSync sample_engine 2 (Some sample_csv) sample_world))) in
   v_groups v' ''a'' = Some (sample_group 1 ''a'') \<and> v_managers v' = v_managers (mem_view sample_store)
    \<and> (\<forall>k. k_group k = ''a'' \<longrightarrow> v_entries v' k = v_entries (mem_view sample_store) k)"
  using sync_leaves_other_sources [OF sample_ok sample_view_ok sample_ops(2-4) sample_sync, of "''a''" "sample_group 1 ''a''"]
  unfolding sample_sel Let_def by (simp add: sample_store_def sample_group_def)

text \<open>C24: every run keeps the invariant.\<close>

theorem sync_keeps_invariant:
  assumes "mem_ok (w_store w)" "view_ok (mem_view (w_store w))" "eg_ops eng = memory_ops" "reads_valid eng"
    "still (eg_afterSync eng)" "RunSync eng j content w = (w', r)"
  shows "mem_ok (w_store w') \<and> view_ok (mem_view (w_store w'))"
  using assms by (rule view_ok_sync)

theorem sync_keeps_invariant_witness:
  "mem_ok (w_store (fst (RunSync sample_engine 2 (Some sample_csv) sample_world)))
   \<and> view_ok (mem_view (w_store (fst (RunSync sample_engine 2 (Some sample_csv) sample_world))))"
  by (rule sync_keeps_invariant [OF sample_ok sample_view_ok sample_ops(2-4) sample_sync])

section \<open>The running service\<close>



text \<open>C12: what runs on a schedule is what is stored with one, whatever sources are created, changed and
  deleted meanwhile: a cron entry syncs a source exactly if that source exists with this schedule, and
  no source is synced by two entries.\<close>

theorem schedules_followed:
  assumes "installed cfg" "server_ok cfg st0" "reachable cfg st0 st"
  defines "entries \<equiv> cn_Entries (sc_Scheduler cfg) (sd_cron (sr_sched st))"
  shows "((\<exists>e. entries e = Some (sched, j)) \<longleftrightarrow>
      sched \<noteq> [] \<and> (\<exists>src. lookup (sources (w_store (sr_world st))) j = Some src \<and> s_schedule src = sched))
    \<and> (\<forall>e e' sched'. entries e = Some (sched, j) \<longrightarrow> entries e' = Some (sched', j) \<longrightarrow> e = e')"
  using schedules_memory [OF server_ok_reachable [OF assms(3,1,2)]] unfolding entries_def by blast

lemma sample_reach: "reachable sample_config sample_server (fst (SetupRouter sample_config sample_new_source sample_server))"
  by (rule reachable.stepped [OF reachable.started system_step.request [OF _ prod.collapse [symmetric]]])
    (simp add: fresh_id_def sample_server_def sample_world_def sample_store_def)

theorem schedules_followed_witness:
  "\<exists>e. cn_Entries sample_cron (sd_cron (sr_sched (fst (SetupRouter sample_config sample_new_source sample_server)))) e
     = Some (''daily'', 1000)"
proof -
  let ?st = "fst (SetupRouter sample_config sample_new_source sample_server)"
  have "map_option s_schedule (lookup (sources (w_store (sr_world ?st))) 1000) = Some ''daily''" by code_simp
  then have "\<exists>src. lookup (sources (w_store (sr_world ?st))) 1000 = Some src \<and> s_schedule src = ''daily''" by auto
  then show ?thesis
    using schedules_followed [OF sample_installed sample_server_ok sample_reach, of "''daily''" 1000]
    by (simp add: sample_config_def)
qed



section \<open>What comes over the web\<close>

text \<open>C3: no request to the web server changes anything, what the lookup of an unknown person enters
  aside, unless it carries a write token, or the upload token of the source it syncs, or it is a
  signed-in person's and the service performs it in the name of whom it is judged by.\<close>

theorem api_authority:
  assumes "SetupRouter cfg r st = (st', resp)"
  shows "signed_in cfg st st' \<or> by_write_token cfg r \<or> by_upload_token cfg r st st' \<or> by_person cfg r st st'"
  using assms by (rule SetupRouter_authority)

theorem api_authority_witness:
  "let st' = fst (SetupRouter sample_config sample_join sample_server) in
   signed_in sample_config sample_server st' \<or> by_write_token sample_config sample_join
   \<or> by_upload_token sample_config sample_join sample_server st' \<or> by_person sample_config sample_join sample_server st'"
  using api_authority [OF prod.collapse [symmetric]] unfolding Let_def .






text \<open>C13: a source that was deleted through the API is gone for good: no entry of it is left, its groups
  belong to the local source, and no cron entry syncs it.\<close>

theorem source_deleted:
  assumes "installed cfg" "server_ok cfg st" "lb_uuid_Parse (sc_Library cfg) (rq_param r ''id'') = Some i"
    and "deleteSource cfg r st = (st', Inr resp)"
  defines "v \<equiv> mem_view (w_store (sr_world st))" and "v' \<equiv> mem_view (w_store (sr_world st'))"
  shows "v_sources v' i = None \<and> (\<forall>k e. v_entries v' k = Some e \<longrightarrow> en_source e \<noteq> Some i)
    \<and> (\<forall>k g. v_groups v k = Some g \<longrightarrow> g_source g = Some i \<longrightarrow>
         (\<exists>g'. v_groups v' k = Some g' \<and> g_source g' = Some (sv_local (sc_GroupSvc cfg))))
    \<and> (\<forall>e sched. cn_Entries (sc_Scheduler cfg) (sd_cron (sr_sched st')) e \<noteq> Some (sched, i))"
  unfolding v_def v'_def by (rule deleteSource_memory [OF assms(1-4)])

theorem source_deleted_witness:
  "let v' = mem_view (w_store (sr_world (fst (deleteSource sample_config sample_upload sample_server)))) in
   v_sources v' 2 = None \<and> (\<exists>g'. v_groups v' ''c'' = Some g' \<and> g_source g' = Some 1)"
proof -
  have "case snd (deleteSource sample_config sample_upload sample_server) of Inl _ \<Rightarrow> False | Inr _ \<Rightarrow> True" by code_simp
  then obtain resp where run: "deleteSource sample_config sample_upload sample_server =
      (fst (deleteSource sample_config sample_upload sample_server), Inr resp)"
    by (metis prod.collapse sum.case_eq_if sum.collapse(2))
  have s: "sr_world sample_server = sample_world" "sc_GroupSvc sample_config = sample_service"
    by (simp_all add: sample_server_def sample_config_def)
  have i: "lb_uuid_Parse (sc_Library sample_config) (rq_param sample_upload ''id'') = Some 2" by code_simp
  have "v_groups (mem_view sample_store) ''c'' = Some (sample_group 2 ''c'')" "g_source (sample_group 2 ''c'') = Some 2"
    by (simp_all add: sample_store_def sample_group_def)
  with source_deleted [OF sample_installed sample_server_ok i run] show ?thesis
    unfolding Let_def s sample_sel by blast
qed

text \<open>C21: a token that uploads to a source belongs to no other source and is neither a read nor a write
  token; every configured entry counts.\<close>

theorem upload_tokens_apart:
  assumes "parseSourceUploadTokens entries readTokens writeTokens = Inr toks"
  shows "distinct (map ut_token toks) \<and> set (map ut_token toks) \<inter> set (readTokens @ writeTokens) = {}
    \<and> (\<forall>t \<in> set toks. ut_token t \<noteq> [] \<and> ut_source t \<noteq> []) \<and> length toks = length entries"
  using upload_token_loop_Inr [OF assms [unfolded parseSourceUploadTokens_def]] by simp

theorem upload_tokens_apart_witness:
  "distinct (map ut_token [\<lparr>ut_source = ''csv'', ut_token = ''u''\<rparr>, \<lparr>ut_source = ''b'', ut_token = ''v''\<rparr>])"
proof -
  have "parseSourceUploadTokens ['' csv = u'', ''b=v''] [''r''] [''w''] =
      Inr [\<lparr>ut_source = ''csv'', ut_token = ''u''\<rparr>, \<lparr>ut_source = ''b'', ut_token = ''v''\<rparr>]" by code_simp
  from upload_tokens_apart [OF this] show ?thesis by blast
qed

section \<open>Group pages\<close>

text \<open>C17: the way down to a group that its page shows is found in the end, whatever cycles the groups
  form: a shortest one from a group no group of the same source contains, or the group alone where
  there is none.\<close>

theorem path_down:
  assumes "g_id g \<noteq> []" "[] \<notin> e_parent ` set edges"
  shows "\<exists>path. pathDown all edges g = Some path \<and> way_down (ups all edges g) (g_id g) path"
  using assms by (rule pathDown_ends)

theorem path_down_witness:
  "way_down (ups [sample_group 1 ''a'', sample_group 1 ''b'', sample_group 1 ''c''] sample_edges_in (sample_group 1 ''c''))
     ''c'' [''b'', ''c'']"
proof -
  have p: "pathDown [sample_group 1 ''a'', sample_group 1 ''b'', sample_group 1 ''c''] sample_edges_in (sample_group 1 ''c'') =
      Some [''b'', ''c'']"
  proof -
    have "pathDown [sample_group 1 ''a'', sample_group 1 ''b'', sample_group 1 ''c''] sample_edges_in (sample_group 1 ''c'') =
        follow [(''b'', ''c''), (''a'', ''c''), (''c'', [])] ''b''" by code_simp
    then show ?thesis by (simp add: follow.simps lookup_default_def)
  qed
  have "g_id (sample_group 1 ''c'') = ''c''" "[] \<notin> e_parent ` set sample_edges_in"
    by (simp_all add: sample_group_def sample_edges_in_def)
  with path_down [of "sample_group 1 ''c''" sample_edges_in
      "[sample_group 1 ''a'', sample_group 1 ''b'', sample_group 1 ''c'']"] p show ?thesis by simp
qed

section \<open>Keycloak\<close>

text \<open>C18: reading everybody page by page ends with everybody, once each and in order, however many
  there are.\<close>

theorem list_users_ends: "ListUsers (serves us) = Some (Inr us)"
  by (rule ListUsers_serves)

text \<open>C16: a full read gives exactly the memberships the mapping derives for everybody who is enabled and
  has a plain address.\<close>

theorem keycloak_exact:
  assumes "snd (Fetch (Inr us) s) = Inr (ts, ds, ns)"
  shows "t \<in> set ts \<longleftrightarrow> (\<exists>u \<in> set us. u_enabled u \<and> ValidateEmail (NormalizeID (u_email u)) = Inr () \<and> p_type t = ''user''
        \<and> p_member t = NormalizeID (u_email u)
        \<and> derives (ks_mapping s) (u_attributes u (mp_attribute (ks_mapping s))) (p_group t) (p_relation t))"
  using assms by (rule Fetch_set)

theorem keycloak_exact_witness: "derives sample_mapping [''staff@ma''] ''mannheim'' ''owner''"
proof -
  let ?t = "\<lparr>p_group = ''mannheim'', p_relation = ''owner'', p_type = ''user'', p_member = ''u@x.de''\<rparr>"
  obtain ts ds ns where f: "snd (Fetch (Inr [sample_user]) sample_keycloak) = Inr (ts, ds, ns)" 
    by (simp add: Fetch_def Let_def)
  have "case snd (Fetch (Inr [sample_user]) sample_keycloak) of Inl _ \<Rightarrow> False | Inr (ts, _) \<Rightarrow> ?t \<in> set ts" by code_simp
  then have "?t \<in> set ts" by (simp add: f)
  then show ?thesis
    unfolding keycloak_exact [OF f]
    by (simp add: sample_user_def sample_keycloak_def SetSourceID_def NewSource_def sample_mapping_def)
qed





section \<open>Importing files\<close>

text \<open>C32: a CSV file that is read at all holds only valid rows: each tuple passed the validators and
  names a relation, and each description belongs to a group with members in the file.\<close>

theorem csv_all_valid:
  assumes "ParseCSV s = Inr (ts, ds)"
  shows "(\<forall>t \<in> set ts. ValidateTuple t = Inr () \<and> p_relation t \<noteq> []) \<and> dom (lookup ds) \<subseteq> p_group ` set ts"
  using assms by (rule ParseCSV_valid)

theorem csv_all_valid_witness:
  "ValidateTuple \<lparr>p_group = ''c'', p_relation = ''member'', p_type = ''user'', p_member = ''w@x.de''\<rparr> = Inr ()"
proof -
  have "ParseCSV sample_csv =
      Inr ([\<lparr>p_group = ''c'', p_relation = ''member'', p_type = ''user'', p_member = ''w@x.de''\<rparr>], [])" by code_simp
  from csv_all_valid [OF this] show ?thesis by simp
qed

text \<open>C31: valid tuples written as a CSV file with a header are read back as they are.\<close>

theorem csv_round_trip:
  assumes "\<And>t. t \<in> set ts \<Longrightarrow> csv_writable t"
  shows "ParseCSV (csv_file ts) = Inr (ts, [])"
  using assms by (rule ParseCSV_file)

theorem csv_round_trip_witness:
  "ParseCSV (csv_file [\<lparr>p_group = ''c'', p_relation = ''owner'', p_type = ''group'', p_member = ''a#owner''\<rparr>]) =
     Inr ([\<lparr>p_group = ''c'', p_relation = ''owner'', p_type = ''group'', p_member = ''a#owner''\<rparr>], [])"
proof (rule csv_round_trip)
  have "csv_writable \<lparr>p_group = ''c'', p_relation = ''owner'', p_type = ''group'', p_member = ''a#owner''\<rparr>" by code_simp
  then show "csv_writable t"
    if "t \<in> set [\<lparr>p_group = ''c'', p_relation = ''owner'', p_type = ''group'', p_member = ''a#owner''\<rparr>]" for t
    using that by simp
qed

text \<open>The same holds for LDIF, whatever the parser and the configured expressions give: every
  tuple of an accepted file passed the validators.\<close>

theorem ldif_all_valid:
  assumes "ParseLDIF compile unmarshal r dnEmailRegexp groupRelationRegexp = Inr (ts, ds)" and "t \<in> set ts"
  shows "ValidateTuple t = Inr ()"
  using ParseLDIF_valid [OF assms(1)] assms(2) by blast

definition sample_compile :: "string \<Rightarrow> Regexp option" where
  "sample_compile e = Some \<lparr>re_num = 1, re_index = (\<lambda>_. -1), re_find = (\<lambda>s. Some [s, trim_prefix s ''mail='']) \<rparr>"

definition sample_ldif :: "string \<Rightarrow> LdapEntry option list option" where
  "sample_ldif r = Some [Some \<lparr>le_dn = ''cn=Staff,ou=g'', le_values = (\<lambda>a. if a = ''objectClass'' then [''posixGroup'']
     else if a = ''member'' then [''mail=U@x.de''] else [])\<rparr>, None]"

theorem ldif_all_valid_witness:
  "ValidateTuple \<lparr>p_group = ''staff'', p_relation = ''member'', p_type = ''user'', p_member = ''u@x.de''\<rparr> = Inr ()"
proof (rule ldif_all_valid)
  show "ParseLDIF sample_compile sample_ldif [] ''mail=(.+)'' [] =
      Inr ([\<lparr>p_group = ''staff'', p_relation = ''member'', p_type = ''user'', p_member = ''u@x.de''\<rparr>], [])" by code_simp
qed simp

section \<open>Reserved names\<close>

text \<open>The names a source reserves are stored once each, in lower case and valid: exactly those of the
  request that are not empty.\<close>

theorem reserved_names_stored:
  assumes "NormalizeReservedNames globs = Inr out"
  shows "distinct out \<and> set out = (\<lambda>g. NormalizeID (trim_prefix (trim_space g) GroupPrefix)) ` set globs - {[]}
    \<and> (\<forall>g \<in> set out. ValidateReservedName g = Inr ())"
  using assms by (rule NormalizeReservedNames_Inr)

theorem reserved_names_stored_witness: "ValidateReservedName ''dhbw-*'' = Inr ()"
proof -
  have "NormalizeReservedNames ['' group:DHBW-* '', [], ''dhbw-*''] = Inr [''dhbw-*'']" by code_simp
  from reserved_names_stored [OF this] show ?thesis by simp
qed

text \<open>C36: a source only gets to reserve names that match none of the groups of anybody else.\<close>

theorem reservation_free:
  assumes "mem_ok s" "CheckReservation memory_ops s j globs = Inr ()" "v_groups (mem_view s) i = Some g"
    "glob \<in> set globs" "MatchGlob glob i"
  shows "g_source g = Some j"
proof -
  have "g_id g = i" using mem_okD(5) [OF assms(1)] assms(3) by simp
  then show ?thesis using memory.CheckReservation_Inr [OF assms(1-3) _ assms(4,5)] by blast
qed

theorem reservation_free_witness: "g_source (sample_group 2 ''c'') = Some 2"
proof (rule reservation_free [OF sample_ok', of 2 "[''c*'']" "''c''" _ "''c*''"])
  show "CheckReservation memory_ops sample_store 2 [''c*''] = Inr ()" by code_simp
  show "MatchGlob ''c*'' ''c''" by code_simp
qed (simp_all add: sample_store_def)

section \<open>Ids, globs, relations, search\<close>

text \<open>A group with its relation goes into one token and comes out of it again: the token
  determines group and relation, for every group id without a separator.\<close>

theorem group_token_injective:
  assumes "RelationSeparator \<notin> set g" "RelationSeparator \<notin> set g'"
  shows "GroupToken g r = GroupToken g' r' \<longleftrightarrow> g = g' \<and> NormalizeRelation r = NormalizeRelation r'"
  using assms by (rule GroupToken_inject)

theorem group_token_injective_witness:
  "GroupToken ''a'' ''x'' = GroupToken ''a'' ''y'' \<longleftrightarrow> ''a'' = ''a'' \<and> NormalizeRelation ''x'' = NormalizeRelation ''y''"
  by (rule group_token_injective) simp_all

text \<open>C38: an id the validators accept, of a person, a group with or without relation, or a pattern, is in
  the spelling that is stored, and holds no character that separates tokens or lists.\<close>

theorem accepted_ids_stored:
  assumes "ValidateMember t i = Inr ()"
  shows "stored_spelling i"
  using assms by (rule ValidateMember_stored)

theorem accepted_ids_stored_witness: "stored_spelling ''a#owner''"
  by (rule accepted_ids_stored [of "''group''"]) code_simp

text \<open>C39: a membership pattern names one domain (\<open>*@\<close> and labels) or one address: nothing broader is let in.\<close>

theorem pattern_shape:
  "ValidatePattern p = Inr () \<longleftrightarrow>
     (\<exists>d. p = ''*@'' @ d \<and> list_all label_ok (split_on CHR ''.'' d))
     \<or> \<not> has_prefix p ''*@'' \<and> CHR ''*'' \<notin> set p \<and> ValidateEmail p = Inr ()"
  by (rule ValidatePattern_shape)


text \<open>The relations of a configuration are the names it lists and always \<open>member\<close>, each once and each
  fit for a token; a misspelt name refuses the configuration.\<close>

theorem configured_relations:
  assumes "NewRelations names = Inr r"
  shows "relations_ok r \<and> set (allowed r) = insert RelationMember (set (map trim_space names) - {[]})"
  using assms by (rule NewRelations_ok)

theorem configured_relations_witness: "relations_ok \<lparr>allowed = [''owner'', ''member'']\<rparr>"
proof -
  have "NewRelations ['' owner '', []] = Inr \<lparr>allowed = [''owner'', ''member'']\<rparr>" by code_simp
  from configured_relations [OF this] show ?thesis by blast
qed

text \<open>C34: an id pasted into the search box comes first, whatever else matches and however small the limit.\<close>

theorem search_exact_first:
  assumes "exact (parseQuery raw) (fold_text (g_id g))" and "g \<in> set cache"
  shows "Search cache raw limit \<noteq> [] \<and> fold_text (g_id (hd (Search cache raw limit))) = fold_text (g_id g)"
  using assms by (rule Search_exact_first)

theorem search_exact_first_witness:
  "Search [sample_group 1 ''ab'', sample_group 1 ''b''] ''group:b'' 1 \<noteq> [] \<and>
   fold_text (g_id (hd (Search [sample_group 1 ''ab'', sample_group 1 ''b''] ''group:b'' 1))) = fold_text (g_id (sample_group 1 ''b''))"
  by (rule search_exact_first, code_simp, simp)



section \<open>The in-memory store\<close>

text \<open>Entering a member adds an entry of the given source; entering it anew sets the expiry and keeps
  the source. Anything else is untouched.\<close>

theorem memory_AddMember:
  assumes "mem_ok s"
  shows "mem_ok (mem_AddMember now new g r ty m src ex s) \<and>
    mem_view (mem_AddMember now new g r ty m src ex s) = spec_AddMember (entry_key g r ty m) src ex (mem_view s)"
  using assms by (rule mem_AddMember_spec)

theorem memory_AddMember_witness:
  "mem_view (mem_AddMember 100 9 ''a'' [] ''user'' ''n@x.de'' (Some 1) None sample_store) =
     spec_AddMember (entry_key ''a'' [] ''user'' ''n@x.de'') (Some 1) None (mem_view sample_store)"
  using memory_AddMember [OF sample_ok'] by blast

text \<open>C30: a changed relation moves the entry, or where the new one exists already joins it with the later
  expiry; an entry that is not there is reported and nothing changes.\<close>

theorem memory_ChangeRelation:
  assumes "mem_ok s"
  shows "case mem_ChangeRelation g ty m r1 r2 s of
      Inl e \<Rightarrow> e = ErrRecordNotFound \<and> v_entries (mem_view s) (entry_key g r1 ty m) = None
    | Inr s' \<Rightarrow> mem_ok s' \<and> v_entries (mem_view s) (entry_key g r1 ty m) \<noteq> None
        \<and> mem_view s' = spec_ChangeRelation (entry_key g r1 ty m) (entry_key g r2 ty m) (mem_view s)"
  using assms by (rule mem_ChangeRelation_spec)

theorem memory_ChangeRelation_witness:
  "case mem_ChangeRelation ''a'' ''user'' ''u@x.de'' [] ''owner'' sample_store of
      Inl e \<Rightarrow> e = ErrRecordNotFound \<and> v_entries (mem_view sample_store) (entry_key ''a'' [] ''user'' ''u@x.de'') = None
    | Inr s' \<Rightarrow> mem_ok s' \<and> v_entries (mem_view sample_store) (entry_key ''a'' [] ''user'' ''u@x.de'') \<noteq> None
        \<and> mem_view s' = spec_ChangeRelation (entry_key ''a'' [] ''user'' ''u@x.de'') (entry_key ''a'' ''owner'' ''user'' ''u@x.de'')
            (mem_view sample_store)"
  by (rule memory_ChangeRelation [OF sample_ok'])

text \<open>C29: an import replaces a source's entries, creates what groups are missing and drops the source's
  groups nothing mentions any more, as the abstract operation says.\<close>

theorem memory_ReplaceTuples:
  assumes "mem_ok s"
    and "\<And>p e. p \<in> set ps \<Longrightarrow> v_entries (mem_view s) (pair_key p) = Some e \<Longrightarrow> en_source e = Some src"
    and "mem_ReplaceTuples now ids src ps d s = (s', n, m)"
  shows "mem_ok s' \<and> mem_view s' = spec_ReplaceTuples now src ps d (mem_view s)"
  using assms by (rule mem_ReplaceTuples_spec)

theorem memory_ReplaceTuples_witness:
  "mem_view (fst (mem_ReplaceTuples 100 id 2 [] [] sample_store)) = spec_ReplaceTuples 100 2 [] [] (mem_view sample_store)"
  using memory_ReplaceTuples [OF sample_ok', of "[]" 2 100 id "[]"] by (metis empty_iff empty_set prod.collapse)

text \<open>A deleted group takes along its entries, those that enter it elsewhere, its managers and every
  manager entry that names it.\<close>

theorem memory_DeleteGroup:
  assumes "mem_ok s"
  shows "mem_ok (mem_DeleteGroup i s) \<and> mem_view (mem_DeleteGroup i s) = spec_DeleteGroup i (mem_view s)"
  using assms by (rule mem_DeleteGroup_spec)

theorem memory_DeleteGroup_witness:
  "mem_view (mem_DeleteGroup ''a'' sample_store) = spec_DeleteGroup ''a'' (mem_view sample_store)"
  using memory_DeleteGroup [OF sample_ok'] by blast

end
